(* ===== verification/Prelude.thy ===== *)
theory Prelude
  imports Main "HOL-Library.Word"
begin

unbundle bit_operations_syntax

text \<open>
  Shared vocabulary of the development: the machine types of the C++ sources, byte strings,
  and the list, map and word facts that the component theories use.

  \<^item> \<open>char\<close> data (packet buffers, \<open>std::vector<char>\<close>, \<open>std::string\<close>) is a list of 8-bit words;
  \<^item> \<open>std::uint16_t\<close>, \<open>std::uint32_t\<close>, \<open>std::uint64_t\<close> are words of that width, so that \<open>+\<close>, \<open>-\<close>
    and \<open>*\<close> wrap around as the C++ unsigned types do;
  \<^item> \<open>float\<close> values are kept as their 32-bit IEEE-754 patterns (theory \<open>F32\<close> interprets them);
  \<^item> \<open>std::size_t\<close> values that are sizes of, or positions in, in-memory containers are natural
    numbers.
\<close>

section \<open>Machine types\<close>

type_synonym byte = "8 word"
type_synonym u8 = "8 word"
type_synonym u16 = "16 word"
type_synonym u32 = "32 word"
type_synonym u64 = "64 word"
type_synonym f32 = "32 word"
type_synonym bytes = "byte list"

text \<open>The bytes of a string literal of the source.\<close>

definition str :: "string \<Rightarrow> bytes" where
  "str s = map (\<lambda>c. of_nat (of_char c)) s"

text \<open>\<open>static_cast<int>\<close> of an unsigned 32-bit value (two's complement).\<close>

definition to_int :: "u32 \<Rightarrow> int" where
  "to_int w = sint w"

text \<open>\<open>static_cast<std::uint32_t>\<close> of a signed value.\<close>

definition to_u32 :: "int \<Rightarrow> u32" where
  "to_u32 i = word_of_int i"

section \<open>Collections of rewrite rules\<close>

named_theorems wire_simps \<open>encoders and decoders of the wire format\<close>
named_theorems len_simps \<open>lengths of encoded values\<close>

section \<open>Lists, maps and words\<close>

lemma length_str [simp, len_simps]: "length (str s) = length s"
  by (simp add: str_def)

lemma unat_of_nat_u32: "n < 2 ^ 32 \<Longrightarrow> unat (of_nat n :: u32) = n"
  by (simp add: unat_of_nat take_bit_nat_eq_self)

lemma unat_of_nat_u64: "n < 2 ^ 64 \<Longrightarrow> unat (of_nat n :: u64) = n"
  by (simp add: unat_of_nat take_bit_nat_eq_self)

lemma mask_8: "0xFF = (mask 8 :: 'a::len word)"
  by (simp add: mask_eq_exp_minus_1)

lemma low_byte [simp]: "(ucast (w AND 0xFF) :: byte) = ucast (w :: 'a::len word)"
  by (rule bit_word_eqI) (auto simp: mask_8 bit_simps dest: bit_imp_le_length)

lemma byte_bit_high: "8 \<le> k \<Longrightarrow> bit (b :: byte) k = False"
  by (auto dest: bit_imp_le_length)

lemma take_append_length [simp]: "length xs = n \<Longrightarrow> take n (xs @ ys) = xs"
  by simp

lemma drop_append_length [simp]: "length xs = n \<Longrightarrow> drop n (xs @ ys) = ys"
  by simp

lemma unat_less_u32: "unat (x :: u32) < 2 ^ 32"
  using unsigned_less [of x, where ?'a = nat] by simp

lemma unat_plus_u32:
  "unat (x :: u32) + unat y < 2 ^ 32 \<Longrightarrow> unat (x + y) = unat x + unat y"
  by (simp add: unat_word_ariths)

lemma unat_plus_u32_wrap:
  fixes x y :: u32
  assumes "2 ^ 32 \<le> unat x + unat y"
  shows "unat (x + y) = unat x + unat y - 2 ^ 32"
proof -
  have "unat x + unat y - 2 ^ 32 < 2 ^ 32"
    using unat_less_u32 [of x] unat_less_u32 [of y] by simp
  then show ?thesis using assms by (simp add: unat_word_ariths le_mod_geq)
qed

lemma fold_skip: "fold (\<lambda>_ x. x) xs y = y"
  by (induction xs) auto

end
