(* ===== verification/Wire.thy ===== *)
theory Wire
  imports Prelude
begin

unbundle bit_operations_syntax

text \<open>
  The little-endian wire primitives shared by client and server
  (\<open>common/protocol/protocol_base.hpp\<close>, lines 11 to 52).

  A writer of the source appends to \<open>std::vector<char>& out\<close>; its model is the byte string that
  the call appends, and a sequence of writes is the concatenation. A \<open>parse\<close> function of the
  source works on a pointer pair \<open>(p, end)\<close>; its model is a reader on the bytes from \<open>p\<close> up to
  \<open>end\<close>, with three outcomes: the parsed value and the bytes that are left (\<open>Parsed\<close>), the
  value \<open>false\<close> (\<open>Reject\<close>), or an access outside \<open>[p, end)\<close> (\<open>OutOfBounds\<close>), which the source
  does not check and which is undefined behaviour.
\<close>

section \<open>Readers\<close>

datatype 'a parsed = Parsed 'a bytes | Reject | OutOfBounds

type_synonym 'a reader = "bytes \<Rightarrow> 'a parsed"

definition rret :: "'a \<Rightarrow> 'a reader" where
  "rret a = (\<lambda>bs. Parsed a bs)"

definition rbind :: "'a reader \<Rightarrow> ('a \<Rightarrow> 'b reader) \<Rightarrow> 'b reader" where
  "rbind r f = (\<lambda>bs. case r bs of
      Parsed a rest \<Rightarrow> f a rest
    | Reject \<Rightarrow> Reject
    | OutOfBounds \<Rightarrow> OutOfBounds)"

text \<open>\<open>if (p + n > end) return false;\<close>\<close>

definition need :: "nat \<Rightarrow> unit reader" where
  "need n = (\<lambda>bs. if length bs < n then Reject else Parsed () bs)"

text \<open>\<open>p += n;\<close> without a check: moving \<open>p\<close> beyond \<open>end\<close> is already undefined.\<close>

definition skip :: "nat \<Rightarrow> unit reader" where
  "skip n = (\<lambda>bs. if length bs < n then OutOfBounds else Parsed () (drop n bs))"

text \<open>\<open>*p++\<close>\<close>

definition rd_byte :: "byte reader" where
  "rd_byte = (\<lambda>bs. case bs of [] \<Rightarrow> OutOfBounds | b # rest \<Rightarrow> Parsed b rest)"

definition rd_bool :: "bool reader" where
  "rd_bool = rbind rd_byte (\<lambda>b. rret (b \<noteq> 0))"

text \<open>A counted loop of element parsers.\<close>

fun parse_many :: "'a reader \<Rightarrow> nat \<Rightarrow> 'a list reader" where
  "parse_many r 0 = rret []"
| "parse_many r (Suc n) = rbind r (\<lambda>x. rbind (parse_many r n) (\<lambda>xs. rret (x # xs)))"

section \<open>Little-endian encoding\<close>

definition write_le16 :: "u16 \<Rightarrow> bytes" where
  "write_le16 v = [ucast (v AND 0xFF), ucast (drop_bit 8 v AND 0xFF)]"

definition write_le32 :: "u32 \<Rightarrow> bytes" where
  "write_le32 v = [ucast (v AND 0xFF), ucast (drop_bit 8 v AND 0xFF),
     ucast (drop_bit 16 v AND 0xFF), ucast (drop_bit 24 v AND 0xFF)]"

definition read_le16 :: "bytes \<Rightarrow> u16" where
  "read_le16 p = ucast (p ! 0) OR push_bit 8 (ucast (p ! 1))"

definition read_le32 :: "bytes \<Rightarrow> u32" where
  "read_le32 p = ucast (p ! 0) OR push_bit 8 (ucast (p ! 1))
     OR push_bit 16 (ucast (p ! 2)) OR push_bit 24 (ucast (p ! 3))"

text \<open>
  \<open>write_float_le\<close> and \<open>read_float_le\<close> copy the object representation of the float with
  \<open>memcpy\<close>; a \<open>float\<close> is modelled by that representation.
\<close>

definition write_float_le :: "f32 \<Rightarrow> bytes" where
  "write_float_le v = (let t = v in write_le32 t)"

definition read_float_le :: "bytes \<Rightarrow> f32" where
  "read_float_le p = (let t = read_le32 p in t)"

text \<open>\<open>read_le32(p); p += 4;\<close>: the four bytes are read without a check of their own.\<close>

definition rd_le32 :: "u32 reader" where
  "rd_le32 = (\<lambda>bs. if length bs < 4 then OutOfBounds else Parsed (read_le32 bs) (drop 4 bs))"

definition rd_float :: "f32 reader" where
  "rd_float = (\<lambda>bs. if length bs < 4 then OutOfBounds else Parsed (read_float_le bs) (drop 4 bs))"

section \<open>Length-prefixed strings and flags\<close>

definition write_lp_string :: "bytes \<Rightarrow> bytes" where
  "write_lp_string s = write_le32 (of_nat (length s)) @ s"

definition read_lp_string :: "bytes reader" where
  "read_lp_string = (\<lambda>bs.
     if length bs < 4 then Reject
     else let len = unat (read_le32 bs); rest = drop 4 bs in
       if len > length rest then Reject
       else Parsed (take len rest) (drop len rest))"

text \<open>\<open>out.push_back(success ? 1 : 0)\<close> and \<open>out.push_back(b)\<close>\<close>

definition write_bool :: "bool \<Rightarrow> bytes" where
  "write_bool b = [if b then 1 else 0]"

definition write_u8 :: "u8 \<Rightarrow> bytes" where
  "write_u8 b = [b]"

text \<open>A string whose size survives \<open>static_cast<std::uint32_t>\<close>.\<close>

definition lp_ok :: "bytes \<Rightarrow> bool" where
  "lp_ok s \<longleftrightarrow> length s < 2 ^ 32"

text \<open>
  \<open>safe_from n r\<close>: with at least \<open>n\<close> bytes in front of \<open>end\<close>, the reader stays inside the
  buffer, whatever the bytes are.
\<close>

definition safe_from :: "nat \<Rightarrow> 'a reader \<Rightarrow> bool" where
  "safe_from n r \<longleftrightarrow> (\<forall>bs. n \<le> length bs \<longrightarrow> r bs \<noteq> OutOfBounds)"

section \<open>Round trips of the primitives\<close>

lemma length_write [simp, len_simps]:
  "length (write_le16 h) = 2" "length (write_le32 v) = 4" "length (write_float_le f) = 4"
  "length (write_bool b) = 1" "length (write_u8 c) = 1"
  "length (write_lp_string s) = 4 + length s"
  by (simp_all add: write_le16_def write_le32_def write_float_le_def write_bool_def
      write_u8_def write_lp_string_def)

lemma write_le32_not_Nil [simp]: "write_le32 v \<noteq> []"
  by (simp add: write_le32_def)

lemma read_write_le16 [wire_simps]: "read_le16 (write_le16 v @ rest) = v"
proof (rule bit_word_eqI)
  fix n :: nat assume "n < LENGTH(16)"
  then consider "n < 8" | "8 \<le> n" "n < 16" by fastforce
  then show "bit (read_le16 (write_le16 v @ rest)) n = bit v n"
    by cases (auto simp: read_le16_def write_le16_def bit_simps)
qed

lemma read_write_le32 [wire_simps]: "read_le32 (write_le32 v @ rest) = v"
proof (rule bit_word_eqI)
  fix n :: nat assume "n < LENGTH(32)"
  then consider "n < 8" | "8 \<le> n" "n < 16" | "16 \<le> n" "n < 24" | "24 \<le> n" "n < 32" by fastforce
  then show "bit (read_le32 (write_le32 v @ rest)) n = bit v n"
    by cases (auto simp: read_le32_def write_le32_def bit_simps)
qed

lemma read_write_float_le [wire_simps]: "read_float_le (write_float_le v @ rest) = v"
  by (simp add: read_float_le_def write_float_le_def read_write_le32)

text \<open>Conversely, any four bytes are the encoding of the word read from them.\<close>

lemma write_read_le32: "length p = 4 \<Longrightarrow> write_le32 (read_le32 p) = p"
proof -
  assume "length p = 4"
  then obtain a b c d where p: "p = [a, b, c, d]"
    by (auto simp: numeral_eq_Suc length_Suc_conv)
  show ?thesis
    unfolding p write_le32_def read_le32_def low_byte
    by (auto intro!: bit_word_eqI simp: bit_simps byte_bit_high)
qed

lemma rd_le32_write [wire_simps]: "rd_le32 (write_le32 v @ rest) = Parsed v rest"
  by (simp add: rd_le32_def read_write_le32)

lemma rd_float_write [wire_simps]: "rd_float (write_float_le v @ rest) = Parsed v rest"
  by (simp add: rd_float_def read_write_float_le)

lemma rd_byte_write [wire_simps]: "rd_byte (write_u8 b @ rest) = Parsed b rest"
  by (simp add: rd_byte_def write_u8_def)

lemma rd_bool_write [wire_simps]: "rd_bool (write_bool b @ rest) = Parsed b rest"
  by (simp add: rd_bool_def rbind_def rret_def rd_byte_def write_bool_def)

lemma read_lp_string_write [wire_simps]:
  "lp_ok s \<Longrightarrow> read_lp_string (write_lp_string s @ rest) = Parsed s rest"
  by (simp add: read_lp_string_def write_lp_string_def lp_ok_def read_write_le32
      unat_of_nat_u32 Let_def)

lemma read_lp_string_last [wire_simps]: "lp_ok s \<Longrightarrow> read_lp_string (write_lp_string s) = Parsed s []"
  using read_lp_string_write [of s "[]"] by simp

lemma rd_Nil [wire_simps]: "rd_le32 [] = OutOfBounds" "rd_float [] = OutOfBounds" "rd_byte [] = OutOfBounds"
  by (simp_all add: rd_le32_def rd_float_def rd_byte_def)

lemma need_enough [wire_simps]: "n \<le> length bs \<Longrightarrow> need n bs = Parsed () bs"
  by (simp add: need_def)

lemma rbind_apply [wire_simps]:
  "rbind r f bs = (case r bs of Parsed a rest \<Rightarrow> f a rest | Reject \<Rightarrow> Reject | OutOfBounds \<Rightarrow> OutOfBounds)"
  by (simp add: rbind_def)

lemma rret_apply [wire_simps]: "rret a bs = Parsed a bs"
  by (simp add: rret_def)

text \<open>What a successful reader has consumed.\<close>

lemma read_lp_string_length:
  "read_lp_string bs = Parsed s rest \<Longrightarrow> length bs = 4 + length s + length rest"
  by (auto simp: read_lp_string_def Let_def split: if_splits)

lemma rd_le32_length: "rd_le32 bs = Parsed v rest \<Longrightarrow> length bs = 4 + length rest"
  by (auto simp: rd_le32_def split: if_splits)

lemma rd_byte_length: "rd_byte bs = Parsed b rest \<Longrightarrow> length bs = 1 + length rest"
  by (auto simp: rd_byte_def split: list.splits)

lemma skip_length: "skip n bs = Parsed u rest \<Longrightarrow> length bs = n + length rest"
  by (auto simp: skip_def split: if_splits)

lemma need_length: "need n bs = Parsed u rest \<Longrightarrow> length bs = length rest"
  by (auto simp: need_def split: if_splits)

lemmas reader_lengths =
  read_lp_string_length rd_le32_length rd_byte_length skip_length need_length

section \<open>Bounds safety of readers\<close>

named_theorems safe_intros \<open>composition rules for bounds safety\<close>

lemma safe_fromD: "safe_from 0 r \<Longrightarrow> r bs \<noteq> OutOfBounds"
  by (simp add: safe_from_def)

lemma safe_rret [safe_intros]: "safe_from n (rret a)"
  by (simp add: safe_from_def rret_def)

lemma safe_need [safe_intros]:
  "safe_from (max n m) (f ()) \<Longrightarrow> safe_from n (rbind (need m) f)"
  by (auto simp: safe_from_def rbind_def need_def)

lemma safe_rd_byte [safe_intros]:
  "1 \<le> n \<Longrightarrow> (\<And>b. safe_from (n - 1) (f b)) \<Longrightarrow> safe_from n (rbind rd_byte f)"
  by (fastforce simp: safe_from_def rbind_def rd_byte_def split: list.split)

lemma safe_rd_bool [safe_intros]:
  "1 \<le> n \<Longrightarrow> (\<And>b. safe_from (n - 1) (f b)) \<Longrightarrow> safe_from n (rbind rd_bool f)"
  by (fastforce simp: safe_from_def rbind_def rd_bool_def rd_byte_def rret_def split: list.split)

lemma safe_rd_le32 [safe_intros]:
  "4 \<le> n \<Longrightarrow> (\<And>v. safe_from (n - 4) (f v)) \<Longrightarrow> safe_from n (rbind rd_le32 f)"
  by (auto simp: safe_from_def rbind_def rd_le32_def)

lemma safe_rd_float [safe_intros]:
  "4 \<le> n \<Longrightarrow> (\<And>v. safe_from (n - 4) (f v)) \<Longrightarrow> safe_from n (rbind rd_float f)"
  by (auto simp: safe_from_def rbind_def rd_float_def)

lemma safe_read_lp_string [safe_intros]:
  "(\<And>s. safe_from 0 (f s)) \<Longrightarrow> safe_from n (rbind read_lp_string f)"
  by (auto simp: safe_from_def rbind_def read_lp_string_def Let_def)

lemma safe_read_lp_string_last [safe_intros]: "safe_from n read_lp_string"
  by (auto simp: safe_from_def read_lp_string_def Let_def)

lemma parse_many_safe: "safe_from 0 r \<Longrightarrow> safe_from n (parse_many r k)"
proof (induction k arbitrary: n)
  case 0
  show ?case by (simp add: safe_rret)
next
  case (Suc k)
  then show ?case
    by (auto simp: safe_from_def rbind_def rret_def split: parsed.split)
qed

lemma safe_parse_many [safe_intros]:
  "safe_from 0 r \<Longrightarrow> (\<And>xs. safe_from 0 (f xs)) \<Longrightarrow> safe_from n (rbind (parse_many r k) f)"
  using parse_many_safe [of r n k] by (auto simp: safe_from_def rbind_def split: parsed.split)

section \<open>The contract of a message type\<close>

text \<open>
  Every message struct of the protocol provides \<open>serialize\<close> and \<open>parse\<close>. \<open>message_codec\<close> is the
  contract a sender and a receiver rely on; \<open>safe_codec\<close> adds that parsing hostile bytes never
  leaves the buffer.
\<close>

locale message_codec =
  fixes serialize :: "'m \<Rightarrow> bytes"
    and parse :: "'m reader"
    and wf :: "'m \<Rightarrow> bool"
  assumes roundtrip: "wf m \<Longrightarrow> parse (serialize m @ rest) = Parsed m rest"
begin

lemma parse_serialize: "wf m \<Longrightarrow> parse (serialize m) = Parsed m []"
  using roundtrip [of m "[]"] by simp

lemma serialize_unique:
  assumes "wf m" "wf m'" "serialize m @ r = serialize m' @ r'"
  shows "m = m' \<and> r = r'"
proof -
  have "Parsed m r = parse (serialize m @ r)" by (rule roundtrip [OF assms(1), symmetric])
  also have "\<dots> = parse (serialize m' @ r')" by (simp only: assms(3))
  also have "\<dots> = Parsed m' r'" by (rule roundtrip [OF assms(2)])
  finally show ?thesis by simp
qed

lemma serialize_inj: "inj_on serialize {m. wf m}"
proof (rule inj_onI)
  fix m m' assume "m \<in> {m. wf m}" "m' \<in> {m. wf m}" "serialize m = serialize m'"
  then show "m = m'" using serialize_unique [of m m' "[]" "[]"] by blast
qed

lemma parse_many_serialize:
  "list_all wf ms \<Longrightarrow> parse_many parse (length ms) (concat (map serialize ms) @ rest) = Parsed ms rest"
  by (induction ms) (auto simp: rbind_apply rret_apply roundtrip)

end

locale safe_codec = message_codec +
  assumes in_bounds: "safe_from 0 parse"
begin

lemma parse_total: "(\<exists>m rest. parse bs = Parsed m rest) \<or> parse bs = Reject"
  using safe_fromD [OF in_bounds, of bs] by (cases "parse bs") auto

end

end
