(* ===== verification/Protocol_Base.thy ===== *)
theory Protocol_Base
  imports Wire
begin

text \<open>
  Echo and login messages (\<open>common/protocol/protocol_base.hpp\<close>, lines 54 to 172): one record per
  struct, its \<open>serialize\<close> as the bytes produced, its \<open>parse\<close> as a reader with the checks of the
  source in their order.
\<close>

section \<open>Message identifiers\<close>

datatype MessageID =
    ECHO_REQ | ECHO_RES
  | LOGIN_REQ | LOGIN_RES | LOGOUT_REQ | LOGOUT_RES
  | PLAYER_MOVE_REQ | PLAYER_MOVE_RES | PLAYER_INFO_REQ | PLAYER_INFO_RES
  | CHAT_REQ | CHAT_RES | CHAT_BROADCAST
  | ATTACK_REQ | ATTACK_RES | DAMAGE_NOTIFY
  | MAP_ENTER_REQ | MAP_ENTER_RES | MAP_LEAVE_REQ | MAP_LEAVE_RES | MAP_OBJECTS_UPDATE
  | GUILD_CREATE_REQ | GUILD_CREATE_RES | GUILD_JOIN_REQ | GUILD_JOIN_RES
  | GUILD_LEAVE_REQ | GUILD_LEAVE_RES | GUILD_INFO_REQ | GUILD_INFO_RES

fun message_id :: "MessageID \<Rightarrow> u16" where
  "message_id ECHO_REQ = 0x0001"
| "message_id ECHO_RES = 0x0002"
| "message_id LOGIN_REQ = 0x1001"
| "message_id LOGIN_RES = 0x1002"
| "message_id LOGOUT_REQ = 0x1003"
| "message_id LOGOUT_RES = 0x1004"
| "message_id PLAYER_MOVE_REQ = 0x2001"
| "message_id PLAYER_MOVE_RES = 0x2002"
| "message_id PLAYER_INFO_REQ = 0x2003"
| "message_id PLAYER_INFO_RES = 0x2004"
| "message_id CHAT_REQ = 0x3001"
| "message_id CHAT_RES = 0x3002"
| "message_id CHAT_BROADCAST = 0x3003"
| "message_id ATTACK_REQ = 0x4001"
| "message_id ATTACK_RES = 0x4002"
| "message_id DAMAGE_NOTIFY = 0x4003"
| "message_id MAP_ENTER_REQ = 0x5001"
| "message_id MAP_ENTER_RES = 0x5002"
| "message_id MAP_LEAVE_REQ = 0x5003"
| "message_id MAP_LEAVE_RES = 0x5004"
| "message_id MAP_OBJECTS_UPDATE = 0x5005"
| "message_id GUILD_CREATE_REQ = 0x6001"
| "message_id GUILD_CREATE_RES = 0x6002"
| "message_id GUILD_JOIN_REQ = 0x6003"
| "message_id GUILD_JOIN_RES = 0x6004"
| "message_id GUILD_LEAVE_REQ = 0x6005"
| "message_id GUILD_LEAVE_RES = 0x6006"
| "message_id GUILD_INFO_REQ = 0x6007"
| "message_id GUILD_INFO_RES = 0x6008"

section \<open>Messages\<close>

subsection \<open>\<open>echo_req\<close>\<close>

record echo_req =
  echo_req_text :: bytes

definition echo_req_serialize :: "echo_req \<Rightarrow> bytes" where
  "echo_req_serialize m =
     write_lp_string (echo_req_text m)"

definition echo_req_parse :: "echo_req reader" where
  "echo_req_parse =
    (rbind read_lp_string (\<lambda>text.
    rret \<lparr>echo_req_text = text\<rparr>))"

definition echo_req_wf :: "echo_req \<Rightarrow> bool" where
  "echo_req_wf m \<longleftrightarrow> lp_ok (echo_req_text m)"

subsection \<open>\<open>echo_res\<close>\<close>

record echo_res =
  echo_res_text :: bytes

definition echo_res_serialize :: "echo_res \<Rightarrow> bytes" where
  "echo_res_serialize m =
     write_lp_string (echo_res_text m)"

definition echo_res_parse :: "echo_res reader" where
  "echo_res_parse =
    (rbind read_lp_string (\<lambda>text.
    rret \<lparr>echo_res_text = text\<rparr>))"

definition echo_res_wf :: "echo_res \<Rightarrow> bool" where
  "echo_res_wf m \<longleftrightarrow> lp_ok (echo_res_text m)"

subsection \<open>\<open>login_req\<close>\<close>

record login_req =
  login_req_player_name :: bytes
  login_req_session_token :: bytes

definition login_req_serialize :: "login_req \<Rightarrow> bytes" where
  "login_req_serialize m =
     write_lp_string (login_req_player_name m)
     @ write_lp_string (login_req_session_token m)"

definition login_req_parse :: "login_req reader" where
  "login_req_parse =
    (rbind read_lp_string (\<lambda>player_name.
    (rbind read_lp_string (\<lambda>session_token.
    rret \<lparr>login_req_player_name = player_name,
       login_req_session_token = session_token\<rparr>))))"

definition login_req_wf :: "login_req \<Rightarrow> bool" where
  "login_req_wf m \<longleftrightarrow> lp_ok (login_req_player_name m) \<and> lp_ok (login_req_session_token m)"

subsection \<open>\<open>login_res\<close>\<close>

record login_res =
  login_res_success :: bool
  login_res_message :: bytes
  login_res_player_id :: u32
  login_res_map_id :: u32

definition login_res_serialize :: "login_res \<Rightarrow> bytes" where
  "login_res_serialize m =
     write_bool (login_res_success m)
     @ write_lp_string (login_res_message m)
     @ write_le32 (login_res_player_id m)
     @ write_le32 (login_res_map_id m)"

definition login_res_parse :: "login_res reader" where
  "login_res_parse =
    (rbind (need 1) (\<lambda>_.
    (rbind rd_bool (\<lambda>success.
    (rbind read_lp_string (\<lambda>message.
    (rbind (need 8) (\<lambda>_.
    (rbind rd_le32 (\<lambda>player_id.
    (rbind rd_le32 (\<lambda>map_id.
    rret \<lparr>login_res_success = success, login_res_message = message,
       login_res_player_id = player_id, login_res_map_id = map_id\<rparr>))))))))))))"

definition login_res_wf :: "login_res \<Rightarrow> bool" where
  "login_res_wf m \<longleftrightarrow> lp_ok (login_res_message m)"

section \<open>Codec contracts\<close>

interpretation echo_req_codec: safe_codec echo_req_serialize echo_req_parse echo_req_wf
  by unfold_locales
    (simp add: echo_req_parse_def echo_req_serialize_def echo_req_wf_def wire_simps,
     (unfold echo_req_parse_def, (rule safe_intros | simp)+))

interpretation echo_res_codec: safe_codec echo_res_serialize echo_res_parse echo_res_wf
  by unfold_locales
    (simp add: echo_res_parse_def echo_res_serialize_def echo_res_wf_def wire_simps,
     (unfold echo_res_parse_def, (rule safe_intros | simp)+))

interpretation login_req_codec: safe_codec login_req_serialize login_req_parse login_req_wf
  by unfold_locales
    (simp add: login_req_parse_def login_req_serialize_def login_req_wf_def wire_simps,
     (unfold login_req_parse_def, (rule safe_intros | simp)+))

interpretation login_res_codec: safe_codec login_res_serialize login_res_parse login_res_wf
  by unfold_locales
    (simp add: login_res_parse_def login_res_serialize_def login_res_wf_def wire_simps,
     (unfold login_res_parse_def, (rule safe_intros | simp)+))

section \<open>Identifiers are distinct\<close>

lemma message_id_inj: "message_id a = message_id b \<longleftrightarrow> a = b"
  by (cases a; cases b) simp_all

end
