(* ===== verification/Protocol_Player.thy ===== *)
theory Protocol_Player
  imports Wire
begin

text \<open>
  Player movement, information and status messages (\<open>common/protocol/protocol_player.hpp\<close>).
\<close>

section \<open>Messages\<close>

subsection \<open>\<open>player_move_req\<close>\<close>

record player_move_req =
  player_move_req_x :: f32
  player_move_req_y :: f32
  player_move_req_z :: f32
  player_move_req_rotation :: f32
  player_move_req_timestamp :: u32

definition player_move_req_serialize :: "player_move_req \<Rightarrow> bytes" where
  "player_move_req_serialize m =
     write_float_le (player_move_req_x m)
     @ write_float_le (player_move_req_y m)
     @ write_float_le (player_move_req_z m)
     @ write_float_le (player_move_req_rotation m)
     @ write_le32 (player_move_req_timestamp m)"

definition player_move_req_parse :: "player_move_req reader" where
  "player_move_req_parse =
    (rbind (need 20) (\<lambda>_.
    (rbind rd_float (\<lambda>x.
    (rbind rd_float (\<lambda>y.
    (rbind rd_float (\<lambda>z.
    (rbind rd_float (\<lambda>rotation.
    (rbind rd_le32 (\<lambda>timestamp.
    rret \<lparr>player_move_req_x = x, player_move_req_y = y, player_move_req_z = z,
       player_move_req_rotation = rotation,
       player_move_req_timestamp = timestamp\<rparr>))))))))))))"

definition player_move_req_wf :: "player_move_req \<Rightarrow> bool" where
  "player_move_req_wf m \<longleftrightarrow> True"

subsection \<open>\<open>player_move_res\<close>\<close>

record player_move_res =
  player_move_res_player_id :: u32
  player_move_res_x :: f32
  player_move_res_y :: f32
  player_move_res_z :: f32
  player_move_res_rotation :: f32
  player_move_res_timestamp :: u32

definition player_move_res_serialize :: "player_move_res \<Rightarrow> bytes" where
  "player_move_res_serialize m =
     write_le32 (player_move_res_player_id m)
     @ write_float_le (player_move_res_x m)
     @ write_float_le (player_move_res_y m)
     @ write_float_le (player_move_res_z m)
     @ write_float_le (player_move_res_rotation m)
     @ write_le32 (player_move_res_timestamp m)"

definition player_move_res_parse :: "player_move_res reader" where
  "player_move_res_parse =
    (rbind (need 24) (\<lambda>_.
    (rbind rd_le32 (\<lambda>player_id.
    (rbind rd_float (\<lambda>x.
    (rbind rd_float (\<lambda>y.
    (rbind rd_float (\<lambda>z.
    (rbind rd_float (\<lambda>rotation.
    (rbind rd_le32 (\<lambda>timestamp.
    rret \<lparr>player_move_res_player_id = player_id, player_move_res_x = x,
       player_move_res_y = y, player_move_res_z = z, player_move_res_rotation = rotation,
       player_move_res_timestamp = timestamp\<rparr>))))))))))))))"

definition player_move_res_wf :: "player_move_res \<Rightarrow> bool" where
  "player_move_res_wf m \<longleftrightarrow> True"

subsection \<open>\<open>player_info_req\<close>\<close>

record player_info_req =
  player_info_req_player_id :: u32

definition player_info_req_serialize :: "player_info_req \<Rightarrow> bytes" where
  "player_info_req_serialize m =
     write_le32 (player_info_req_player_id m)"

definition player_info_req_parse :: "player_info_req reader" where
  "player_info_req_parse =
    (rbind (need 4) (\<lambda>_.
    (rbind rd_le32 (\<lambda>player_id.
    rret \<lparr>player_info_req_player_id = player_id\<rparr>))))"

definition player_info_req_wf :: "player_info_req \<Rightarrow> bool" where
  "player_info_req_wf m \<longleftrightarrow> True"

subsection \<open>\<open>player_info_res\<close>\<close>

record player_info_res =
  player_info_res_player_id :: u32
  player_info_res_player_name :: bytes
  player_info_res_level :: u32
  player_info_res_experience :: u32
  player_info_res_x :: f32
  player_info_res_y :: f32
  player_info_res_z :: f32
  player_info_res_rotation :: f32
  player_info_res_map_id :: u32

definition player_info_res_serialize :: "player_info_res \<Rightarrow> bytes" where
  "player_info_res_serialize m =
     write_le32 (player_info_res_player_id m)
     @ write_lp_string (player_info_res_player_name m)
     @ write_le32 (player_info_res_level m)
     @ write_le32 (player_info_res_experience m)
     @ write_float_le (player_info_res_x m)
     @ write_float_le (player_info_res_y m)
     @ write_float_le (player_info_res_z m)
     @ write_float_le (player_info_res_rotation m)
     @ write_le32 (player_info_res_map_id m)"

definition player_info_res_parse :: "player_info_res reader" where
  "player_info_res_parse =
    (rbind (need 28) (\<lambda>_.
    (rbind rd_le32 (\<lambda>player_id.
    (rbind read_lp_string (\<lambda>player_name.
    (rbind rd_le32 (\<lambda>level.
    (rbind rd_le32 (\<lambda>experience.
    (rbind rd_float (\<lambda>x.
    (rbind rd_float (\<lambda>y.
    (rbind rd_float (\<lambda>z.
    (rbind rd_float (\<lambda>rotation.
    (rbind rd_le32 (\<lambda>map_id.
    rret \<lparr>player_info_res_player_id = player_id,
       player_info_res_player_name = player_name, player_info_res_level = level,
       player_info_res_experience = experience, player_info_res_x = x, player_info_res_y = y,
       player_info_res_z = z, player_info_res_rotation = rotation,
       player_info_res_map_id = map_id\<rparr>))))))))))))))))))))"

definition player_info_res_wf :: "player_info_res \<Rightarrow> bool" where
  "player_info_res_wf m \<longleftrightarrow> lp_ok (player_info_res_player_name m)"

subsection \<open>\<open>player_status_update\<close>\<close>

record player_status_update =
  player_status_update_player_id :: u32
  player_status_update_status :: u32
  player_status_update_timestamp :: u32

definition player_status_update_serialize :: "player_status_update \<Rightarrow> bytes" where
  "player_status_update_serialize m =
     write_le32 (player_status_update_player_id m)
     @ write_le32 (player_status_update_status m)
     @ write_le32 (player_status_update_timestamp m)"

definition player_status_update_parse :: "player_status_update reader" where
  "player_status_update_parse =
    (rbind (need 12) (\<lambda>_.
    (rbind rd_le32 (\<lambda>player_id.
    (rbind rd_le32 (\<lambda>status.
    (rbind rd_le32 (\<lambda>timestamp.
    rret \<lparr>player_status_update_player_id = player_id,
       player_status_update_status = status,
       player_status_update_timestamp = timestamp\<rparr>))))))))"

definition player_status_update_wf :: "player_status_update \<Rightarrow> bool" where
  "player_status_update_wf m \<longleftrightarrow> True"

section \<open>Codec contracts\<close>

interpretation player_move_req_codec: safe_codec player_move_req_serialize player_move_req_parse player_move_req_wf
  by unfold_locales
    (simp add: player_move_req_parse_def player_move_req_serialize_def player_move_req_wf_def wire_simps,
     (unfold player_move_req_parse_def, (rule safe_intros | simp)+))

interpretation player_move_res_codec: safe_codec player_move_res_serialize player_move_res_parse player_move_res_wf
  by unfold_locales
    (simp add: player_move_res_parse_def player_move_res_serialize_def player_move_res_wf_def wire_simps,
     (unfold player_move_res_parse_def, (rule safe_intros | simp)+))

interpretation player_info_req_codec: safe_codec player_info_req_serialize player_info_req_parse player_info_req_wf
  by unfold_locales
    (simp add: player_info_req_parse_def player_info_req_serialize_def player_info_req_wf_def wire_simps,
     (unfold player_info_req_parse_def, (rule safe_intros | simp)+))

interpretation player_info_res_codec: message_codec player_info_res_serialize player_info_res_parse player_info_res_wf
  by unfold_locales
    (simp add: player_info_res_parse_def player_info_res_serialize_def player_info_res_wf_def wire_simps)

interpretation player_status_update_codec: safe_codec player_status_update_serialize player_status_update_parse player_status_update_wf
  by unfold_locales
    (simp add: player_status_update_parse_def player_status_update_serialize_def player_status_update_wf_def wire_simps,
     (unfold player_status_update_parse_def, (rule safe_intros | simp)+))

end
