(* ===== verification/Protocol_Chat.thy ===== *)
theory Protocol_Chat
  imports Wire
begin

text \<open>
  Chat messages (\<open>common/protocol/protocol_chat.hpp\<close>).
\<close>

section \<open>Messages\<close>

subsection \<open>\<open>chat_req\<close>\<close>

record chat_req =
  chat_req_message :: bytes
  chat_req_channel :: u8
  chat_req_target_id :: u32

definition chat_req_serialize :: "chat_req \<Rightarrow> bytes" where
  "chat_req_serialize m =
     write_lp_string (chat_req_message m)
     @ write_u8 (chat_req_channel m)
     @ write_le32 (chat_req_target_id m)"

definition chat_req_parse :: "chat_req reader" where
  "chat_req_parse =
    (rbind read_lp_string (\<lambda>message.
    (rbind (need 1) (\<lambda>_.
    (rbind rd_byte (\<lambda>channel.
    (rbind (need 4) (\<lambda>_.
    (rbind rd_le32 (\<lambda>target_id.
    rret \<lparr>chat_req_message = message, chat_req_channel = channel,
       chat_req_target_id = target_id\<rparr>))))))))))"

definition chat_req_wf :: "chat_req \<Rightarrow> bool" where
  "chat_req_wf m \<longleftrightarrow> lp_ok (chat_req_message m)"

subsection \<open>\<open>chat_res\<close>\<close>

record chat_res =
  chat_res_success :: bool
  chat_res_message :: bytes

definition chat_res_serialize :: "chat_res \<Rightarrow> bytes" where
  "chat_res_serialize m =
     write_bool (chat_res_success m)
     @ write_lp_string (chat_res_message m)"

definition chat_res_parse :: "chat_res reader" where
  "chat_res_parse =
    (rbind (need 1) (\<lambda>_.
    (rbind rd_bool (\<lambda>success.
    (rbind read_lp_string (\<lambda>message.
    rret \<lparr>chat_res_success = success, chat_res_message = message\<rparr>))))))"

definition chat_res_wf :: "chat_res \<Rightarrow> bool" where
  "chat_res_wf m \<longleftrightarrow> lp_ok (chat_res_message m)"

subsection \<open>\<open>chat_broadcast\<close>\<close>

record chat_broadcast =
  chat_broadcast_sender_id :: u32
  chat_broadcast_sender_name :: bytes
  chat_broadcast_message :: bytes
  chat_broadcast_channel :: u8
  chat_broadcast_timestamp :: u32

definition chat_broadcast_serialize :: "chat_broadcast \<Rightarrow> bytes" where
  "chat_broadcast_serialize m =
     write_le32 (chat_broadcast_sender_id m)
     @ write_lp_string (chat_broadcast_sender_name m)
     @ write_lp_string (chat_broadcast_message m)
     @ write_u8 (chat_broadcast_channel m)
     @ write_le32 (chat_broadcast_timestamp m)"

definition chat_broadcast_parse :: "chat_broadcast reader" where
  "chat_broadcast_parse =
    (rbind (need 4) (\<lambda>_.
    (rbind rd_le32 (\<lambda>sender_id.
    (rbind read_lp_string (\<lambda>sender_name.
    (rbind read_lp_string (\<lambda>message.
    (rbind (need 1) (\<lambda>_.
    (rbind rd_byte (\<lambda>channel.
    (rbind (need 4) (\<lambda>_.
    (rbind rd_le32 (\<lambda>timestamp.
    rret \<lparr>chat_broadcast_sender_id = sender_id,
       chat_broadcast_sender_name = sender_name, chat_broadcast_message = message,
       chat_broadcast_channel = channel,
       chat_broadcast_timestamp = timestamp\<rparr>))))))))))))))))"

definition chat_broadcast_wf :: "chat_broadcast \<Rightarrow> bool" where
  "chat_broadcast_wf m \<longleftrightarrow> lp_ok (chat_broadcast_sender_name m) \<and> lp_ok (chat_broadcast_message m)"

subsection \<open>\<open>chat_system_message\<close>\<close>

record chat_system_message =
  chat_system_message_message_type :: u32
  chat_system_message_title :: bytes
  chat_system_message_content :: bytes
  chat_system_message_priority :: u32
  chat_system_message_timestamp :: u32

definition chat_system_message_serialize :: "chat_system_message \<Rightarrow> bytes" where
  "chat_system_message_serialize m =
     write_le32 (chat_system_message_message_type m)
     @ write_lp_string (chat_system_message_title m)
     @ write_lp_string (chat_system_message_content m)
     @ write_le32 (chat_system_message_priority m)
     @ write_le32 (chat_system_message_timestamp m)"

definition chat_system_message_parse :: "chat_system_message reader" where
  "chat_system_message_parse =
    (rbind (need 12) (\<lambda>_.
    (rbind rd_le32 (\<lambda>message_type.
    (rbind read_lp_string (\<lambda>title.
    (rbind read_lp_string (\<lambda>content.
    (rbind rd_le32 (\<lambda>priority.
    (rbind rd_le32 (\<lambda>timestamp.
    rret \<lparr>chat_system_message_message_type = message_type,
       chat_system_message_title = title, chat_system_message_content = content,
       chat_system_message_priority = priority,
       chat_system_message_timestamp = timestamp\<rparr>))))))))))))"

definition chat_system_message_wf :: "chat_system_message \<Rightarrow> bool" where
  "chat_system_message_wf m \<longleftrightarrow> lp_ok (chat_system_message_title m) \<and> lp_ok (chat_system_message_content m)"

subsection \<open>\<open>chat_filter_req\<close>\<close>

record chat_filter_req =
  chat_filter_req_filter_type :: u8
  chat_filter_req_target_message :: bytes
  chat_filter_req_reporter_id :: u32

definition chat_filter_req_serialize :: "chat_filter_req \<Rightarrow> bytes" where
  "chat_filter_req_serialize m =
     write_u8 (chat_filter_req_filter_type m)
     @ write_lp_string (chat_filter_req_target_message m)
     @ write_le32 (chat_filter_req_reporter_id m)"

definition chat_filter_req_parse :: "chat_filter_req reader" where
  "chat_filter_req_parse =
    (rbind (need 1) (\<lambda>_.
    (rbind rd_byte (\<lambda>filter_type.
    (rbind read_lp_string (\<lambda>target_message.
    (rbind (need 4) (\<lambda>_.
    (rbind rd_le32 (\<lambda>reporter_id.
    rret \<lparr>chat_filter_req_filter_type = filter_type,
       chat_filter_req_target_message = target_message,
       chat_filter_req_reporter_id = reporter_id\<rparr>))))))))))"

definition chat_filter_req_wf :: "chat_filter_req \<Rightarrow> bool" where
  "chat_filter_req_wf m \<longleftrightarrow> lp_ok (chat_filter_req_target_message m)"

subsection \<open>\<open>chat_filter_res\<close>\<close>

record chat_filter_res =
  chat_filter_res_success :: bool
  chat_filter_res_message :: bytes
  chat_filter_res_case_id :: u32

definition chat_filter_res_serialize :: "chat_filter_res \<Rightarrow> bytes" where
  "chat_filter_res_serialize m =
     write_bool (chat_filter_res_success m)
     @ write_lp_string (chat_filter_res_message m)
     @ write_le32 (chat_filter_res_case_id m)"

definition chat_filter_res_parse :: "chat_filter_res reader" where
  "chat_filter_res_parse =
    (rbind (need 1) (\<lambda>_.
    (rbind rd_bool (\<lambda>success.
    (rbind read_lp_string (\<lambda>message.
    (rbind (need 4) (\<lambda>_.
    (rbind rd_le32 (\<lambda>case_id.
    rret \<lparr>chat_filter_res_success = success, chat_filter_res_message = message,
       chat_filter_res_case_id = case_id\<rparr>))))))))))"

definition chat_filter_res_wf :: "chat_filter_res \<Rightarrow> bool" where
  "chat_filter_res_wf m \<longleftrightarrow> lp_ok (chat_filter_res_message m)"

section \<open>Codec contracts\<close>

interpretation chat_req_codec: safe_codec chat_req_serialize chat_req_parse chat_req_wf
  by unfold_locales
    (simp add: chat_req_parse_def chat_req_serialize_def chat_req_wf_def wire_simps,
     (unfold chat_req_parse_def, (rule safe_intros | simp)+))

interpretation chat_res_codec: safe_codec chat_res_serialize chat_res_parse chat_res_wf
  by unfold_locales
    (simp add: chat_res_parse_def chat_res_serialize_def chat_res_wf_def wire_simps,
     (unfold chat_res_parse_def, (rule safe_intros | simp)+))

interpretation chat_broadcast_codec: safe_codec chat_broadcast_serialize chat_broadcast_parse chat_broadcast_wf
  by unfold_locales
    (simp add: chat_broadcast_parse_def chat_broadcast_serialize_def chat_broadcast_wf_def wire_simps,
     (unfold chat_broadcast_parse_def, (rule safe_intros | simp)+))

interpretation chat_system_message_codec: message_codec chat_system_message_serialize chat_system_message_parse chat_system_message_wf
  by unfold_locales
    (simp add: chat_system_message_parse_def chat_system_message_serialize_def chat_system_message_wf_def wire_simps)

interpretation chat_filter_req_codec: safe_codec chat_filter_req_serialize chat_filter_req_parse chat_filter_req_wf
  by unfold_locales
    (simp add: chat_filter_req_parse_def chat_filter_req_serialize_def chat_filter_req_wf_def wire_simps,
     (unfold chat_filter_req_parse_def, (rule safe_intros | simp)+))

interpretation chat_filter_res_codec: safe_codec chat_filter_res_serialize chat_filter_res_parse chat_filter_res_wf
  by unfold_locales
    (simp add: chat_filter_res_parse_def chat_filter_res_serialize_def chat_filter_res_wf_def wire_simps,
     (unfold chat_filter_res_parse_def, (rule safe_intros | simp)+))

end
