(* ===== verification/Protocol_Guild.thy ===== *)
theory Protocol_Guild
  imports Wire
begin

text \<open>
  Guild messages (\<open>common/protocol/protocol_guild.hpp\<close>). \<open>guild_info_res\<close> and
  \<open>guild_member_info\<close> advance the read pointer twice after a one-byte field
  (\<open>*p++; p += 1;\<close>), which the model keeps as \<open>skip 1\<close>.
\<close>

section \<open>Messages\<close>

subsection \<open>\<open>guild_create_req\<close>\<close>

record guild_create_req =
  guild_create_req_guild_name :: bytes
  guild_create_req_guild_description :: bytes
  guild_create_req_max_members :: u32
  guild_create_req_guild_type :: u8

definition guild_create_req_serialize :: "guild_create_req \<Rightarrow> bytes" where
  "guild_create_req_serialize m =
     write_lp_string (guild_create_req_guild_name m)
     @ write_lp_string (guild_create_req_guild_description m)
     @ write_le32 (guild_create_req_max_members m)
     @ write_u8 (guild_create_req_guild_type m)"

definition guild_create_req_parse :: "guild_create_req reader" where
  "guild_create_req_parse =
    (rbind read_lp_string (\<lambda>guild_name.
    (rbind read_lp_string (\<lambda>guild_description.
    (rbind (need 4) (\<lambda>_.
    (rbind rd_le32 (\<lambda>max_members.
    (rbind (need 1) (\<lambda>_.
    (rbind rd_byte (\<lambda>guild_type.
    rret \<lparr>guild_create_req_guild_name = guild_name,
       guild_create_req_guild_description = guild_description,
       guild_create_req_max_members = max_members,
       guild_create_req_guild_type = guild_type\<rparr>))))))))))))"

definition guild_create_req_wf :: "guild_create_req \<Rightarrow> bool" where
  "guild_create_req_wf m \<longleftrightarrow> lp_ok (guild_create_req_guild_name m) \<and> lp_ok (guild_create_req_guild_description m)"

subsection \<open>\<open>guild_create_res\<close>\<close>

record guild_create_res =
  guild_create_res_success :: bool
  guild_create_res_message :: bytes
  guild_create_res_guild_id :: u32

definition guild_create_res_serialize :: "guild_create_res \<Rightarrow> bytes" where
  "guild_create_res_serialize m =
     write_bool (guild_create_res_success m)
     @ write_lp_string (guild_create_res_message m)
     @ write_le32 (guild_create_res_guild_id m)"

definition guild_create_res_parse :: "guild_create_res reader" where
  "guild_create_res_parse =
    (rbind (need 1) (\<lambda>_.
    (rbind rd_bool (\<lambda>success.
    (rbind read_lp_string (\<lambda>message.
    (rbind (need 4) (\<lambda>_.
    (rbind rd_le32 (\<lambda>guild_id.
    rret \<lparr>guild_create_res_success = success, guild_create_res_message = message,
       guild_create_res_guild_id = guild_id\<rparr>))))))))))"

definition guild_create_res_wf :: "guild_create_res \<Rightarrow> bool" where
  "guild_create_res_wf m \<longleftrightarrow> lp_ok (guild_create_res_message m)"

subsection \<open>\<open>guild_join_req\<close>\<close>

record guild_join_req =
  guild_join_req_guild_id :: u32
  guild_join_req_application_message :: bytes

definition guild_join_req_serialize :: "guild_join_req \<Rightarrow> bytes" where
  "guild_join_req_serialize m =
     write_le32 (guild_join_req_guild_id m)
     @ write_lp_string (guild_join_req_application_message m)"

definition guild_join_req_parse :: "guild_join_req reader" where
  "guild_join_req_parse =
    (rbind (need 4) (\<lambda>_.
    (rbind rd_le32 (\<lambda>guild_id.
    (rbind read_lp_string (\<lambda>application_message.
    rret \<lparr>guild_join_req_guild_id = guild_id,
       guild_join_req_application_message = application_message\<rparr>))))))"

definition guild_join_req_wf :: "guild_join_req \<Rightarrow> bool" where
  "guild_join_req_wf m \<longleftrightarrow> lp_ok (guild_join_req_application_message m)"

subsection \<open>\<open>guild_join_res\<close>\<close>

record guild_join_res =
  guild_join_res_success :: bool
  guild_join_res_message :: bytes
  guild_join_res_application_id :: u32

definition guild_join_res_serialize :: "guild_join_res \<Rightarrow> bytes" where
  "guild_join_res_serialize m =
     write_bool (guild_join_res_success m)
     @ write_lp_string (guild_join_res_message m)
     @ write_le32 (guild_join_res_application_id m)"

definition guild_join_res_parse :: "guild_join_res reader" where
  "guild_join_res_parse =
    (rbind (need 1) (\<lambda>_.
    (rbind rd_bool (\<lambda>success.
    (rbind read_lp_string (\<lambda>message.
    (rbind (need 4) (\<lambda>_.
    (rbind rd_le32 (\<lambda>application_id.
    rret \<lparr>guild_join_res_success = success, guild_join_res_message = message,
       guild_join_res_application_id = application_id\<rparr>))))))))))"

definition guild_join_res_wf :: "guild_join_res \<Rightarrow> bool" where
  "guild_join_res_wf m \<longleftrightarrow> lp_ok (guild_join_res_message m)"

subsection \<open>\<open>guild_leave_req\<close>\<close>

record guild_leave_req =
  guild_leave_req_guild_id :: u32
  guild_leave_req_reason :: bytes

definition guild_leave_req_serialize :: "guild_leave_req \<Rightarrow> bytes" where
  "guild_leave_req_serialize m =
     write_le32 (guild_leave_req_guild_id m)
     @ write_lp_string (guild_leave_req_reason m)"

definition guild_leave_req_parse :: "guild_leave_req reader" where
  "guild_leave_req_parse =
    (rbind (need 4) (\<lambda>_.
    (rbind rd_le32 (\<lambda>guild_id.
    (rbind read_lp_string (\<lambda>reason.
    rret \<lparr>guild_leave_req_guild_id = guild_id, guild_leave_req_reason = reason\<rparr>))))))"

definition guild_leave_req_wf :: "guild_leave_req \<Rightarrow> bool" where
  "guild_leave_req_wf m \<longleftrightarrow> lp_ok (guild_leave_req_reason m)"

subsection \<open>\<open>guild_leave_res\<close>\<close>

record guild_leave_res =
  guild_leave_res_success :: bool
  guild_leave_res_message :: bytes

definition guild_leave_res_serialize :: "guild_leave_res \<Rightarrow> bytes" where
  "guild_leave_res_serialize m =
     write_bool (guild_leave_res_success m)
     @ write_lp_string (guild_leave_res_message m)"

definition guild_leave_res_parse :: "guild_leave_res reader" where
  "guild_leave_res_parse =
    (rbind (need 1) (\<lambda>_.
    (rbind rd_bool (\<lambda>success.
    (rbind read_lp_string (\<lambda>message.
    rret \<lparr>guild_leave_res_success = success, guild_leave_res_message = message\<rparr>))))))"

definition guild_leave_res_wf :: "guild_leave_res \<Rightarrow> bool" where
  "guild_leave_res_wf m \<longleftrightarrow> lp_ok (guild_leave_res_message m)"

subsection \<open>\<open>guild_info_req\<close>\<close>

record guild_info_req =
  guild_info_req_guild_id :: u32

definition guild_info_req_serialize :: "guild_info_req \<Rightarrow> bytes" where
  "guild_info_req_serialize m =
     write_le32 (guild_info_req_guild_id m)"

definition guild_info_req_parse :: "guild_info_req reader" where
  "guild_info_req_parse =
    (rbind (need 4) (\<lambda>_.
    (rbind rd_le32 (\<lambda>guild_id.
    rret \<lparr>guild_info_req_guild_id = guild_id\<rparr>))))"

definition guild_info_req_wf :: "guild_info_req \<Rightarrow> bool" where
  "guild_info_req_wf m \<longleftrightarrow> True"

subsection \<open>\<open>guild_info_res\<close>\<close>

record guild_info_res =
  guild_info_res_guild_id :: u32
  guild_info_res_guild_name :: bytes
  guild_info_res_guild_description :: bytes
  guild_info_res_member_count :: u32
  guild_info_res_max_members :: u32
  guild_info_res_guild_type :: u8
  guild_info_res_guild_level :: u32
  guild_info_res_guild_exp :: u32
  guild_info_res_leader_id :: u32
  guild_info_res_leader_name :: bytes

definition guild_info_res_serialize :: "guild_info_res \<Rightarrow> bytes" where
  "guild_info_res_serialize m =
     write_le32 (guild_info_res_guild_id m)
     @ write_lp_string (guild_info_res_guild_name m)
     @ write_lp_string (guild_info_res_guild_description m)
     @ write_le32 (guild_info_res_member_count m)
     @ write_le32 (guild_info_res_max_members m)
     @ write_u8 (guild_info_res_guild_type m)
     @ write_le32 (guild_info_res_guild_level m)
     @ write_le32 (guild_info_res_guild_exp m)
     @ write_le32 (guild_info_res_leader_id m)
     @ write_lp_string (guild_info_res_leader_name m)"

definition guild_info_res_parse :: "guild_info_res reader" where
  "guild_info_res_parse =
    (rbind (need 24) (\<lambda>_.
    (rbind rd_le32 (\<lambda>guild_id.
    (rbind read_lp_string (\<lambda>guild_name.
    (rbind read_lp_string (\<lambda>guild_description.
    (rbind rd_le32 (\<lambda>member_count.
    (rbind rd_le32 (\<lambda>max_members.
    (rbind rd_byte (\<lambda>guild_type.
    (rbind (skip 1) (\<lambda>_.
    (rbind rd_le32 (\<lambda>guild_level.
    (rbind rd_le32 (\<lambda>guild_exp.
    (rbind rd_le32 (\<lambda>leader_id.
    (rbind read_lp_string (\<lambda>leader_name.
    rret \<lparr>guild_info_res_guild_id = guild_id, guild_info_res_guild_name = guild_name,
       guild_info_res_guild_description = guild_description,
       guild_info_res_member_count = member_count, guild_info_res_max_members = max_members,
       guild_info_res_guild_type = guild_type, guild_info_res_guild_level = guild_level,
       guild_info_res_guild_exp = guild_exp, guild_info_res_leader_id = leader_id,
       guild_info_res_leader_name = leader_name\<rparr>))))))))))))))))))))))))"

definition guild_info_res_wf :: "guild_info_res \<Rightarrow> bool" where
  "guild_info_res_wf m \<longleftrightarrow> lp_ok (guild_info_res_guild_name m) \<and> lp_ok (guild_info_res_guild_description m) \<and> lp_ok (guild_info_res_leader_name m)"

subsection \<open>\<open>guild_member_list_req\<close>\<close>

record guild_member_list_req =
  guild_member_list_req_guild_id :: u32
  guild_member_list_req_page :: u32
  guild_member_list_req_page_size :: u32

definition guild_member_list_req_serialize :: "guild_member_list_req \<Rightarrow> bytes" where
  "guild_member_list_req_serialize m =
     write_le32 (guild_member_list_req_guild_id m)
     @ write_le32 (guild_member_list_req_page m)
     @ write_le32 (guild_member_list_req_page_size m)"

definition guild_member_list_req_parse :: "guild_member_list_req reader" where
  "guild_member_list_req_parse =
    (rbind (need 12) (\<lambda>_.
    (rbind rd_le32 (\<lambda>guild_id.
    (rbind rd_le32 (\<lambda>page.
    (rbind rd_le32 (\<lambda>page_size.
    rret \<lparr>guild_member_list_req_guild_id = guild_id, guild_member_list_req_page = page,
       guild_member_list_req_page_size = page_size\<rparr>))))))))"

definition guild_member_list_req_wf :: "guild_member_list_req \<Rightarrow> bool" where
  "guild_member_list_req_wf m \<longleftrightarrow> True"

subsection \<open>\<open>guild_member_info\<close>\<close>

record guild_member_info =
  guild_member_info_player_id :: u32
  guild_member_info_player_name :: bytes
  guild_member_info_level :: u32
  guild_member_info_rank :: u8
  guild_member_info_join_date :: u32
  guild_member_info_last_online :: u32

definition guild_member_info_serialize :: "guild_member_info \<Rightarrow> bytes" where
  "guild_member_info_serialize m =
     write_le32 (guild_member_info_player_id m)
     @ write_lp_string (guild_member_info_player_name m)
     @ write_le32 (guild_member_info_level m)
     @ write_u8 (guild_member_info_rank m)
     @ write_le32 (guild_member_info_join_date m)
     @ write_le32 (guild_member_info_last_online m)"

definition guild_member_info_parse :: "guild_member_info reader" where
  "guild_member_info_parse =
    (rbind (need 16) (\<lambda>_.
    (rbind rd_le32 (\<lambda>player_id.
    (rbind read_lp_string (\<lambda>player_name.
    (rbind rd_le32 (\<lambda>level.
    (rbind rd_byte (\<lambda>rank.
    (rbind (skip 1) (\<lambda>_.
    (rbind rd_le32 (\<lambda>join_date.
    (rbind rd_le32 (\<lambda>last_online.
    rret \<lparr>guild_member_info_player_id = player_id,
       guild_member_info_player_name = player_name, guild_member_info_level = level,
       guild_member_info_rank = rank, guild_member_info_join_date = join_date,
       guild_member_info_last_online = last_online\<rparr>))))))))))))))))"

definition guild_member_info_wf :: "guild_member_info \<Rightarrow> bool" where
  "guild_member_info_wf m \<longleftrightarrow> lp_ok (guild_member_info_player_name m)"

subsection \<open>\<open>guild_member_list_res\<close>\<close>

record guild_member_list_res =
  guild_member_list_res_guild_id :: u32
  guild_member_list_res_total_members :: u32
  guild_member_list_res_page :: u32
  guild_member_list_res_page_size :: u32
  guild_member_list_res_members :: "guild_member_info list"

definition guild_member_list_res_serialize :: "guild_member_list_res \<Rightarrow> bytes" where
  "guild_member_list_res_serialize m =
     write_le32 (guild_member_list_res_guild_id m)
     @ write_le32 (guild_member_list_res_total_members m)
     @ write_le32 (guild_member_list_res_page m)
     @ write_le32 (guild_member_list_res_page_size m)
     @ write_le32 (of_nat (length (guild_member_list_res_members m)))
     @ concat (map guild_member_info_serialize (guild_member_list_res_members m))"

definition guild_member_list_res_parse :: "guild_member_list_res reader" where
  "guild_member_list_res_parse =
    (rbind (need 16) (\<lambda>_.
    (rbind rd_le32 (\<lambda>guild_id.
    (rbind rd_le32 (\<lambda>total_members.
    (rbind rd_le32 (\<lambda>page.
    (rbind rd_le32 (\<lambda>page_size.
    (rbind rd_le32 (\<lambda>count.
    (rbind (parse_many guild_member_info_parse (unat count)) (\<lambda>members.
    rret \<lparr>guild_member_list_res_guild_id = guild_id,
       guild_member_list_res_total_members = total_members, guild_member_list_res_page = page,
       guild_member_list_res_page_size = page_size,
       guild_member_list_res_members = members\<rparr>))))))))))))))"

definition guild_member_list_res_wf :: "guild_member_list_res \<Rightarrow> bool" where
  "guild_member_list_res_wf m \<longleftrightarrow> length (guild_member_list_res_members m) < 2 ^ 32 \<and> list_all guild_member_info_wf (guild_member_list_res_members m)"

section \<open>Codec contracts\<close>

interpretation guild_create_req_codec: safe_codec guild_create_req_serialize guild_create_req_parse guild_create_req_wf
  by unfold_locales
    (simp add: guild_create_req_parse_def guild_create_req_serialize_def guild_create_req_wf_def wire_simps,
     (unfold guild_create_req_parse_def, (rule safe_intros | simp)+))

interpretation guild_create_res_codec: safe_codec guild_create_res_serialize guild_create_res_parse guild_create_res_wf
  by unfold_locales
    (simp add: guild_create_res_parse_def guild_create_res_serialize_def guild_create_res_wf_def wire_simps,
     (unfold guild_create_res_parse_def, (rule safe_intros | simp)+))

interpretation guild_join_req_codec: safe_codec guild_join_req_serialize guild_join_req_parse guild_join_req_wf
  by unfold_locales
    (simp add: guild_join_req_parse_def guild_join_req_serialize_def guild_join_req_wf_def wire_simps,
     (unfold guild_join_req_parse_def, (rule safe_intros | simp)+))

interpretation guild_join_res_codec: safe_codec guild_join_res_serialize guild_join_res_parse guild_join_res_wf
  by unfold_locales
    (simp add: guild_join_res_parse_def guild_join_res_serialize_def guild_join_res_wf_def wire_simps,
     (unfold guild_join_res_parse_def, (rule safe_intros | simp)+))

interpretation guild_leave_req_codec: safe_codec guild_leave_req_serialize guild_leave_req_parse guild_leave_req_wf
  by unfold_locales
    (simp add: guild_leave_req_parse_def guild_leave_req_serialize_def guild_leave_req_wf_def wire_simps,
     (unfold guild_leave_req_parse_def, (rule safe_intros | simp)+))

interpretation guild_leave_res_codec: safe_codec guild_leave_res_serialize guild_leave_res_parse guild_leave_res_wf
  by unfold_locales
    (simp add: guild_leave_res_parse_def guild_leave_res_serialize_def guild_leave_res_wf_def wire_simps,
     (unfold guild_leave_res_parse_def, (rule safe_intros | simp)+))

interpretation guild_info_req_codec: safe_codec guild_info_req_serialize guild_info_req_parse guild_info_req_wf
  by unfold_locales
    (simp add: guild_info_req_parse_def guild_info_req_serialize_def guild_info_req_wf_def wire_simps,
     (unfold guild_info_req_parse_def, (rule safe_intros | simp)+))

interpretation guild_member_list_req_codec: safe_codec guild_member_list_req_serialize guild_member_list_req_parse guild_member_list_req_wf
  by unfold_locales
    (simp add: guild_member_list_req_parse_def guild_member_list_req_serialize_def guild_member_list_req_wf_def wire_simps,
     (unfold guild_member_list_req_parse_def, (rule safe_intros | simp)+))

section \<open>The doubled pointer advance\<close>

text \<open>
  After the one-byte field both parsers move \<open>p\<close> twice, so everything behind it is read one
  byte too late and the last byte is missing.
\<close>

lemma guild_info_res_parse_length:
  "guild_info_res_parse bs = Parsed m rest \<Longrightarrow>
   length bs = length (guild_info_res_serialize m) + 1 + length rest"
  by (auto simp: guild_info_res_parse_def guild_info_res_serialize_def rbind_apply rret_apply
      split: parsed.splits dest!: reader_lengths)

lemma guild_member_info_parse_length:
  "guild_member_info_parse bs = Parsed m rest \<Longrightarrow>
   length bs = length (guild_member_info_serialize m) + 1 + length rest"
  by (auto simp: guild_member_info_parse_def guild_member_info_serialize_def rbind_apply rret_apply
      split: parsed.splits dest!: reader_lengths)

lemma parse_members_length:
  "parse_many guild_member_info_parse n bs = Parsed ms rest \<Longrightarrow>
   length bs = length (concat (map guild_member_info_serialize ms)) + length ms + length rest"
  by (induction n arbitrary: bs ms)
    (auto simp: rbind_apply rret_apply split: parsed.splits dest: guild_member_info_parse_length)

lemma guild_member_list_res_parse_length:
  "guild_member_list_res_parse bs = Parsed m rest \<Longrightarrow>
   length bs = length (guild_member_list_res_serialize m)
     + length (guild_member_list_res_members m) + length rest"
  by (auto simp: guild_member_list_res_parse_def guild_member_list_res_serialize_def rbind_apply
      rret_apply split: parsed.splits dest!: parse_members_length reader_lengths)

text \<open>
  A guild information response that the server serialises is never parsed back: whatever
  \<open>guild_info_res::parse\<close> returns on the serialised bytes, it is not the message that was sent.
\<close>

lemma guild_info_res_never_roundtrips:
  "guild_info_res_parse (guild_info_res_serialize m) \<noteq> Parsed m rest"
  by (auto dest: guild_info_res_parse_length)

text \<open>
  Parsing a serialised guild member reads beyond the end of the buffer, for every member whose
  name is shorter than \<open>2 ^ 32\<close> bytes, and a serialised member list with at least one member is
  never parsed back.
\<close>

lemma guild_members_never_roundtrip:
  assumes "guild_member_info_wf x" and "guild_member_list_res_members m \<noteq> []"
  shows "guild_member_info_parse (guild_member_info_serialize x) = OutOfBounds \<and>
    guild_member_list_res_parse (guild_member_list_res_serialize m) \<noteq> Parsed m rest"
proof
  show "guild_member_info_parse (guild_member_info_serialize x) = OutOfBounds"
    using assms(1)
    by (simp add: guild_member_info_parse_def guild_member_info_serialize_def
        guild_member_info_wf_def wire_simps skip_def rd_le32_def)
  show "guild_member_list_res_parse (guild_member_list_res_serialize m) \<noteq> Parsed m rest"
    using assms(2) by (auto dest: guild_member_list_res_parse_length)
qed

lemma guild_members_never_roundtrip_witness:
  "\<exists>x m. guild_member_info_wf x \<and> guild_member_list_res_members m \<noteq> [] \<and>
     guild_member_info_parse (guild_member_info_serialize x) = OutOfBounds \<and>
     guild_member_list_res_parse (guild_member_list_res_serialize m) \<noteq> Parsed m []"
proof -
  let ?x = "\<lparr>guild_member_info_player_id = 7, guild_member_info_player_name = str ''bo'',
    guild_member_info_level = 3, guild_member_info_rank = 1, guild_member_info_join_date = 9,
    guild_member_info_last_online = 10\<rparr>"
  let ?m = "\<lparr>guild_member_list_res_guild_id = 1, guild_member_list_res_total_members = 1,
    guild_member_list_res_page = 0, guild_member_list_res_page_size = 10,
    guild_member_list_res_members = [?x]\<rparr>"
  have "guild_member_info_wf ?x" "guild_member_list_res_members ?m \<noteq> []"
    by (simp_all add: guild_member_info_wf_def lp_ok_def)
  then show ?thesis using guild_members_never_roundtrip [of ?x ?m "[]"] by blast
qed

end
