(* ===== verification/Protocol_Map.thy ===== *)
theory Protocol_Map
  imports Wire
begin

text \<open>
  Map messages (\<open>common/protocol/protocol_map.hpp\<close>).
\<close>

section \<open>Messages\<close>

subsection \<open>\<open>map_enter_req\<close>\<close>

record map_enter_req =
  map_enter_req_map_id :: u32
  map_enter_req_x :: f32
  map_enter_req_y :: f32
  map_enter_req_z :: f32
  map_enter_req_timestamp :: u32

definition map_enter_req_serialize :: "map_enter_req \<Rightarrow> bytes" where
  "map_enter_req_serialize m =
     write_le32 (map_enter_req_map_id m)
     @ write_float_le (map_enter_req_x m)
     @ write_float_le (map_enter_req_y m)
     @ write_float_le (map_enter_req_z m)
     @ write_le32 (map_enter_req_timestamp m)"

definition map_enter_req_parse :: "map_enter_req reader" where
  "map_enter_req_parse =
    (rbind (need 20) (\<lambda>_.
    (rbind rd_le32 (\<lambda>map_id.
    (rbind rd_float (\<lambda>x.
    (rbind rd_float (\<lambda>y.
    (rbind rd_float (\<lambda>z.
    (rbind rd_le32 (\<lambda>timestamp.
    rret \<lparr>map_enter_req_map_id = map_id, map_enter_req_x = x, map_enter_req_y = y,
       map_enter_req_z = z, map_enter_req_timestamp = timestamp\<rparr>))))))))))))"

definition map_enter_req_wf :: "map_enter_req \<Rightarrow> bool" where
  "map_enter_req_wf m \<longleftrightarrow> True"

subsection \<open>\<open>map_enter_res\<close>\<close>

record map_enter_res =
  map_enter_res_success :: bool
  map_enter_res_message :: bytes
  map_enter_res_map_id :: u32
  map_enter_res_map_name :: bytes
  map_enter_res_x :: f32
  map_enter_res_y :: f32
  map_enter_res_z :: f32
  map_enter_res_player_count :: u32

definition map_enter_res_serialize :: "map_enter_res \<Rightarrow> bytes" where
  "map_enter_res_serialize m =
     write_bool (map_enter_res_success m)
     @ write_lp_string (map_enter_res_message m)
     @ write_le32 (map_enter_res_map_id m)
     @ write_lp_string (map_enter_res_map_name m)
     @ write_float_le (map_enter_res_x m)
     @ write_float_le (map_enter_res_y m)
     @ write_float_le (map_enter_res_z m)
     @ write_le32 (map_enter_res_player_count m)"

definition map_enter_res_parse :: "map_enter_res reader" where
  "map_enter_res_parse =
    (rbind (need 20) (\<lambda>_.
    (rbind rd_bool (\<lambda>success.
    (rbind read_lp_string (\<lambda>message.
    (rbind rd_le32 (\<lambda>map_id.
    (rbind read_lp_string (\<lambda>map_name.
    (rbind rd_float (\<lambda>x.
    (rbind rd_float (\<lambda>y.
    (rbind rd_float (\<lambda>z.
    (rbind rd_le32 (\<lambda>player_count.
    rret \<lparr>map_enter_res_success = success, map_enter_res_message = message,
       map_enter_res_map_id = map_id, map_enter_res_map_name = map_name, map_enter_res_x = x,
       map_enter_res_y = y, map_enter_res_z = z,
       map_enter_res_player_count = player_count\<rparr>))))))))))))))))))"

definition map_enter_res_wf :: "map_enter_res \<Rightarrow> bool" where
  "map_enter_res_wf m \<longleftrightarrow> lp_ok (map_enter_res_message m) \<and> lp_ok (map_enter_res_map_name m)"

subsection \<open>\<open>map_leave_req\<close>\<close>

record map_leave_req =
  map_leave_req_map_id :: u32
  map_leave_req_timestamp :: u32

definition map_leave_req_serialize :: "map_leave_req \<Rightarrow> bytes" where
  "map_leave_req_serialize m =
     write_le32 (map_leave_req_map_id m)
     @ write_le32 (map_leave_req_timestamp m)"

definition map_leave_req_parse :: "map_leave_req reader" where
  "map_leave_req_parse =
    (rbind (need 8) (\<lambda>_.
    (rbind rd_le32 (\<lambda>map_id.
    (rbind rd_le32 (\<lambda>timestamp.
    rret \<lparr>map_leave_req_map_id = map_id, map_leave_req_timestamp = timestamp\<rparr>))))))"

definition map_leave_req_wf :: "map_leave_req \<Rightarrow> bool" where
  "map_leave_req_wf m \<longleftrightarrow> True"

subsection \<open>\<open>map_leave_res\<close>\<close>

record map_leave_res =
  map_leave_res_success :: bool
  map_leave_res_message :: bytes
  map_leave_res_map_id :: u32

definition map_leave_res_serialize :: "map_leave_res \<Rightarrow> bytes" where
  "map_leave_res_serialize m =
     write_bool (map_leave_res_success m)
     @ write_lp_string (map_leave_res_message m)
     @ write_le32 (map_leave_res_map_id m)"

definition map_leave_res_parse :: "map_leave_res reader" where
  "map_leave_res_parse =
    (rbind (need 8) (\<lambda>_.
    (rbind rd_bool (\<lambda>success.
    (rbind read_lp_string (\<lambda>message.
    (rbind rd_le32 (\<lambda>map_id.
    rret \<lparr>map_leave_res_success = success, map_leave_res_message = message,
       map_leave_res_map_id = map_id\<rparr>))))))))"

definition map_leave_res_wf :: "map_leave_res \<Rightarrow> bool" where
  "map_leave_res_wf m \<longleftrightarrow> lp_ok (map_leave_res_message m)"

subsection \<open>\<open>map_object_info\<close>\<close>

record map_object_info =
  map_object_info_object_id :: u32
  map_object_info_object_type :: u8
  map_object_info_object_name :: bytes
  map_object_info_x :: f32
  map_object_info_y :: f32
  map_object_info_z :: f32
  map_object_info_rotation :: f32
  map_object_info_level :: u32
  map_object_info_hp :: u32
  map_object_info_max_hp :: u32

definition map_object_info_serialize :: "map_object_info \<Rightarrow> bytes" where
  "map_object_info_serialize m =
     write_le32 (map_object_info_object_id m)
     @ write_u8 (map_object_info_object_type m)
     @ write_lp_string (map_object_info_object_name m)
     @ write_float_le (map_object_info_x m)
     @ write_float_le (map_object_info_y m)
     @ write_float_le (map_object_info_z m)
     @ write_float_le (map_object_info_rotation m)
     @ write_le32 (map_object_info_level m)
     @ write_le32 (map_object_info_hp m)
     @ write_le32 (map_object_info_max_hp m)"

definition map_object_info_parse :: "map_object_info reader" where
  "map_object_info_parse =
    (rbind (need 28) (\<lambda>_.
    (rbind rd_le32 (\<lambda>object_id.
    (rbind rd_byte (\<lambda>object_type.
    (rbind read_lp_string (\<lambda>object_name.
    (rbind rd_float (\<lambda>x.
    (rbind rd_float (\<lambda>y.
    (rbind rd_float (\<lambda>z.
    (rbind rd_float (\<lambda>rotation.
    (rbind rd_le32 (\<lambda>level.
    (rbind rd_le32 (\<lambda>hp.
    (rbind rd_le32 (\<lambda>max_hp.
    rret \<lparr>map_object_info_object_id = object_id,
       map_object_info_object_type = object_type, map_object_info_object_name = object_name,
       map_object_info_x = x, map_object_info_y = y, map_object_info_z = z,
       map_object_info_rotation = rotation, map_object_info_level = level,
       map_object_info_hp = hp, map_object_info_max_hp = max_hp\<rparr>))))))))))))))))))))))"

definition map_object_info_wf :: "map_object_info \<Rightarrow> bool" where
  "map_object_info_wf m \<longleftrightarrow> lp_ok (map_object_info_object_name m)"

subsection \<open>\<open>map_objects_update\<close>\<close>

record map_objects_update =
  map_objects_update_map_id :: u32
  map_objects_update_update_type :: u32
  map_objects_update_objects :: "map_object_info list"
  map_objects_update_timestamp :: u32

definition map_objects_update_serialize :: "map_objects_update \<Rightarrow> bytes" where
  "map_objects_update_serialize m =
     write_le32 (map_objects_update_map_id m)
     @ write_le32 (map_objects_update_update_type m)
     @ write_le32 (of_nat (length (map_objects_update_objects m)))
     @ concat (map map_object_info_serialize (map_objects_update_objects m))
     @ write_le32 (map_objects_update_timestamp m)"

definition map_objects_update_parse :: "map_objects_update reader" where
  "map_objects_update_parse =
    (rbind (need 12) (\<lambda>_.
    (rbind rd_le32 (\<lambda>map_id.
    (rbind rd_le32 (\<lambda>update_type.
    (rbind rd_le32 (\<lambda>count.
    (rbind (parse_many map_object_info_parse (unat count)) (\<lambda>objects.
    (rbind (need 4) (\<lambda>_.
    (rbind rd_le32 (\<lambda>timestamp.
    rret \<lparr>map_objects_update_map_id = map_id,
       map_objects_update_update_type = update_type, map_objects_update_objects = objects,
       map_objects_update_timestamp = timestamp\<rparr>))))))))))))))"

definition map_objects_update_wf :: "map_objects_update \<Rightarrow> bool" where
  "map_objects_update_wf m \<longleftrightarrow> length (map_objects_update_objects m) < 2 ^ 32 \<and> list_all map_object_info_wf (map_objects_update_objects m)"

subsection \<open>\<open>map_info_req\<close>\<close>

record map_info_req =
  map_info_req_map_id :: u32

definition map_info_req_serialize :: "map_info_req \<Rightarrow> bytes" where
  "map_info_req_serialize m =
     write_le32 (map_info_req_map_id m)"

definition map_info_req_parse :: "map_info_req reader" where
  "map_info_req_parse =
    (rbind (need 4) (\<lambda>_.
    (rbind rd_le32 (\<lambda>map_id.
    rret \<lparr>map_info_req_map_id = map_id\<rparr>))))"

definition map_info_req_wf :: "map_info_req \<Rightarrow> bool" where
  "map_info_req_wf m \<longleftrightarrow> True"

subsection \<open>\<open>map_info_res\<close>\<close>

record map_info_res =
  map_info_res_map_id :: u32
  map_info_res_map_name :: bytes
  map_info_res_map_description :: bytes
  map_info_res_map_width :: u32
  map_info_res_map_height :: u32
  map_info_res_max_players :: u32
  map_info_res_current_players :: u32
  map_info_res_map_type :: u8
  map_info_res_required_level :: u32

definition map_info_res_serialize :: "map_info_res \<Rightarrow> bytes" where
  "map_info_res_serialize m =
     write_le32 (map_info_res_map_id m)
     @ write_lp_string (map_info_res_map_name m)
     @ write_lp_string (map_info_res_map_description m)
     @ write_le32 (map_info_res_map_width m)
     @ write_le32 (map_info_res_map_height m)
     @ write_le32 (map_info_res_max_players m)
     @ write_le32 (map_info_res_current_players m)
     @ write_u8 (map_info_res_map_type m)
     @ write_le32 (map_info_res_required_level m)"

definition map_info_res_parse :: "map_info_res reader" where
  "map_info_res_parse =
    (rbind (need 24) (\<lambda>_.
    (rbind rd_le32 (\<lambda>map_id.
    (rbind read_lp_string (\<lambda>map_name.
    (rbind read_lp_string (\<lambda>map_description.
    (rbind rd_le32 (\<lambda>map_width.
    (rbind rd_le32 (\<lambda>map_height.
    (rbind rd_le32 (\<lambda>max_players.
    (rbind rd_le32 (\<lambda>current_players.
    (rbind rd_byte (\<lambda>map_type.
    (rbind rd_le32 (\<lambda>required_level.
    rret \<lparr>map_info_res_map_id = map_id, map_info_res_map_name = map_name,
       map_info_res_map_description = map_description, map_info_res_map_width = map_width,
       map_info_res_map_height = map_height, map_info_res_max_players = max_players,
       map_info_res_current_players = current_players, map_info_res_map_type = map_type,
       map_info_res_required_level = required_level\<rparr>))))))))))))))))))))"

definition map_info_res_wf :: "map_info_res \<Rightarrow> bool" where
  "map_info_res_wf m \<longleftrightarrow> lp_ok (map_info_res_map_name m) \<and> lp_ok (map_info_res_map_description m)"

section \<open>Codec contracts\<close>

interpretation map_enter_req_codec: safe_codec map_enter_req_serialize map_enter_req_parse map_enter_req_wf
  by unfold_locales
    (simp add: map_enter_req_parse_def map_enter_req_serialize_def map_enter_req_wf_def wire_simps,
     (unfold map_enter_req_parse_def, (rule safe_intros | simp)+))

interpretation map_enter_res_codec: message_codec map_enter_res_serialize map_enter_res_parse map_enter_res_wf
  by unfold_locales
    (simp add: map_enter_res_parse_def map_enter_res_serialize_def map_enter_res_wf_def wire_simps)

interpretation map_leave_req_codec: safe_codec map_leave_req_serialize map_leave_req_parse map_leave_req_wf
  by unfold_locales
    (simp add: map_leave_req_parse_def map_leave_req_serialize_def map_leave_req_wf_def wire_simps,
     (unfold map_leave_req_parse_def, (rule safe_intros | simp)+))

interpretation map_leave_res_codec: message_codec map_leave_res_serialize map_leave_res_parse map_leave_res_wf
  by unfold_locales
    (simp add: map_leave_res_parse_def map_leave_res_serialize_def map_leave_res_wf_def wire_simps)

interpretation map_object_info_codec: message_codec map_object_info_serialize map_object_info_parse map_object_info_wf
  by unfold_locales
    (simp add: map_object_info_parse_def map_object_info_serialize_def map_object_info_wf_def wire_simps)

interpretation map_objects_update_codec: message_codec map_objects_update_serialize map_objects_update_parse map_objects_update_wf
  by unfold_locales
    (simp add: map_objects_update_parse_def map_objects_update_serialize_def map_objects_update_wf_def wire_simps
      unat_of_nat_u32 map_object_info_codec.parse_many_serialize)

interpretation map_info_req_codec: safe_codec map_info_req_serialize map_info_req_parse map_info_req_wf
  by unfold_locales
    (simp add: map_info_req_parse_def map_info_req_serialize_def map_info_req_wf_def wire_simps,
     (unfold map_info_req_parse_def, (rule safe_intros | simp)+))

interpretation map_info_res_codec: message_codec map_info_res_serialize map_info_res_parse map_info_res_wf
  by unfold_locales
    (simp add: map_info_res_parse_def map_info_res_serialize_def map_info_res_wf_def wire_simps)

end
