(* ===== verification/Protocol_Combat.thy ===== *)
theory Protocol_Combat
  imports Wire
begin

text \<open>
  Combat messages (\<open>common/protocol/protocol_combat.hpp\<close>).
\<close>

section \<open>Messages\<close>

subsection \<open>\<open>attack_req\<close>\<close>

record attack_req =
  attack_req_target_id :: u32
  attack_req_skill_id :: u32
  attack_req_x :: f32
  attack_req_y :: f32
  attack_req_z :: f32
  attack_req_timestamp :: u32

definition attack_req_serialize :: "attack_req \<Rightarrow> bytes" where
  "attack_req_serialize m =
     write_le32 (attack_req_target_id m)
     @ write_le32 (attack_req_skill_id m)
     @ write_float_le (attack_req_x m)
     @ write_float_le (attack_req_y m)
     @ write_float_le (attack_req_z m)
     @ write_le32 (attack_req_timestamp m)"

definition attack_req_parse :: "attack_req reader" where
  "attack_req_parse =
    (rbind (need 24) (\<lambda>_.
    (rbind rd_le32 (\<lambda>target_id.
    (rbind rd_le32 (\<lambda>skill_id.
    (rbind rd_float (\<lambda>x.
    (rbind rd_float (\<lambda>y.
    (rbind rd_float (\<lambda>z.
    (rbind rd_le32 (\<lambda>timestamp.
    rret \<lparr>attack_req_target_id = target_id, attack_req_skill_id = skill_id,
       attack_req_x = x, attack_req_y = y, attack_req_z = z,
       attack_req_timestamp = timestamp\<rparr>))))))))))))))"

definition attack_req_wf :: "attack_req \<Rightarrow> bool" where
  "attack_req_wf m \<longleftrightarrow> True"

subsection \<open>\<open>attack_res\<close>\<close>

record attack_res =
  attack_res_success :: bool
  attack_res_message :: bytes
  attack_res_attack_id :: u32
  attack_res_damage :: u32
  attack_res_target_remaining_hp :: u32

definition attack_res_serialize :: "attack_res \<Rightarrow> bytes" where
  "attack_res_serialize m =
     write_bool (attack_res_success m)
     @ write_lp_string (attack_res_message m)
     @ write_le32 (attack_res_attack_id m)
     @ write_le32 (attack_res_damage m)
     @ write_le32 (attack_res_target_remaining_hp m)"

definition attack_res_parse :: "attack_res reader" where
  "attack_res_parse =
    (rbind (need 12) (\<lambda>_.
    (rbind rd_bool (\<lambda>success.
    (rbind read_lp_string (\<lambda>message.
    (rbind rd_le32 (\<lambda>attack_id.
    (rbind rd_le32 (\<lambda>damage.
    (rbind rd_le32 (\<lambda>target_remaining_hp.
    rret \<lparr>attack_res_success = success, attack_res_message = message,
       attack_res_attack_id = attack_id, attack_res_damage = damage,
       attack_res_target_remaining_hp = target_remaining_hp\<rparr>))))))))))))"

definition attack_res_wf :: "attack_res \<Rightarrow> bool" where
  "attack_res_wf m \<longleftrightarrow> lp_ok (attack_res_message m)"

subsection \<open>\<open>damage_notify\<close>\<close>

record damage_notify =
  damage_notify_attacker_id :: u32
  damage_notify_target_id :: u32
  damage_notify_damage :: u32
  damage_notify_remaining_hp :: u32
  damage_notify_attack_id :: u32
  damage_notify_timestamp :: u32

definition damage_notify_serialize :: "damage_notify \<Rightarrow> bytes" where
  "damage_notify_serialize m =
     write_le32 (damage_notify_attacker_id m)
     @ write_le32 (damage_notify_target_id m)
     @ write_le32 (damage_notify_damage m)
     @ write_le32 (damage_notify_remaining_hp m)
     @ write_le32 (damage_notify_attack_id m)
     @ write_le32 (damage_notify_timestamp m)"

definition damage_notify_parse :: "damage_notify reader" where
  "damage_notify_parse =
    (rbind (need 24) (\<lambda>_.
    (rbind rd_le32 (\<lambda>attacker_id.
    (rbind rd_le32 (\<lambda>target_id.
    (rbind rd_le32 (\<lambda>damage.
    (rbind rd_le32 (\<lambda>remaining_hp.
    (rbind rd_le32 (\<lambda>attack_id.
    (rbind rd_le32 (\<lambda>timestamp.
    rret \<lparr>damage_notify_attacker_id = attacker_id, damage_notify_target_id = target_id,
       damage_notify_damage = damage, damage_notify_remaining_hp = remaining_hp,
       damage_notify_attack_id = attack_id,
       damage_notify_timestamp = timestamp\<rparr>))))))))))))))"

definition damage_notify_wf :: "damage_notify \<Rightarrow> bool" where
  "damage_notify_wf m \<longleftrightarrow> True"

subsection \<open>\<open>skill_use_req\<close>\<close>

record skill_use_req =
  skill_use_req_skill_id :: u32
  skill_use_req_target_id :: u32
  skill_use_req_x :: f32
  skill_use_req_y :: f32
  skill_use_req_z :: f32
  skill_use_req_timestamp :: u32

definition skill_use_req_serialize :: "skill_use_req \<Rightarrow> bytes" where
  "skill_use_req_serialize m =
     write_le32 (skill_use_req_skill_id m)
     @ write_le32 (skill_use_req_target_id m)
     @ write_float_le (skill_use_req_x m)
     @ write_float_le (skill_use_req_y m)
     @ write_float_le (skill_use_req_z m)
     @ write_le32 (skill_use_req_timestamp m)"

definition skill_use_req_parse :: "skill_use_req reader" where
  "skill_use_req_parse =
    (rbind (need 24) (\<lambda>_.
    (rbind rd_le32 (\<lambda>skill_id.
    (rbind rd_le32 (\<lambda>target_id.
    (rbind rd_float (\<lambda>x.
    (rbind rd_float (\<lambda>y.
    (rbind rd_float (\<lambda>z.
    (rbind rd_le32 (\<lambda>timestamp.
    rret \<lparr>skill_use_req_skill_id = skill_id, skill_use_req_target_id = target_id,
       skill_use_req_x = x, skill_use_req_y = y, skill_use_req_z = z,
       skill_use_req_timestamp = timestamp\<rparr>))))))))))))))"

definition skill_use_req_wf :: "skill_use_req \<Rightarrow> bool" where
  "skill_use_req_wf m \<longleftrightarrow> True"

subsection \<open>\<open>skill_use_res\<close>\<close>

record skill_use_res =
  skill_use_res_success :: bool
  skill_use_res_message :: bytes
  skill_use_res_skill_id :: u32
  skill_use_res_cooldown_time :: u32
  skill_use_res_mana_cost :: u32

definition skill_use_res_serialize :: "skill_use_res \<Rightarrow> bytes" where
  "skill_use_res_serialize m =
     write_bool (skill_use_res_success m)
     @ write_lp_string (skill_use_res_message m)
     @ write_le32 (skill_use_res_skill_id m)
     @ write_le32 (skill_use_res_cooldown_time m)
     @ write_le32 (skill_use_res_mana_cost m)"

definition skill_use_res_parse :: "skill_use_res reader" where
  "skill_use_res_parse =
    (rbind (need 12) (\<lambda>_.
    (rbind rd_bool (\<lambda>success.
    (rbind read_lp_string (\<lambda>message.
    (rbind rd_le32 (\<lambda>skill_id.
    (rbind rd_le32 (\<lambda>cooldown_time.
    (rbind rd_le32 (\<lambda>mana_cost.
    rret \<lparr>skill_use_res_success = success, skill_use_res_message = message,
       skill_use_res_skill_id = skill_id, skill_use_res_cooldown_time = cooldown_time,
       skill_use_res_mana_cost = mana_cost\<rparr>))))))))))))"

definition skill_use_res_wf :: "skill_use_res \<Rightarrow> bool" where
  "skill_use_res_wf m \<longleftrightarrow> lp_ok (skill_use_res_message m)"

subsection \<open>\<open>status_effect_notify\<close>\<close>

record status_effect_notify =
  status_effect_notify_target_id :: u32
  status_effect_notify_effect_id :: u32
  status_effect_notify_effect_type :: u8
  status_effect_notify_duration :: u32
  status_effect_notify_value :: u32
  status_effect_notify_timestamp :: u32

definition status_effect_notify_serialize :: "status_effect_notify \<Rightarrow> bytes" where
  "status_effect_notify_serialize m =
     write_le32 (status_effect_notify_target_id m)
     @ write_le32 (status_effect_notify_effect_id m)
     @ write_u8 (status_effect_notify_effect_type m)
     @ write_le32 (status_effect_notify_duration m)
     @ write_le32 (status_effect_notify_value m)
     @ write_le32 (status_effect_notify_timestamp m)"

definition status_effect_notify_parse :: "status_effect_notify reader" where
  "status_effect_notify_parse =
    (rbind (need 21) (\<lambda>_.
    (rbind rd_le32 (\<lambda>target_id.
    (rbind rd_le32 (\<lambda>effect_id.
    (rbind rd_byte (\<lambda>effect_type.
    (rbind rd_le32 (\<lambda>duration.
    (rbind rd_le32 (\<lambda>val.
    (rbind rd_le32 (\<lambda>timestamp.
    rret \<lparr>status_effect_notify_target_id = target_id,
       status_effect_notify_effect_id = effect_id,
       status_effect_notify_effect_type = effect_type,
       status_effect_notify_duration = duration, status_effect_notify_value = val,
       status_effect_notify_timestamp = timestamp\<rparr>))))))))))))))"

definition status_effect_notify_wf :: "status_effect_notify \<Rightarrow> bool" where
  "status_effect_notify_wf m \<longleftrightarrow> True"

subsection \<open>\<open>combat_result_notify\<close>\<close>

text \<open>The body of the item loop: \<open>if (p + 4 > end) return false; read_le32(p)\<close>.\<close>

definition item_id_parse :: "u32 reader" where
  "item_id_parse = rbind (need 4) (\<lambda>_. rd_le32)"

record combat_result_notify =
  combat_result_notify_winner_id :: u32
  combat_result_notify_loser_id :: u32
  combat_result_notify_experience_gained :: u32
  combat_result_notify_gold_gained :: u32
  combat_result_notify_item_ids :: "u32 list"
  combat_result_notify_timestamp :: u32

definition combat_result_notify_serialize :: "combat_result_notify \<Rightarrow> bytes" where
  "combat_result_notify_serialize m =
     write_le32 (combat_result_notify_winner_id m)
     @ write_le32 (combat_result_notify_loser_id m)
     @ write_le32 (combat_result_notify_experience_gained m)
     @ write_le32 (combat_result_notify_gold_gained m)
     @ write_le32 (of_nat (length (combat_result_notify_item_ids m)))
     @ concat (map write_le32 (combat_result_notify_item_ids m))
     @ write_le32 (combat_result_notify_timestamp m)"

definition combat_result_notify_parse :: "combat_result_notify reader" where
  "combat_result_notify_parse =
    (rbind (need 20) (\<lambda>_.
    (rbind rd_le32 (\<lambda>winner_id.
    (rbind rd_le32 (\<lambda>loser_id.
    (rbind rd_le32 (\<lambda>experience_gained.
    (rbind rd_le32 (\<lambda>gold_gained.
    (rbind rd_le32 (\<lambda>count.
    (rbind (parse_many item_id_parse (unat count)) (\<lambda>item_ids.
    (rbind (need 4) (\<lambda>_.
    (rbind rd_le32 (\<lambda>timestamp.
    rret \<lparr>combat_result_notify_winner_id = winner_id,
       combat_result_notify_loser_id = loser_id,
       combat_result_notify_experience_gained = experience_gained,
       combat_result_notify_gold_gained = gold_gained,
       combat_result_notify_item_ids = item_ids,
       combat_result_notify_timestamp = timestamp\<rparr>))))))))))))))))))"

definition combat_result_notify_wf :: "combat_result_notify \<Rightarrow> bool" where
  "combat_result_notify_wf m \<longleftrightarrow> length (combat_result_notify_item_ids m) < 2 ^ 32"

section \<open>Codec contracts\<close>

interpretation attack_req_codec: safe_codec attack_req_serialize attack_req_parse attack_req_wf
  by unfold_locales
    (simp add: attack_req_parse_def attack_req_serialize_def attack_req_wf_def wire_simps,
     (unfold attack_req_parse_def, (rule safe_intros | simp)+))

interpretation attack_res_codec: message_codec attack_res_serialize attack_res_parse attack_res_wf
  by unfold_locales
    (simp add: attack_res_parse_def attack_res_serialize_def attack_res_wf_def wire_simps)

interpretation damage_notify_codec: safe_codec damage_notify_serialize damage_notify_parse damage_notify_wf
  by unfold_locales
    (simp add: damage_notify_parse_def damage_notify_serialize_def damage_notify_wf_def wire_simps,
     (unfold damage_notify_parse_def, (rule safe_intros | simp)+))

interpretation skill_use_req_codec: safe_codec skill_use_req_serialize skill_use_req_parse skill_use_req_wf
  by unfold_locales
    (simp add: skill_use_req_parse_def skill_use_req_serialize_def skill_use_req_wf_def wire_simps,
     (unfold skill_use_req_parse_def, (rule safe_intros | simp)+))

interpretation skill_use_res_codec: message_codec skill_use_res_serialize skill_use_res_parse skill_use_res_wf
  by unfold_locales
    (simp add: skill_use_res_parse_def skill_use_res_serialize_def skill_use_res_wf_def wire_simps)

interpretation status_effect_notify_codec: safe_codec status_effect_notify_serialize status_effect_notify_parse status_effect_notify_wf
  by unfold_locales
    (simp add: status_effect_notify_parse_def status_effect_notify_serialize_def status_effect_notify_wf_def wire_simps,
     (unfold status_effect_notify_parse_def, (rule safe_intros | simp)+))

interpretation item_id_codec: safe_codec write_le32 item_id_parse "\<lambda>_. True"
  by unfold_locales
    (simp add: item_id_parse_def wire_simps,
     simp add: item_id_parse_def safe_from_def rbind_def need_def rd_le32_def)

declare item_id_codec.in_bounds [safe_intros]

interpretation combat_result_notify_codec: safe_codec combat_result_notify_serialize combat_result_notify_parse combat_result_notify_wf
  by unfold_locales
    (simp add: combat_result_notify_parse_def combat_result_notify_serialize_def combat_result_notify_wf_def wire_simps
      unat_of_nat_u32 item_id_codec.parse_many_serialize list.pred_True,
     (unfold combat_result_notify_parse_def, (rule safe_intros | simp)+))

end
