(* ===== verification/Protocol.thy ===== *)
theory Protocol
  imports Protocol_Base Protocol_Player Protocol_Chat Protocol_Guild Protocol_Map Protocol_Combat
begin

text \<open>
  The protocol as a whole: which messages survive the wire, and which parsers are safe on bytes
  that come from the network.
\<close>

section \<open>Requests that the server parses\<close>

text \<open>
  C25: What a client serialises the server parses back, with no byte left over, for each of the six
  request types that the server's handlers parse.
\<close>

theorem server_requests_roundtrip:
  assumes "login_req_wf l" and "guild_create_req_wf gc" and "guild_join_req_wf gj"
  shows "login_req_parse (login_req_serialize l) = Parsed l [] \<and>
    player_move_req_parse (player_move_req_serialize mv) = Parsed mv [] \<and>
    attack_req_parse (attack_req_serialize at) = Parsed at [] \<and>
    map_enter_req_parse (map_enter_req_serialize me) = Parsed me [] \<and>
    guild_create_req_parse (guild_create_req_serialize gc) = Parsed gc [] \<and>
    guild_join_req_parse (guild_join_req_serialize gj) = Parsed gj []"
  using assms
  by (simp add: login_req_codec.parse_serialize player_move_req_codec.parse_serialize
      attack_req_codec.parse_serialize map_enter_req_codec.parse_serialize
      guild_create_req_codec.parse_serialize guild_join_req_codec.parse_serialize
      player_move_req_wf_def attack_req_wf_def map_enter_req_wf_def)

theorem server_requests_roundtrip_witness:
  "\<exists>l gc gj. login_req_wf l \<and> guild_create_req_wf gc \<and> guild_join_req_wf gj \<and>
     login_req_parse (login_req_serialize l) = Parsed l [] \<and>
     guild_create_req_parse (guild_create_req_serialize gc) = Parsed gc [] \<and>
     guild_join_req_parse (guild_join_req_serialize gj) = Parsed gj []"
proof -
  let ?l = "\<lparr>login_req_player_name = str ''bot'', login_req_session_token = []\<rparr>"
  let ?gc = "\<lparr>guild_create_req_guild_name = str ''red'', guild_create_req_guild_description = [],
    guild_create_req_max_members = 50, guild_create_req_guild_type = 1\<rparr>"
  let ?gj = "\<lparr>guild_join_req_guild_id = 4, guild_join_req_application_message = str ''hi''\<rparr>"
  have "login_req_wf ?l" "guild_create_req_wf ?gc" "guild_join_req_wf ?gj"
    by (simp_all add: login_req_wf_def guild_create_req_wf_def guild_join_req_wf_def lp_ok_def)
  then show ?thesis using server_requests_roundtrip [of ?l ?gc ?gj] by blast
qed

text \<open>
  C24: No byte string that arrives from the network makes one of the server's request parsers read
  outside the received payload.
\<close>

theorem server_requests_in_bounds:
  "login_req_parse bs \<noteq> OutOfBounds \<and> player_move_req_parse bs \<noteq> OutOfBounds \<and>
   attack_req_parse bs \<noteq> OutOfBounds \<and> map_enter_req_parse bs \<noteq> OutOfBounds \<and>
   guild_create_req_parse bs \<noteq> OutOfBounds \<and> guild_join_req_parse bs \<noteq> OutOfBounds"
  by (intro conjI safe_fromD login_req_codec.in_bounds player_move_req_codec.in_bounds
      attack_req_codec.in_bounds map_enter_req_codec.in_bounds
      guild_create_req_codec.in_bounds guild_join_req_codec.in_bounds)

section \<open>Responses and notifications\<close>

text \<open>
  C26: The responses and notifications that the server's handlers serialise are parsed back by the
  receiver.
\<close>

theorem server_responses_roundtrip:
  assumes "login_res_wf lr" and "attack_res_wf ar" and "map_enter_res_wf er"
    and "guild_create_res_wf cr" and "guild_join_res_wf jr" and "guild_leave_res_wf vr"
  shows "login_res_parse (login_res_serialize lr) = Parsed lr [] \<and>
    attack_res_parse (attack_res_serialize ar) = Parsed ar [] \<and>
    damage_notify_parse (damage_notify_serialize dn) = Parsed dn [] \<and>
    map_enter_res_parse (map_enter_res_serialize er) = Parsed er [] \<and>
    guild_create_res_parse (guild_create_res_serialize cr) = Parsed cr [] \<and>
    guild_join_res_parse (guild_join_res_serialize jr) = Parsed jr [] \<and>
    guild_leave_res_parse (guild_leave_res_serialize vr) = Parsed vr []"
  using assms
  by (simp add: login_res_codec.parse_serialize attack_res_codec.parse_serialize
      damage_notify_codec.parse_serialize map_enter_res_codec.parse_serialize
      guild_create_res_codec.parse_serialize guild_join_res_codec.parse_serialize
      guild_leave_res_codec.parse_serialize damage_notify_wf_def)

theorem server_responses_roundtrip_witness:
  "\<exists>lr ar er. login_res_wf lr \<and> attack_res_wf ar \<and> map_enter_res_wf er \<and>
     login_res_parse (login_res_serialize lr) = Parsed lr [] \<and>
     attack_res_parse (attack_res_serialize ar) = Parsed ar [] \<and>
     map_enter_res_parse (map_enter_res_serialize er) = Parsed er []"
proof -
  let ?lr = "\<lparr>login_res_success = True, login_res_message = str ''ok'', login_res_player_id = 1,
    login_res_map_id = 1\<rparr>"
  let ?ar = "\<lparr>attack_res_success = True, attack_res_message = str ''hit'', attack_res_attack_id = 1,
    attack_res_damage = 10, attack_res_target_remaining_hp = 90\<rparr>"
  let ?er = "\<lparr>map_enter_res_success = False, map_enter_res_message = str ''map not found'',
    map_enter_res_map_id = 0, map_enter_res_map_name = [], map_enter_res_x = 0,
    map_enter_res_y = 0, map_enter_res_z = 0, map_enter_res_player_count = 0\<rparr>"
  let ?cr = "\<lparr>guild_create_res_success = True, guild_create_res_message = str ''ok'',
    guild_create_res_guild_id = 1\<rparr>"
  let ?jr = "\<lparr>guild_join_res_success = True, guild_join_res_message = str ''ok'',
    guild_join_res_application_id = 0\<rparr>"
  let ?vr = "\<lparr>guild_leave_res_success = True, guild_leave_res_message = str ''ok''\<rparr>"
  have "login_res_wf ?lr" "attack_res_wf ?ar" "map_enter_res_wf ?er"
    "guild_create_res_wf ?cr" "guild_join_res_wf ?jr" "guild_leave_res_wf ?vr"
    by (simp_all add: login_res_wf_def attack_res_wf_def map_enter_res_wf_def
        guild_create_res_wf_def guild_join_res_wf_def guild_leave_res_wf_def lp_ok_def)
  then show ?thesis using server_responses_roundtrip [of ?lr ?ar ?er ?cr ?jr ?vr] by blast
qed

section \<open>Messages with counted sequences\<close>

text \<open>
  Messages that carry a counted sequence of records survive the wire in front of any further
  bytes: map object updates and combat results.
\<close>

lemma sequence_messages_roundtrip:
  assumes "map_objects_update_wf u" and "combat_result_notify_wf c"
  shows "map_objects_update_parse (map_objects_update_serialize u @ rest) = Parsed u rest \<and>
    combat_result_notify_parse (combat_result_notify_serialize c @ rest) = Parsed c rest"
  using assms by (simp add: map_objects_update_codec.roundtrip combat_result_notify_codec.roundtrip)

lemma sequence_messages_roundtrip_witness:
  "\<exists>u c. length (map_objects_update_objects u) = 1 \<and> length (combat_result_notify_item_ids c) = 2 \<and>
     map_objects_update_parse (map_objects_update_serialize u @ []) = Parsed u [] \<and>
     combat_result_notify_parse (combat_result_notify_serialize c @ []) = Parsed c []"
proof -
  let ?o = "\<lparr>map_object_info_object_id = 5, map_object_info_object_type = 1,
    map_object_info_object_name = str ''Goblin'', map_object_info_x = 0, map_object_info_y = 0,
    map_object_info_z = 0, map_object_info_rotation = 0, map_object_info_level = 1,
    map_object_info_hp = 100, map_object_info_max_hp = 100\<rparr>"
  let ?u = "\<lparr>map_objects_update_map_id = 1, map_objects_update_update_type = 1,
    map_objects_update_objects = [?o], map_objects_update_timestamp = 77\<rparr>"
  let ?c = "\<lparr>combat_result_notify_winner_id = 1, combat_result_notify_loser_id = 2,
    combat_result_notify_experience_gained = 10, combat_result_notify_gold_gained = 3,
    combat_result_notify_item_ids = [8, 9], combat_result_notify_timestamp = 78\<rparr>"
  have "map_objects_update_wf ?u" "combat_result_notify_wf ?c"
    by (simp_all add: map_objects_update_wf_def map_object_info_wf_def combat_result_notify_wf_def
        lp_ok_def)
  moreover have "length (map_objects_update_objects ?u) = 1"
    "length (combat_result_notify_item_ids ?c) = 2" by simp_all
  ultimately show ?thesis using sequence_messages_roundtrip [of ?u ?c "[]"] by blast
qed

section \<open>Parsers that trust the length of a string\<close>

text \<open>
  Several parsers check one fixed minimum at the start and then read the fields behind a string
  without a further check, so a payload that ends with the string makes them read past its end.

  Each of these nine parsers accepts its size check and then reads outside the payload, for
  every string of 24 bytes or more that is the last thing in the payload.
\<close>

lemma string_messages_overrun:
  assumes "lp_ok s" and "24 \<le> length s"
  shows "player_info_res_parse (write_le32 i @ write_lp_string s) = OutOfBounds \<and>
    map_enter_res_parse (write_bool b @ write_lp_string s) = OutOfBounds \<and>
    map_leave_res_parse (write_bool b @ write_lp_string s) = OutOfBounds \<and>
    map_object_info_parse (write_le32 i @ write_u8 t @ write_lp_string s) = OutOfBounds \<and>
    map_info_res_parse (write_le32 i @ write_lp_string s @ write_lp_string s) = OutOfBounds \<and>
    attack_res_parse (write_bool b @ write_lp_string s) = OutOfBounds \<and>
    skill_use_res_parse (write_bool b @ write_lp_string s) = OutOfBounds \<and>
    chat_system_message_parse (write_le32 i @ write_lp_string s @ write_lp_string s) = OutOfBounds \<and>
    guild_member_info_parse (write_le32 i @ write_lp_string s) = OutOfBounds"
  using assms
  by (simp add: player_info_res_parse_def map_enter_res_parse_def map_leave_res_parse_def
      map_object_info_parse_def map_info_res_parse_def attack_res_parse_def skill_use_res_parse_def
      chat_system_message_parse_def guild_member_info_parse_def wire_simps)

lemma string_messages_overrun_witness:
  "lp_ok (replicate 24 0) \<and> length (replicate 24 (0::byte)) = 24 \<and>
   attack_res_parse (write_bool True @ write_lp_string (replicate 24 0)) = OutOfBounds"
proof -
  have "lp_ok (replicate 24 0)" "24 \<le> length (replicate 24 (0::byte))"
    by (simp_all add: lp_ok_def)
  then show ?thesis using string_messages_overrun [of "replicate 24 0" 0 True 0] by simp
qed

end
