(* ===== verification/Frame_Codec.thy ===== *)
theory Frame_Codec
  imports Wire
begin

unbundle bit_operations_syntax

text \<open>
  The frame codec (\<open>common/network/frame_codec.hpp\<close>): a 16-byte header
  \<open>len(4) cmd(2) flags(1) ver(1) seq(4) crc(4)\<close> followed by the payload, \<open>len\<close> counting the
  twelve header bytes behind it and the payload. \<open>pack\<close> fills a preallocated vector by position;
  \<open>try_parse_one\<close> looks at an accumulator from a read offset on and either consumes one frame or
  reports that there is none.
\<close>

section \<open>Constants and positional little-endian access\<close>

definition k_proto_ver :: u8 where
  "k_proto_ver = 1"

definition k_header_after_len :: nat where
  "k_header_after_len = 12"

definition k_header_total :: nat where
  "k_header_total = 16"

definition k_max_frame_bytes :: nat where
  "k_max_frame_bytes = 2 ^ 20"

definition put_le16 :: "bytes \<Rightarrow> nat \<Rightarrow> u16 \<Rightarrow> bytes" where
  "put_le16 p i v = p[i := ucast (v AND 0xFF), i + 1 := ucast (drop_bit 8 v AND 0xFF)]"

definition put_le32 :: "bytes \<Rightarrow> nat \<Rightarrow> u32 \<Rightarrow> bytes" where
  "put_le32 p i v = p[i := ucast (v AND 0xFF), i + 1 := ucast (drop_bit 8 v AND 0xFF),
     i + 2 := ucast (drop_bit 16 v AND 0xFF), i + 3 := ucast (drop_bit 24 v AND 0xFF)]"

definition get_le16 :: "bytes \<Rightarrow> u16" where
  "get_le16 p = ucast (p ! 0) OR push_bit 8 (ucast (p ! 1))"

definition get_le32 :: "bytes \<Rightarrow> u32" where
  "get_le32 p = ucast (p ! 0) OR push_bit 8 (ucast (p ! 1))
     OR push_bit 16 (ucast (p ! 2)) OR push_bit 24 (ucast (p ! 3))"

section \<open>CRC32\<close>

definition crc_bit :: "u32 \<Rightarrow> u32" where
  "crc_bit c = (if c AND 1 \<noteq> 0 then 0xEDB88320 XOR drop_bit 1 c else drop_bit 1 c)"

definition crc_table :: "u32 list" where
  "crc_table = map (\<lambda>i. (crc_bit ^^ 8) (of_nat i)) [0..<256]"

definition crc_step :: "u32 \<Rightarrow> byte \<Rightarrow> u32" where
  "crc_step c b = crc_table ! unat ((c XOR ucast b) AND 0xFF) XOR drop_bit 8 c"

definition crc32 :: "bytes \<Rightarrow> u32" where
  "crc32 data = foldl crc_step 0xFFFFFFFF data XOR 0xFFFFFFFF"

text \<open>The bit-serial CRC-32 (IEEE, reflected), without a table.\<close>

definition crc32_bitwise :: "bytes \<Rightarrow> u32" where
  "crc32_bitwise data =
     foldl (\<lambda>c b. (crc_bit ^^ 8) (c XOR ucast b)) 0xFFFFFFFF data XOR 0xFFFFFFFF"

section \<open>Frames\<close>

record header_v1 =
  hdr_cmd :: u16
  hdr_flags :: u8
  hdr_ver :: u8
  hdr_seq :: u32
  hdr_crc :: u32

text \<open>\<open>std::memcpy(out.data() + i, data, n)\<close>\<close>

definition copy_to :: "bytes \<Rightarrow> nat \<Rightarrow> bytes \<Rightarrow> bytes" where
  "copy_to out i data = take i out @ data @ drop (i + length data) out"

definition pack :: "u16 \<Rightarrow> u8 \<Rightarrow> u8 \<Rightarrow> u32 \<Rightarrow> bytes \<Rightarrow> bytes" where
  "pack cmd flags ver seq payload =
    (let len_after_len = of_nat (k_header_after_len + length payload);
         out = replicate (k_header_total + length payload) 0;
         out = put_le32 out 0 len_after_len;
         out = put_le16 out 4 cmd;
         out = out[6 := flags];
         out = out[7 := ver];
         out = put_le32 out 8 seq;
         out = (if payload \<noteq> [] then copy_to out 16 payload else out);
         c = crc32 (take (length payload) (drop 16 out));
         out = put_le32 out 12 c
     in out)"

text \<open>
  The result of \<open>try_parse_one\<close>: the returned boolean with the out-parameters and the new value
  of \<open>acc_offset\<close>. \<open>acc.size() - acc_offset\<close> is computed in \<open>std::size_t\<close>; an offset beyond the
  end would wrap around and read outside the vector, which is the outcome \<open>Overrun\<close>.
\<close>

datatype parse_result =
    NoFrame nat
  | Frame header_v1 bytes bool nat
  | Overrun

definition try_parse_one :: "bytes \<Rightarrow> nat \<Rightarrow> parse_result" where
  "try_parse_one acc acc_offset =
    (if length acc < acc_offset then Overrun
     else let avail = length acc - acc_offset in
     if avail < 4 then NoFrame acc_offset
     else let base = drop acc_offset acc; len_after_len = unat (get_le32 base) in
     if len_after_len > k_max_frame_bytes then NoFrame (length acc)
     else let total = 4 + len_after_len in
     if avail < total then NoFrame acc_offset
     else if len_after_len < k_header_after_len then NoFrame (length acc)
     else let hdr = \<lparr>hdr_cmd = get_le16 (drop 4 base), hdr_flags = base ! 6, hdr_ver = base ! 7,
                hdr_seq = get_le32 (drop 8 base), hdr_crc = get_le32 (drop 12 base)\<rparr>;
              payload_sz = len_after_len - k_header_after_len;
              payload = take payload_sz (drop 16 base)
          in Frame hdr payload (crc32 payload = hdr_crc hdr) (acc_offset + total))"

section \<open>The table-driven CRC is the bit-serial one\<close>

lemma odd_word_iff: "(c AND 1 \<noteq> 0) = bit (c :: u32) 0"
  by (simp add: and_one_eq bit_0 odd_iff_mod_2_eq_one)

lemma crc_bit_xor: "crc_bit (a XOR b) = crc_bit a XOR crc_bit b"
  unfolding crc_bit_def odd_word_iff
  by (auto simp: bit_simps intro!: bit_word_eqI)

lemma crc_bits_xor: "(crc_bit ^^ n) (a XOR b) = (crc_bit ^^ n) a XOR (crc_bit ^^ n) b"
  by (induction n) (simp_all add: crc_bit_xor)

lemma crc_bits_low_zero:
  "(\<forall>i < n. \<not> bit x i) \<Longrightarrow> (crc_bit ^^ n) x = drop_bit n x"
proof (induction n arbitrary: x)
  case 0
  then show ?case by simp
next
  case (Suc n)
  then have "crc_bit x = drop_bit 1 x"
    unfolding crc_bit_def odd_word_iff by simp
  moreover have "(crc_bit ^^ n) (drop_bit 1 x) = drop_bit n (drop_bit 1 x)"
    using Suc.prems by (intro Suc.IH) (auto simp: bit_simps)
  ultimately show ?case
    by (simp add: funpow_swap1)
qed

lemma crc_bits_8: "(crc_bit ^^ 8) x = (crc_bit ^^ 8) (x AND 0xFF) XOR drop_bit 8 x"
proof -
  have "x = (x AND 0xFF) XOR (x AND NOT 0xFF)"
    by (rule bit_word_eqI) (auto simp: bit_simps)
  then have "(crc_bit ^^ 8) x = (crc_bit ^^ 8) (x AND 0xFF) XOR (crc_bit ^^ 8) (x AND NOT 0xFF)"
    by (metis crc_bits_xor)
  also have "(crc_bit ^^ 8) (x AND NOT 0xFF) = drop_bit 8 (x AND NOT 0xFF)"
    by (rule crc_bits_low_zero) (auto simp: mask_8 bit_simps)
  also have "drop_bit 8 (x AND NOT 0xFF) = drop_bit 8 x"
    by (rule bit_word_eqI) (auto simp: mask_8 bit_simps dest: bit_imp_le_length)
  finally show ?thesis .
qed

lemma unat_low_byte_less: "unat ((x :: u32) AND 0xFF) < 256"
proof -
  have "x AND 0xFF \<le> 0xFF" by (rule word_and_le1)
  then show ?thesis by (simp add: word_le_nat_alt)
qed

lemma unat_inverse_u32: "of_nat (unat (x :: u32)) = x"
  by simp

lemma crc_table_nth: "i < 256 \<Longrightarrow> crc_table ! i = (crc_bit ^^ 8) (of_nat i)"
  unfolding crc_table_def by (subst nth_map) (simp_all del: upt_rec_numeral funpow.simps)

lemma crc_step_bitwise: "crc_step c b = (crc_bit ^^ 8) (c XOR ucast b)"
proof -
  let ?x = "c XOR ucast b"
  have "crc_table ! unat (?x AND 0xFF) = (crc_bit ^^ 8) (?x AND 0xFF)"
    by (subst crc_table_nth) (rule unat_low_byte_less, rule arg_cong [OF unat_inverse_u32])
  moreover have "drop_bit 8 ?x = drop_bit 8 c"
    by (rule bit_word_eqI) (auto simp: bit_simps byte_bit_high)
  ultimately show ?thesis
    by (simp only: crc_step_def crc_bits_8 [of ?x])
qed

lemma foldl_crc_step: "foldl crc_step c data = foldl (\<lambda>c b. (crc_bit ^^ 8) (c XOR ucast b)) c data"
  by (simp add: crc_step_bitwise cong: foldl_cong)

text \<open>
  C23: The table-driven checksum equals the bit-serial CRC-32 on every input.
\<close>

theorem crc32_table_correct: "crc32 data = crc32_bitwise data"
  by (simp add: crc32_def crc32_bitwise_def foldl_crc_step)

section \<open>Error detection\<close>

lemma xor_right_cancel: "(a XOR c = b XOR c) = (a = (b :: u32))"
proof
  assume "a XOR c = b XOR c"
  then have "(a XOR c) XOR c = (b XOR c) XOR c" by (rule arg_cong)
  then show "a = b" by (simp only: xor.assoc xor_self_eq xor.right_neutral)
qed simp

lemma xor_left_cancel: "(c XOR a = c XOR b) = (a = (b :: u32))"
  by (simp add: xor.commute [of c] xor_right_cancel)

lemma crc_bit_top: "bit (crc_bit x) 31 = bit x 0"
proof -
  have "bit (0xEDB88320 :: u32) 31" by (simp add: bit_numeral_rec)
  moreover have "\<not> bit (drop_bit 1 x) 31"
    by (auto simp: bit_drop_bit_eq dest: bit_imp_le_length)
  ultimately show ?thesis by (simp add: crc_bit_def odd_word_iff bit_xor_iff)
qed

lemma crc_bit_inj: "crc_bit a = crc_bit b \<Longrightarrow> a = b"
proof -
  assume eq: "crc_bit a = crc_bit b"
  have low: "bit a 0 = bit b 0" using crc_bit_top [of a] crc_bit_top [of b] eq by simp
  then have "drop_bit 1 a = drop_bit 1 b"
    using eq by (simp add: crc_bit_def odd_word_iff xor_left_cancel split: if_splits)
  then have high: "bit a (Suc n) = bit b (Suc n)" for n
    using bit_drop_bit_eq [of 1 a] bit_drop_bit_eq [of 1 b] by (simp add: fun_eq_iff)
  show "a = b"
  proof (rule bit_word_eqI)
    show "bit a n = bit b n" for n using low high by (cases n) simp_all
  qed
qed

lemma crc_bits_inj: "(crc_bit ^^ n) a = (crc_bit ^^ n) b \<Longrightarrow> a = b"
  by (induction n arbitrary: a b) (auto dest: crc_bit_inj)

lemma crc_step_inj: "crc_step a b = crc_step a' b \<Longrightarrow> a = a'"
  by (auto simp: crc_step_bitwise xor_right_cancel dest: crc_bits_inj)

lemma foldl_crc_inj: "foldl crc_step a xs = foldl crc_step b xs \<Longrightarrow> a = b"
  by (induction xs arbitrary: a b) (auto dest: crc_step_inj)

text \<open>Four bytes at once: the checksum state absorbs them as one little-endian word.\<close>

lemma crc_step_shift:
  "k \<le> 24 \<Longrightarrow> (crc_bit ^^ k) x XOR ucast (b :: byte) = (crc_bit ^^ k) (x XOR push_bit k (ucast b))"
proof -
  assume k: "k \<le> 24"
  have "(crc_bit ^^ k) (push_bit k (ucast b)) = drop_bit k (push_bit k (ucast b :: u32))"
    by (rule crc_bits_low_zero) (auto simp: bit_simps)
  also have "\<dots> = ucast b"
    using k by (intro bit_word_eqI) (auto simp: bit_simps dest: bit_imp_le_length)
  finally show ?thesis by (simp add: crc_bits_xor)
qed

lemma foldl_crc_4:
  "foldl crc_step c [b0, b1, b2, b3] = (crc_bit ^^ 32) (c XOR read_le32 [b0, b1, b2, b3])"
proof -
  have join: "(crc_bit ^^ 8) ((crc_bit ^^ k) x) = (crc_bit ^^ (8 + k)) x" for k x
    by (simp only: funpow_add o_apply)
  have word: "read_le32 [b0, b1, b2, b3] =
    ucast b0 XOR (push_bit 8 (ucast b1) XOR (push_bit 16 (ucast b2) XOR push_bit 24 (ucast b3)))"
    by (rule bit_word_eqI) (auto simp: read_le32_def bit_simps dest: bit_imp_le_length byte_bit_high)
  have "foldl crc_step c [b0, b1, b2, b3] = (crc_bit ^^ 32) (c XOR ucast b0 XOR
    push_bit 8 (ucast b1) XOR push_bit 16 (ucast b2) XOR push_bit 24 (ucast b3))"
    by (simp only: foldl_Cons foldl_Nil crc_step_bitwise crc_step_shift join) (simp add: xor.assoc)
  then show ?thesis by (simp only: word xor.assoc)
qed

text \<open>
  A burst of errors within four consecutive bytes always changes the checksum. The prefix and
  the suffix of the data are arbitrary.
\<close>

lemma read_le32_inj:
  assumes "read_le32 [a0, a1, a2, a3] = read_le32 [b0, b1, b2, b3]"
  shows "[a0, a1, a2, a3] = [b0, b1, b2, b3]"
proof -
  have bits: "bit (read_le32 [x0, x1, x2, x3]) n = bit x0 n"
    "bit (read_le32 [x0, x1, x2, x3]) (8 + n) = bit x1 n"
    "bit (read_le32 [x0, x1, x2, x3]) (16 + n) = bit x2 n"
    "bit (read_le32 [x0, x1, x2, x3]) (24 + n) = bit x3 n" if "n < 8" for n x0 x1 x2 x3
    using that by (auto simp: read_le32_def bit_simps byte_bit_high)
  have "a0 = b0" "a1 = b1" "a2 = b2" "a3 = b3"
    using assms bits [of _ a0 a1 a2 a3] bits [of _ b0 b1 b2 b3]
    by (auto intro!: bit_word_eqI)
  then show ?thesis by simp
qed

lemma length_4E:
  assumes "length xs = 4"
  obtains a b c d where "xs = [a, b, c, d]"
  using assms that by (auto simp: length_Suc_conv eval_nat_numeral)

lemma crc32_burst4:
  assumes "length xs = 4" "length ys = 4" "xs \<noteq> ys"
  shows "crc32 (pre @ xs @ post) \<noteq> crc32 (pre @ ys @ post)"
proof
  assume eq: "crc32 (pre @ xs @ post) = crc32 (pre @ ys @ post)"
  obtain a0 a1 a2 a3 b0 b1 b2 b3 where *: "xs = [a0, a1, a2, a3]" "ys = [b0, b1, b2, b3]"
    using assms length_4E by metis
  let ?c = "foldl crc_step 0xFFFFFFFF pre"
  have "foldl crc_step ?c xs = foldl crc_step ?c ys"
    using eq by (auto simp: crc32_def xor_right_cancel dest: foldl_crc_inj)
  then have "read_le32 xs = read_le32 ys"
    unfolding * foldl_crc_4 by (auto simp: xor_left_cancel dest: crc_bits_inj)
  then have "xs = ys" unfolding * by (rule read_le32_inj)
  with assms show False by simp
qed

section \<open>The flat form of a frame\<close>

lemma get_le32_read: "get_le32 p = read_le32 p" "get_le16 p = read_le16 p"
  by (simp_all add: get_le32_def read_le32_def get_le16_def read_le16_def)

definition frame_header :: "u16 \<Rightarrow> u8 \<Rightarrow> u8 \<Rightarrow> u32 \<Rightarrow> bytes \<Rightarrow> bytes" where
  "frame_header cmd flags ver seq payload =
     write_le32 (of_nat (12 + length payload)) @ write_le16 cmd @ [flags, ver]
       @ write_le32 seq @ write_le32 (crc32 payload)"

lemma length_frame_header [simp]: "length (frame_header cmd flags ver seq payload) = 16"
  by (simp add: frame_header_def)

lemma zeros_16: "replicate (16 + n) (0 :: byte)
    = [0, 0, 0, 0, 0, 0, 0, 0, 0, 0, 0, 0, 0, 0, 0, 0] @ replicate n 0"
  by (simp add: replicate_add numeral_eq_Suc)

text \<open>The bytes of a word are kept folded while the frame is filled by position.\<close>

lemma put_le_bytes:
  "put_le32 p i v = p[i := write_le32 v ! 0, i + 1 := write_le32 v ! 1,
     i + 2 := write_le32 v ! 2, i + 3 := write_le32 v ! 3]"
  "put_le16 p i w = p[i := write_le16 w ! 0, i + 1 := write_le16 w ! 1]"
  by (simp_all add: put_le32_def put_le16_def write_le32_def write_le16_def)

lemma pack_eq: "pack cmd flags ver seq payload = frame_header cmd flags ver seq payload @ payload"
proof -
  obtain l0 l1 l2 l3 where l: "write_le32 (of_nat (12 + length payload)) = [l0, l1, l2, l3]"
    by (rule length_4E [OF length_write(2)])
  obtain s0 s1 s2 s3 where s: "write_le32 seq = [s0, s1, s2, s3]"
    by (rule length_4E [OF length_write(2)])
  obtain c0 c1 c2 c3 where c: "write_le32 (crc32 payload) = [c0, c1, c2, c3]"
    by (rule length_4E [OF length_write(2)])
  obtain w0 w1 where w: "write_le16 cmd = [w0, w1]"
    by (simp add: write_le16_def)
  show ?thesis
    unfolding pack_def Let_def k_header_total_def k_header_after_len_def zeros_16 put_le_bytes
      frame_header_def l s w
    using c by (cases "payload = []") (simp_all add: copy_to_def numeral_eq_Suc)
qed

lemma length_pack [simp]: "length (pack cmd flags ver seq payload) = 16 + length payload"
  by (simp add: pack_eq)

section \<open>Parsing\<close>

lemma frame_header_fields:
  "length payload < 2 ^ 32 - 12 \<Longrightarrow>
     unat (get_le32 (frame_header cmd flags ver seq payload @ rest)) = 12 + length payload"
  "get_le16 (drop 4 (frame_header cmd flags ver seq payload) @ rest) = cmd"
  "(frame_header cmd flags ver seq payload @ rest) ! 6 = flags"
  "(frame_header cmd flags ver seq payload @ rest) ! 7 = ver"
  "get_le32 (drop 8 (frame_header cmd flags ver seq payload) @ rest) = seq"
  "get_le32 (drop 12 (frame_header cmd flags ver seq payload) @ rest) = crc32 payload"
  by (simp_all add: frame_header_def get_le32_read wire_simps unat_of_nat_u32 nth_append
      del: of_nat_add of_nat_numeral)

text \<open>
  The parser on the header that belongs to \<open>payload\<close>, with a body of the same length behind it.
\<close>

lemma try_parse_frame:
  assumes "length payload \<le> 2 ^ 20 - 12" "length body = length payload"
  shows "try_parse_one (pre @ frame_header cmd flags ver seq payload @ body @ rest) (length pre) =
    Frame \<lparr>hdr_cmd = cmd, hdr_flags = flags, hdr_ver = ver, hdr_seq = seq, hdr_crc = crc32 payload\<rparr>
      body (crc32 body = crc32 payload) (length pre + 16 + length payload)"
proof -
  have len: "unat (get_le32 (frame_header cmd flags ver seq payload @ body @ rest))
      = 12 + length payload"
    using assms by (intro frame_header_fields(1)) simp
  show ?thesis
    using assms unfolding try_parse_one_def Let_def
    by (simp add: len frame_header_fields k_max_frame_bytes_def k_header_after_len_def)
qed

text \<open>
  C20: A frame that \<open>pack\<close> built from a payload within the receiver's limit, found anywhere in the
  accumulator, is parsed back: the header fields, the payload, a matching checksum, and the offset
  moved exactly behind the frame.
\<close>

theorem pack_parse_roundtrip:
  assumes "length payload \<le> k_max_frame_bytes - k_header_after_len"
  shows "try_parse_one (pre @ pack cmd flags ver seq payload @ rest) (length pre) =
    Frame \<lparr>hdr_cmd = cmd, hdr_flags = flags, hdr_ver = ver, hdr_seq = seq, hdr_crc = crc32 payload\<rparr>
      payload True (length pre + length (pack cmd flags ver seq payload))"
  using try_parse_frame [of payload payload pre cmd flags ver seq rest] assms
  by (simp add: pack_eq k_max_frame_bytes_def k_header_after_len_def add.assoc)

theorem pack_parse_roundtrip_witness:
  "try_parse_one ([7] @ pack 1 0 1 5 [104, 105] @ [9]) (length [7 :: byte]) =
    Frame \<lparr>hdr_cmd = 1, hdr_flags = 0, hdr_ver = 1, hdr_seq = 5, hdr_crc = crc32 [104, 105]\<rparr>
      [104, 105] True (length [7 :: byte] + length (pack 1 0 1 5 [104, 105]))"
  by (rule pack_parse_roundtrip) (simp add: k_max_frame_bytes_def k_header_after_len_def)

text \<open>
  C22: A frame whose payload was damaged within four consecutive bytes is still delimited
  correctly, and its checksum flag is false.
\<close>

theorem damaged_payload_detected:
  assumes "length (a @ xs @ b) \<le> k_max_frame_bytes - k_header_after_len"
    and "length xs = 4" "length ys = 4" "xs \<noteq> ys"
  shows "\<exists>hdr. try_parse_one (pre @ take k_header_total (pack cmd flags ver seq (a @ xs @ b))
      @ (a @ ys @ b) @ rest) (length pre) =
    Frame hdr (a @ ys @ b) False (length pre + length (pack cmd flags ver seq (a @ xs @ b)))"
  using try_parse_frame [of "a @ xs @ b" "a @ ys @ b" pre cmd flags ver seq rest]
    crc32_burst4 [of ys xs a b] assms
  by (simp add: pack_eq k_max_frame_bytes_def k_header_after_len_def k_header_total_def add.assoc)

theorem damaged_payload_detected_witness:
  "\<exists>hdr. try_parse_one ([] @ take k_header_total (pack 2 0 1 1 ([1] @ [2, 3, 4, 5] @ [6]))
      @ ([1] @ [2, 3, 4, 9] @ [6]) @ []) (length ([] :: bytes)) =
    Frame hdr ([1] @ [2, 3, 4, 9] @ [6]) False
      (length ([] :: bytes) + length (pack 2 0 1 1 ([1] @ [2, 3, 4, 5] @ [6])))"
  by (rule damaged_payload_detected [where pre = "[]" and rest = "[]"])
    (simp_all add: k_max_frame_bytes_def k_header_after_len_def)

lemma try_parse_one_progress:
  "try_parse_one acc off = Frame hdr payload ok off' \<Longrightarrow> off + 16 \<le> off' \<and> off' \<le> length acc"
  by (auto simp: try_parse_one_def Let_def k_header_after_len_def split: if_splits)

lemma try_parse_one_no_overrun: "off \<le> length acc \<Longrightarrow> try_parse_one acc off \<noteq> Overrun"
  by (auto simp: try_parse_one_def Let_def)

lemma try_parse_one_NoFrame:
  "try_parse_one acc off = NoFrame off' \<Longrightarrow> off' = off \<or> off' = length acc"
  by (auto simp: try_parse_one_def Let_def split: if_splits)

text \<open>
  C21: Whatever bytes arrive, the parser stays inside the accumulator: the offset it leaves never
  moves back and never passes the end, a parsed frame consumes at least the sixteen header bytes,
  and its payload lies within the consumed bytes and the size limit.
\<close>

theorem try_parse_one_safe:
  assumes "off \<le> length acc"
  shows "case try_parse_one acc off of
      NoFrame off' \<Rightarrow> off' = off \<or> off' = length acc
    | Frame hdr payload ok off' \<Rightarrow> off + k_header_total \<le> off' \<and> off' \<le> length acc
        \<and> payload = take (off' - (off + k_header_total)) (drop (off + k_header_total) acc)
        \<and> length payload \<le> k_max_frame_bytes - k_header_after_len
        \<and> ok = (crc32 payload = hdr_crc hdr)
    | Overrun \<Rightarrow> False"
  using assms
  by (auto simp: try_parse_one_def Let_def k_header_total_def k_header_after_len_def add.commute)

theorem try_parse_one_safe_witness:
  "case try_parse_one [255, 255, 255, 255, 0] 0 of
      NoFrame off' \<Rightarrow> off' = 0 \<or> off' = length [255, 255, 255, 255, 0 :: byte]
    | Frame hdr payload ok off' \<Rightarrow> 0 + k_header_total \<le> off' \<and> off' \<le> length [255, 255, 255, 255, 0 :: byte]
        \<and> payload = take (off' - (0 + k_header_total)) (drop (0 + k_header_total) [255, 255, 255, 255, 0])
        \<and> length payload \<le> k_max_frame_bytes - k_header_after_len
        \<and> ok = (crc32 payload = hdr_crc hdr)
    | Overrun \<Rightarrow> False"
  by (rule try_parse_one_safe) simp

end
