(* ===== verification/Message_Dispatcher.thy ===== *)
theory Message_Dispatcher
  imports Prelude
begin

text \<open>
  The message dispatcher (\<open>common/network/message_dispatcher.hpp\<close>): a table from message ids to
  handlers. The handler is a parameter type: what it does to the state of its owner is given by
  the component that binds it.
\<close>

record 'h message_dispatcher =
  dispatch_table :: "u16 \<rightharpoonup> 'h"

definition bind_handler :: "u16 \<Rightarrow> 'h \<Rightarrow> 'h message_dispatcher \<Rightarrow> 'h message_dispatcher" where
  "bind_handler msg_id h d = d\<lparr>dispatch_table := (dispatch_table d)(msg_id \<mapsto> h)\<rparr>"

definition unbind_handler :: "u16 \<Rightarrow> 'h message_dispatcher \<Rightarrow> 'h message_dispatcher" where
  "unbind_handler msg_id d = d\<lparr>dispatch_table := (dispatch_table d)(msg_id := None)\<rparr>"

text \<open>\<open>it->second(channel_id, data, size)\<close> acts on the state \<open>'s\<close> of the handler's owner.\<close>

definition dispatch ::
  "(int \<Rightarrow> bytes \<Rightarrow> 's \<Rightarrow> 's) message_dispatcher \<Rightarrow> u16 \<Rightarrow> int \<Rightarrow> bytes \<Rightarrow> 's \<Rightarrow> 's" where
  "dispatch d msg_id channel_id data s =
     (case dispatch_table d msg_id of Some h \<Rightarrow> h channel_id data s | None \<Rightarrow> s)"

lemma dispatch_bind:
  "dispatch (bind_handler m h d) n c data s =
     (if n = m then h c data s else dispatch d n c data s)"
  by (simp add: dispatch_def bind_handler_def)

lemma dispatch_unbind:
  "dispatch (unbind_handler m d) n c data s = (if n = m then s else dispatch d n c data s)"
  by (simp add: dispatch_def unbind_handler_def)

end
