(* ===== verification/Channel.thy ===== *)
theory Channel
  imports Frame_Codec
begin

text \<open>
  The TCP channel of the server (\<open>server/network/asio_channel.cpp\<close> and \<open>.hpp\<close>, with the base
  class \<open>common/network/socket_channel_base.hpp\<close>). The members of the class are the fields of the
  record \<open>channel\<close>. Every operation returns the new state and the calls it makes to the outside
  (asio, the handler, the callbacks) as a list of events in the order of the source.

  An asynchronous operation is split at its completion: \<open>do_write\<close> issues \<open>AsyncWrite\<close> and
  remembers the batch in \<open>in_flight\<close>, and \<open>write_handler\<close> is the completion lambda; in the same way
  \<open>read_handler\<close>, \<open>idle_handler\<close>, \<open>ping_handler\<close> and \<open>stats_handler\<close> are the other lambdas. The
  granularity is one handler or one public call at a time.
\<close>

section \<open>State and events\<close>

datatype close_function =
  CF_none | CF_write | CF_read | CF_timeout | CF_protocol_error | CF_remote_closed | CF_force_closed

datatype chan_event =
    AsyncRead
  | AsyncWrite bytes nat
  | HandlerAccept int
  | HandlerClose int close_function
  | CloseCallback close_function
  | PostShutdown
  | OnFrame int u16 bytes
  | ArmIdleTimer
  | ArmPingTimer
  | ArmStatsTimer
  | OutOfBoundsRead

record channel =
  channel_id :: int
  has_handler :: bool
  has_close_callback :: bool
  has_on_frame :: bool
  base_closed :: bool
  max_queue_bytes :: u64
  current_queue_bytes :: u64
  closed :: bool
  writing :: bool
  enq_msgs :: u64
  deq_msgs :: u64
  drops :: u64
  force_closes :: u64
  bytes_sent :: u64
  peak_queued :: u64
  last_recv_ms :: u64
  last_send_ms :: u64
  write_queue :: "bytes list"
  frame_acc :: bytes
  frame_acc_offset :: nat
  idle_limit_ms :: u64
  in_flight :: "(bytes \<times> nat) option"

definition new_channel :: "int \<Rightarrow> bool \<Rightarrow> bool \<Rightarrow> bool \<Rightarrow> channel" where
  "new_channel cid handler close_cb frame_cb =
    \<lparr>channel_id = cid, has_handler = handler, has_close_callback = close_cb,
     has_on_frame = frame_cb, base_closed = False, max_queue_bytes = 256 * 1024,
     current_queue_bytes = 0, closed = False, writing = False, enq_msgs = 0, deq_msgs = 0,
     drops = 0, force_closes = 0, bytes_sent = 0, peak_queued = 0, last_recv_ms = 0,
     last_send_ms = 0, write_queue = [], frame_acc = [], frame_acc_offset = 0,
     idle_limit_ms = 30000, in_flight = None\<rparr>"

text \<open>\<open>socket_channel_base::is_closed\<close> reads the member of the base class.\<close>

definition is_closed :: "channel \<Rightarrow> bool" where
  "is_closed ch = base_closed ch"

section \<open>Closing\<close>

definition on_close :: "channel \<Rightarrow> close_function \<Rightarrow> chan_event list" where
  "on_close ch reason =
     (if has_handler ch then [HandlerClose (channel_id ch) reason] else [])
     @ (if has_close_callback ch then [CloseCallback reason] else [])"

definition close :: "channel \<Rightarrow> close_function \<Rightarrow> channel \<times> chan_event list \<times> bool" where
  "close ch reason =
    (if closed ch then (ch, [], False)
     else let ch = ch\<lparr>closed := True\<rparr>;
              ch = (if reason = CF_force_closed then ch\<lparr>force_closes := force_closes ch + 1\<rparr> else ch)
          in (ch, PostShutdown # on_close ch reason, True))"

section \<open>Sending\<close>

definition enqueue_send :: "channel \<Rightarrow> bytes \<Rightarrow> channel \<times> bool" where
  "enqueue_send ch buffer =
    (let sz = of_nat (length buffer) in
     if sz = 0 then (ch, True)
     else let cur = current_queue_bytes ch in
     if cur + sz > max_queue_bytes ch then (ch\<lparr>drops := drops ch + 1\<rparr>, False)
     else let ch = ch\<lparr>write_queue := write_queue ch @ [buffer]\<rparr>;
              ch = ch\<lparr>current_queue_bytes := cur + sz\<rparr>;
              ch = ch\<lparr>enq_msgs := enq_msgs ch + 1\<rparr>;
              new_total = cur + sz;
              ch = (if new_total > peak_queued ch then ch\<lparr>peak_queued := new_total\<rparr> else ch)
          in (ch, True))"

definition k_max_batch_bytes :: nat where
  "k_max_batch_bytes = 64 * 1024"

definition k_max_batch_msgs :: nat where
  "k_max_batch_msgs = 64"

text \<open>The loop of \<open>make_batch_\<close>: the remaining queue, \<open>out\<close> and \<open>out_msgs\<close>.\<close>

fun batch_loop :: "bytes list \<Rightarrow> nat \<Rightarrow> bytes \<Rightarrow> nat \<Rightarrow> bytes list \<times> bytes \<times> nat" where
  "batch_loop [] acc out out_msgs = ([], out, out_msgs)"
| "batch_loop (front # queue) acc out out_msgs =
    (if \<not> out_msgs < k_max_batch_msgs then (front # queue, out, out_msgs)
     else if acc + length front > k_max_batch_bytes then (front # queue, out, out_msgs)
     else batch_loop queue (acc + length front) (out @ front) (out_msgs + 1))"

definition make_batch :: "channel \<Rightarrow> channel \<times> bytes \<times> nat \<times> bool" where
  "make_batch ch =
    (if write_queue ch = [] then (ch, [], 0, False)
     else let (queue, out, out_msgs) = batch_loop (write_queue ch) 0 [] 0
          in (ch\<lparr>write_queue := queue\<rparr>, out, out_msgs, out_msgs > 0))"

definition do_write :: "channel \<Rightarrow> channel \<times> chan_event list" where
  "do_write ch =
    (let (ch, buffer, batch_msgs, ok) = make_batch ch in
     if \<not> ok then (ch\<lparr>writing := False\<rparr>, [])
     else (ch\<lparr>in_flight := Some (buffer, batch_msgs)\<rparr>, [AsyncWrite buffer batch_msgs]))"

text \<open>\<open>if (writing_.compare_exchange_strong(expected, true)) do_write();\<close>\<close>

definition kick_write :: "channel \<Rightarrow> channel \<times> chan_event list" where
  "kick_write ch = (if writing ch then (ch, []) else do_write (ch\<lparr>writing := True\<rparr>))"

definition send :: "channel \<Rightarrow> bytes \<Rightarrow> int \<Rightarrow> channel \<times> chan_event list" where
  "send ch data sz =
    (if closed ch \<or> sz \<le> 0 then (ch, [])
     else let (ch, queued) = enqueue_send ch (take (nat sz) data) in
     if \<not> queued then
       let ch = ch\<lparr>force_closes := force_closes ch + 1\<rparr>;
           (ch, evs, _) = close ch CF_force_closed
       in (ch, evs)
     else kick_write ch)"

definition write_handler :: "channel \<Rightarrow> bool \<Rightarrow> nat \<Rightarrow> u64 \<Rightarrow> channel \<times> chan_event list" where
  "write_handler ch ec n now =
    (case in_flight ch of
       None \<Rightarrow> (ch, [])
     | Some (buffer, batch_msgs) \<Rightarrow>
        let ch = ch\<lparr>in_flight := None\<rparr> in
        if ec then let (ch, evs, _) = close ch CF_write in (ch, evs)
        else let ch = ch\<lparr>current_queue_bytes := current_queue_bytes ch - of_nat n\<rparr>;
                 ch = ch\<lparr>deq_msgs := deq_msgs ch + of_nat batch_msgs\<rparr>;
                 ch = ch\<lparr>bytes_sent := bytes_sent ch + of_nat n\<rparr>;
                 ch = ch\<lparr>last_send_ms := now\<rparr>;
                 ch = ch\<lparr>writing := False\<rparr>
             in if write_queue ch \<noteq> [] then kick_write ch else (ch, []))"

section \<open>Receiving\<close>

function parse_loop :: "channel \<Rightarrow> channel \<times> chan_event list" where
  "parse_loop ch =
    (case try_parse_one (frame_acc ch) (frame_acc_offset ch) of
       NoFrame off \<Rightarrow> (ch\<lparr>frame_acc_offset := off\<rparr>, [])
     | Frame hdr payload crc_ok off \<Rightarrow>
         let ch = ch\<lparr>frame_acc_offset := off\<rparr> in
         if \<not> crc_ok then parse_loop (ch\<lparr>drops := drops ch + 1\<rparr>)
         else let (ch', evs) = parse_loop ch
              in (ch', (if has_on_frame ch then [OnFrame (channel_id ch) (hdr_cmd hdr) payload] else [])
                       @ evs)
     | Overrun \<Rightarrow> (ch, [OutOfBoundsRead]))"
  by pat_completeness auto
termination
  by (relation "measure (\<lambda>ch. length (frame_acc ch) - frame_acc_offset ch)")
    (auto dest!: try_parse_one_progress)

declare parse_loop.simps [simp del]

definition parse_frames :: "channel \<Rightarrow> channel \<times> chan_event list" where
  "parse_frames ch =
    (let (ch, evs) = parse_loop ch in
     if frame_acc_offset ch > length (frame_acc ch) div 2
     then (ch\<lparr>frame_acc := drop (frame_acc_offset ch) (frame_acc ch), frame_acc_offset := 0\<rparr>, evs)
     else (ch, evs))"

definition read_handler :: "channel \<Rightarrow> bool \<Rightarrow> bytes \<Rightarrow> channel \<times> chan_event list" where
  "read_handler ch ec data =
    (if ec then let (ch, evs, _) = close ch CF_read in (ch, evs)
     else let ch = ch\<lparr>frame_acc := frame_acc ch @ data\<rparr>;
              (ch, evs) = parse_frames ch
          in (ch, evs @ [AsyncRead]))"

section \<open>Timers and start\<close>

definition idle_handler :: "channel \<Rightarrow> bool \<Rightarrow> u64 \<Rightarrow> channel \<times> chan_event list" where
  "idle_handler ch ec now =
    (if ec \<or> closed ch then (ch, [])
     else let idle_ms = now - last_recv_ms ch; limit_ms = idle_limit_ms ch in
     if idle_ms \<ge> limit_ms then let (ch, evs, _) = close ch CF_timeout in (ch, evs)
     else (ch, [ArmIdleTimer]))"

definition send_ping :: "channel \<Rightarrow> channel \<times> chan_event list" where
  "send_ping ch = (let pkt = pack 1 0 k_proto_ver 0 [] in send ch pkt (int (length pkt)))"

definition ping_handler :: "channel \<Rightarrow> bool \<Rightarrow> channel \<times> chan_event list" where
  "ping_handler ch ec =
    (if ec \<or> closed ch then (ch, [])
     else let (ch, evs) = send_ping ch in (ch, evs @ [ArmPingTimer]))"

definition stats_handler :: "channel \<Rightarrow> bool \<Rightarrow> channel \<times> chan_event list" where
  "stats_handler ch ec = (if ec \<or> closed ch then (ch, []) else (ch, [ArmStatsTimer]))"

definition start :: "channel \<Rightarrow> u64 \<Rightarrow> channel \<times> chan_event list" where
  "start ch now =
    (let ch = ch\<lparr>closed := False, writing := False, frame_acc := [], frame_acc_offset := 0,
                 current_queue_bytes := 0, peak_queued := 0, enq_msgs := 0, deq_msgs := 0,
                 bytes_sent := 0, last_recv_ms := now, last_send_ms := now\<rparr>
     in (ch, [AsyncRead] @ (if has_handler ch then [HandlerAccept (channel_id ch)] else [])
             @ [ArmIdleTimer, ArmPingTimer, ArmStatsTimer]))"

section \<open>Batching\<close>

lemma batch_loop_spec:
  assumes "batch_loop queue acc out n = (queue', out', n')" "n \<le> 64" "acc \<le> 65536"
  shows "\<exists>taken. queue = taken @ queue' \<and> out' = out @ concat taken \<and> n' = n + length taken
    \<and> n' \<le> 64 \<and> acc + length (concat taken) \<le> 65536
    \<and> (queue' \<noteq> [] \<longrightarrow> n' = 64 \<or> acc + length (concat taken) + length (hd queue') > 65536)"
  using assms
proof (induction queue acc out n rule: batch_loop.induct)
  case (1 acc out n)
  then show ?case by simp
next
  case (2 front queue acc out n)
  show ?case
  proof (cases "n < 64 \<and> acc + length front \<le> 65536")
    case True
    then obtain taken where *: "queue = taken @ queue'" "out' = (out @ front) @ concat taken"
      "n' = n + 1 + length taken" "n' \<le> 64" "acc + length front + length (concat taken) \<le> 65536"
      "queue' \<noteq> [] \<longrightarrow> n' = 64 \<or> acc + length front + length (concat taken) + length (hd queue') > 65536"
      using 2 by (auto simp: k_max_batch_msgs_def k_max_batch_bytes_def split: if_splits)
    then show ?thesis by (intro exI [of _ "front # taken"]) auto
  next
    case False
    then show ?thesis
      using 2 by (auto simp: k_max_batch_msgs_def k_max_batch_bytes_def split: if_splits)
  qed
qed

text \<open>
  One batch takes a prefix of the queue in order, at most 64 messages and 64 KiB, and as much
  as these two limits allow.
\<close>

lemma make_batch_prefix:
  "case make_batch ch of (ch', out, n, ok) \<Rightarrow>
     (\<exists>taken. write_queue ch = taken @ write_queue ch' \<and> out = concat taken \<and> n = length taken
        \<and> n \<le> k_max_batch_msgs \<and> length out \<le> k_max_batch_bytes \<and> ok = (taken \<noteq> [])
        \<and> (write_queue ch' = [] \<or> n = k_max_batch_msgs
            \<or> length out + length (hd (write_queue ch')) > k_max_batch_bytes))
     \<and> ch' = ch\<lparr>write_queue := write_queue ch'\<rparr>"
proof -
  obtain queue out n where *: "batch_loop (write_queue ch) 0 [] 0 = (queue, out, n)"
    using prod_cases3 by blast
  show ?thesis
    using batch_loop_spec [OF *]
    by (auto simp: make_batch_def * k_max_batch_msgs_def k_max_batch_bytes_def)
qed

section \<open>The write side\<close>

definition inflight_bytes :: "channel \<Rightarrow> bytes" where
  "inflight_bytes ch = (case in_flight ch of None \<Rightarrow> [] | Some (b, _) \<Rightarrow> b)"

definition pending_bytes :: "channel \<Rightarrow> bytes" where
  "pending_bytes ch = inflight_bytes ch @ concat (write_queue ch)"

text \<open>A write that failed leaves \<open>writing_\<close> set with nothing in flight.\<close>

definition write_failed :: "channel \<Rightarrow> bool" where
  "write_failed ch \<longleftrightarrow> writing ch \<and> in_flight ch = None"

text \<open>The head of the queue exceeds the batch limit: no batch can take it.\<close>

definition head_too_big :: "channel \<Rightarrow> bool" where
  "head_too_big ch \<longleftrightarrow> write_queue ch \<noteq> [] \<and> length (hd (write_queue ch)) > k_max_batch_bytes"

definition write_inv :: "channel \<Rightarrow> bool" where
  "write_inv ch \<longleftrightarrow>
     max_queue_bytes ch = 256 * 1024
   \<and> current_queue_bytes ch \<le> max_queue_bytes ch
   \<and> length (pending_bytes ch) \<le> unat (current_queue_bytes ch)
   \<and> (\<not> write_failed ch \<longrightarrow> unat (current_queue_bytes ch) = length (pending_bytes ch))
   \<and> (in_flight ch = None \<or> writing ch)
   \<and> (write_failed ch \<longrightarrow> closed ch)
   \<and> (\<not> writing ch \<longrightarrow> write_queue ch = [] \<or> head_too_big ch)"

lemma close_state:
  "fst (close ch reason) = (if closed ch then ch else
     ch\<lparr>closed := True,
       force_closes := (if reason = CF_force_closed then force_closes ch + 1 else force_closes ch)\<rparr>)"
  by (auto simp: close_def Let_def)

lemma fst_case_triple [simp]: "fst (case p of (ch, evs, b) \<Rightarrow> (ch, evs)) = fst p"
  by (simp split: prod.splits)

lemma do_write_state:
  assumes "writing ch" "in_flight ch = None"
  obtains queue infl wr where
    "fst (do_write ch) = ch\<lparr>write_queue := queue, in_flight := infl, writing := wr\<rparr>"
    "pending_bytes (fst (do_write ch)) = concat (write_queue ch)"
    "wr = (infl \<noteq> None)" "wr \<or> queue = [] \<or> length (hd queue) > k_max_batch_bytes"
proof -
  obtain queue out n where loop: "batch_loop (write_queue ch) 0 [] 0 = (queue, out, n)"
    using prod_cases3 by blast
  obtain taken where t: "write_queue ch = taken @ queue" "out = concat taken" "n = length taken"
    "queue \<noteq> [] \<longrightarrow> n = 64 \<or> length (concat taken) + length (hd queue) > 65536"
    using batch_loop_spec [OF loop] by auto
  show thesis
  proof (cases "taken = []")
    case True
    then have "fst (do_write ch) = ch\<lparr>write_queue := queue, in_flight := None, writing := False\<rparr>"
      using t loop assms by (auto simp: do_write_def make_batch_def)
    with True t loop assms show ?thesis
      by (intro that [where queue = queue and infl = None and wr = False])
        (auto simp: pending_bytes_def inflight_bytes_def k_max_batch_bytes_def do_write_def make_batch_def)
  next
    case False
    then have "fst (do_write ch) = ch\<lparr>write_queue := queue, in_flight := Some (out, n), writing := True\<rparr>"
      using t loop assms by (auto simp: do_write_def make_batch_def)
    with False t loop assms show ?thesis
      by (intro that [where queue = queue and infl = "Some (out, n)" and wr = True])
        (auto simp: pending_bytes_def inflight_bytes_def do_write_def make_batch_def)
  qed
qed

lemma write_inv_do_write:
  assumes "writing ch" "in_flight ch = None" "max_queue_bytes ch = 256 * 1024"
    and "current_queue_bytes ch \<le> max_queue_bytes ch"
    and "unat (current_queue_bytes ch) = length (concat (write_queue ch))"
  shows "write_inv (fst (do_write ch)) \<and> pending_bytes (fst (do_write ch)) = concat (write_queue ch)"
proof -
  obtain queue infl wr where
    *: "fst (do_write ch) = ch\<lparr>write_queue := queue, in_flight := infl, writing := wr\<rparr>"
    "pending_bytes (fst (do_write ch)) = concat (write_queue ch)"
    "wr = (infl \<noteq> None)" "wr \<or> queue = [] \<or> length (hd queue) > k_max_batch_bytes"
    using assms(1,2) by (rule do_write_state)
  with assms show ?thesis
    unfolding write_inv_def *(2) by (auto simp: write_failed_def head_too_big_def)
qed

lemma write_inv_kick_write:
  assumes "max_queue_bytes ch = 256 * 1024" "current_queue_bytes ch \<le> max_queue_bytes ch"
    and "unat (current_queue_bytes ch) = length (pending_bytes ch)"
    and "in_flight ch \<noteq> None \<longleftrightarrow> writing ch"
  shows "write_inv (fst (kick_write ch)) \<and> pending_bytes (fst (kick_write ch)) = pending_bytes ch"
proof (cases "writing ch")
  case True
  with assms show ?thesis by (auto simp: kick_write_def write_inv_def write_failed_def)
next
  case False
  with assms have [simp]: "in_flight ch = None" by blast
  then have [simp]: "pending_bytes ch = concat (write_queue ch)"
    by (simp add: pending_bytes_def inflight_bytes_def)
  show ?thesis
    using write_inv_do_write [of "ch\<lparr>writing := True\<rparr>"] assms False by (simp add: kick_write_def)
qed

text \<open>Fields the write side does not look at.\<close>

lemma write_side_frame [simp]:
  "pending_bytes (ch\<lparr>frame_acc := a\<rparr>) = pending_bytes ch"
  "pending_bytes (ch\<lparr>frame_acc_offset := n\<rparr>) = pending_bytes ch"
  "pending_bytes (ch\<lparr>drops := d\<rparr>) = pending_bytes ch"
  "pending_bytes (ch\<lparr>force_closes := d\<rparr>) = pending_bytes ch"
  "pending_bytes (ch\<lparr>closed := b\<rparr>) = pending_bytes ch"
  "write_inv (ch\<lparr>frame_acc := a\<rparr>) = write_inv ch"
  "write_inv (ch\<lparr>frame_acc_offset := n\<rparr>) = write_inv ch"
  "write_inv (ch\<lparr>drops := d\<rparr>) = write_inv ch"
  "write_inv (ch\<lparr>force_closes := d\<rparr>) = write_inv ch"
  by (simp_all add: write_inv_def pending_bytes_def inflight_bytes_def write_failed_def
      head_too_big_def)

lemma write_inv_close: "write_inv ch \<Longrightarrow> write_inv (fst (close ch reason))"
  by (auto simp: close_state write_inv_def pending_bytes_def inflight_bytes_def
      write_failed_def head_too_big_def)

lemma pending_close [simp]: "pending_bytes (fst (close ch reason)) = pending_bytes ch"
  by (simp add: close_state)

lemma parse_loop_state:
  "\<exists>off d. fst (parse_loop ch) = ch\<lparr>frame_acc_offset := off, drops := d\<rparr>"
proof (induction ch rule: parse_loop.induct)
  case (1 ch)
  show ?case
  proof (cases "try_parse_one (frame_acc ch) (frame_acc_offset ch)")
    case (NoFrame off)
    then have "fst (parse_loop ch) = ch\<lparr>frame_acc_offset := off, drops := drops ch\<rparr>"
      by (subst parse_loop.simps) simp
    then show ?thesis by blast
  next
    case (Frame hdr payload ok off)
    then show ?thesis
      using 1 [OF Frame refl] by (subst parse_loop.simps) (auto simp: Let_def split: prod.splits)
  next
    case Overrun
    then have "fst (parse_loop ch) = ch\<lparr>frame_acc_offset := frame_acc_offset ch, drops := drops ch\<rparr>"
      by (subst parse_loop.simps) simp
    then show ?thesis by blast
  qed
qed

lemma read_handler_state:
  "fst (read_handler ch False data) =
     ch\<lparr>frame_acc := frame_acc (fst (read_handler ch False data)),
       frame_acc_offset := frame_acc_offset (fst (read_handler ch False data)),
       drops := drops (fst (read_handler ch False data))\<rparr>"
proof -
  obtain off d evs where *: "parse_loop (ch\<lparr>frame_acc := frame_acc ch @ data\<rparr>) =
      (ch\<lparr>frame_acc := frame_acc ch @ data, frame_acc_offset := off, drops := d\<rparr>, evs)"
    using parse_loop_state [of "ch\<lparr>frame_acc := frame_acc ch @ data\<rparr>"] by (metis prod.collapse)
  show ?thesis
    by (auto simp: read_handler_def parse_frames_def * Let_def)
qed

lemma read_handler_fields [simp]:
  "writing (fst (read_handler ch ec data)) = writing ch"
  "in_flight (fst (read_handler ch ec data)) = in_flight ch"
  "write_queue (fst (read_handler ch ec data)) = write_queue ch"
  "last_recv_ms (fst (read_handler ch ec data)) = last_recv_ms ch"
  "idle_limit_ms (fst (read_handler ch ec data)) = idle_limit_ms ch"
  "base_closed (fst (read_handler ch ec data)) = base_closed ch"
  using read_handler_state [of ch data, THEN arg_cong, of writing]
    read_handler_state [of ch data, THEN arg_cong, of in_flight]
    read_handler_state [of ch data, THEN arg_cong, of write_queue]
    read_handler_state [of ch data, THEN arg_cong, of last_recv_ms]
    read_handler_state [of ch data, THEN arg_cong, of idle_limit_ms]
    read_handler_state [of ch data, THEN arg_cong, of base_closed]
  by (cases ec; simp add: read_handler_def [of ch True] close_state)+

lemma write_inv_read_handler:
  "write_inv ch \<Longrightarrow> write_inv (fst (read_handler ch ec data))
     \<and> pending_bytes (fst (read_handler ch ec data)) = pending_bytes ch"
  using arg_cong [OF read_handler_state [of ch data], of write_inv]
    arg_cong [OF read_handler_state [of ch data], of pending_bytes]
  by (cases ec) (simp_all add: read_handler_def [of ch True] write_inv_close)

text \<open>The bytes of a \<open>send\<close> that enter the queue.\<close>

definition accepted_bytes :: "channel \<Rightarrow> bytes \<Rightarrow> int \<Rightarrow> bytes" where
  "accepted_bytes ch data sz =
    (if closed ch \<or> sz \<le> 0 \<or> \<not> snd (enqueue_send ch (take (nat sz) data)) then []
     else take (nat sz) data)"

lemma unat_add_bounded:
  "unat (cur :: u64) \<le> 262144 \<Longrightarrow> k < 2 ^ 31 \<Longrightarrow> unat (cur + of_nat k) = unat cur + k"
  by (subst unat_add_lem [THEN iffD1]) (simp_all add: unat_of_nat_u64)

lemma write_inv_send:
  assumes inv: "write_inv ch" and sz: "sz < 2 ^ 31" "sz \<le> int (length data)"
  shows "write_inv (fst (send ch data sz))
    \<and> pending_bytes (fst (send ch data sz)) = pending_bytes ch @ accepted_bytes ch data sz"
proof (cases "closed ch \<or> sz \<le> 0")
  case True
  then show ?thesis using inv by (auto simp: send_def accepted_bytes_def)
next
  case False
  define buf where "buf = take (nat sz) data"
  have buf: "length buf < 2 ^ 31" "length buf \<noteq> 0"
    using False sz by (auto simp: buf_def)
  have nz: "(of_nat (length buf) :: u64) \<noteq> 0"
    using buf unat_of_nat_u64 [of "length buf"] by auto
  show ?thesis
  proof (cases "current_queue_bytes ch + of_nat (length buf) > max_queue_bytes ch")
    case True
    then show ?thesis using inv False nz
      by (auto simp: send_def accepted_bytes_def enqueue_send_def Let_def write_inv_close
          simp flip: buf_def)
  next
    case small: False
    define ch1 where "ch1 = fst (enqueue_send ch buf)"
    have ch1: "enqueue_send ch buf = (ch1, True)" "max_queue_bytes ch1 = max_queue_bytes ch"
      "current_queue_bytes ch1 = current_queue_bytes ch + of_nat (length buf)"
      "write_queue ch1 = write_queue ch @ [buf]" "in_flight ch1 = in_flight ch"
      "writing ch1 = writing ch"
      using nz small by (auto simp: ch1_def enqueue_send_def Let_def)
    have pend: "pending_bytes ch1 = pending_bytes ch @ buf"
      by (simp add: pending_bytes_def inflight_bytes_def ch1)
    have cur: "unat (current_queue_bytes ch) \<le> 262144" "\<not> write_failed ch"
      "unat (current_queue_bytes ch) = length (pending_bytes ch)" "in_flight ch \<noteq> None \<longleftrightarrow> writing ch"
      using inv False by (auto simp: write_inv_def word_le_nat_alt write_failed_def)
    have "write_inv (fst (kick_write ch1)) \<and> pending_bytes (fst (kick_write ch1)) = pending_bytes ch1"
      using inv small cur buf unat_add_bounded [OF cur(1) buf(1)]
      by (intro write_inv_kick_write) (auto simp: ch1 pend write_inv_def)
    moreover have "fst (send ch data sz) = fst (kick_write ch1)"
      using False ch1 by (simp add: send_def flip: buf_def)
    ultimately show ?thesis
      using False ch1 pend by (simp add: accepted_bytes_def flip: buf_def)
  qed
qed

lemma write_inv_write_ok:
  assumes inv: "write_inv ch" and fl: "in_flight ch = Some (buffer, n)"
  shows "write_inv (fst (write_handler ch False (length buffer) now))
    \<and> pending_bytes ch = buffer @ pending_bytes (fst (write_handler ch False (length buffer) now))"
proof -
  define ch1 where "ch1 = ch\<lparr>in_flight := None,
    current_queue_bytes := current_queue_bytes ch - of_nat (length buffer),
    deq_msgs := deq_msgs ch + of_nat n, bytes_sent := bytes_sent ch + of_nat (length buffer),
    last_send_ms := now, writing := False\<rparr>"
  have res: "fst (write_handler ch False (length buffer) now) =
      (if write_queue ch \<noteq> [] then fst (kick_write ch1) else ch1)"
    using fl by (simp add: write_handler_def ch1_def Let_def)
  have cur: "unat (current_queue_bytes ch) = length (pending_bytes ch)"
    "unat (current_queue_bytes ch) \<le> 262144" "max_queue_bytes ch = 262144"
    using inv fl by (auto simp: write_inv_def write_failed_def word_le_nat_alt)
  have pend: "pending_bytes ch = buffer @ pending_bytes ch1"
    using fl by (simp add: pending_bytes_def inflight_bytes_def ch1_def)
  have small: "unat (of_nat (length buffer) :: u64) = length buffer"
    using cur pend by (intro unat_of_nat_u64) simp
  then have "(of_nat (length buffer) :: u64) \<le> current_queue_bytes ch"
    using cur pend by (simp add: word_le_nat_alt)
  then have cur1: "unat (current_queue_bytes ch1) = length (pending_bytes ch1)"
    using small cur pend by (simp add: unat_sub ch1_def)
  then have le: "current_queue_bytes ch1 \<le> 262144"
    using cur pend by (simp add: word_le_nat_alt)
  have idle: "in_flight ch1 = None" "\<not> writing ch1" "max_queue_bytes ch1 = 262144"
    "write_queue ch1 = write_queue ch"
    using cur by (simp_all add: ch1_def)
  show ?thesis
  proof (cases "write_queue ch = []")
    case True
    then show ?thesis
      using cur1 le idle pend res by (auto simp: write_inv_def write_failed_def)
  next
    case False
    have "write_inv (fst (kick_write ch1)) \<and> pending_bytes (fst (kick_write ch1)) = pending_bytes ch1"
      using cur1 le idle by (intro write_inv_kick_write) auto
    then show ?thesis using False pend res by simp
  qed
qed

lemma write_inv_write_err:
  assumes "write_inv ch" "in_flight ch = Some (buffer, n)"
  shows "write_inv (fst (write_handler ch True m now)) \<and> write_failed (fst (write_handler ch True m now))"
  using assms
  by (auto simp: write_handler_def close_state write_inv_def write_failed_def pending_bytes_def
      inflight_bytes_def)

lemma write_inv_timers:
  assumes "write_inv ch"
  shows "write_inv (fst (idle_handler ch ec now)) \<and> pending_bytes (fst (idle_handler ch ec now)) = pending_bytes ch"
    and "write_inv (fst (stats_handler ch ec)) \<and> pending_bytes (fst (stats_handler ch ec)) = pending_bytes ch"
  using assms by (auto simp: idle_handler_def stats_handler_def write_inv_close Let_def)

lemma write_inv_ping:
  assumes "write_inv ch"
  shows "write_inv (fst (ping_handler ch ec)) \<and> pending_bytes (fst (ping_handler ch ec)) =
    pending_bytes ch @ (if ec then [] else accepted_bytes ch (pack 1 0 k_proto_ver 0 []) 16)"
  using write_inv_send [OF assms, of 16 "pack 1 0 k_proto_ver 0 []"] assms
  by (auto simp: ping_handler_def send_ping_def Let_def accepted_bytes_def split: prod.splits)

lemma write_inv_start: "write_inv (fst (start (new_channel c h cb f) now))"
  by (simp add: start_def new_channel_def Let_def write_inv_def pending_bytes_def
      inflight_bytes_def write_failed_def)

section \<open>Executions\<close>

text \<open>
  \<open>chan_reach t0 ch wire acc\<close>: a channel started at \<open>t0\<close> gets to the state \<open>ch\<close> by calls of
  \<open>send\<close> and \<open>close\<close> and by completions of its asynchronous operations, in any order; \<open>wire\<close> are
  the bytes of the completed writes and \<open>acc\<close> the bytes that \<open>send\<close> accepted. The contract of
  \<open>asio::async_write\<close> is in the rule \<open>write_ok\<close>: a write without an error has transferred the
  whole buffer. The data pointer passed to \<open>send\<close> covers \<open>size\<close> bytes, and \<open>size\<close> is an \<open>int\<close>.
\<close>

inductive chan_reach :: "u64 \<Rightarrow> channel \<Rightarrow> bytes \<Rightarrow> bytes \<Rightarrow> bool" where
  started: "chan_reach t0 (fst (start (new_channel c h cb f) t0)) [] []"
| sent: "chan_reach t0 ch wire acc \<Longrightarrow> sz < 2 ^ 31 \<Longrightarrow> sz \<le> int (length data) \<Longrightarrow>
    chan_reach t0 (fst (send ch data sz)) wire (acc @ accepted_bytes ch data sz)"
| write_ok: "chan_reach t0 ch wire acc \<Longrightarrow> in_flight ch = Some (buffer, n) \<Longrightarrow>
    chan_reach t0 (fst (write_handler ch False (length buffer) now)) (wire @ buffer) acc"
| write_err: "chan_reach t0 ch wire acc \<Longrightarrow> in_flight ch = Some (buffer, n) \<Longrightarrow>
    chan_reach t0 (fst (write_handler ch True m now)) wire acc"
| received: "chan_reach t0 ch wire acc \<Longrightarrow> chan_reach t0 (fst (read_handler ch ec data)) wire acc"
| idle: "chan_reach t0 ch wire acc \<Longrightarrow> chan_reach t0 (fst (idle_handler ch ec now)) wire acc"
| ping: "chan_reach t0 ch wire acc \<Longrightarrow> chan_reach t0 (fst (ping_handler ch ec)) wire
    (acc @ (if ec then [] else accepted_bytes ch (pack 1 0 k_proto_ver 0 []) 16))"
| stats: "chan_reach t0 ch wire acc \<Longrightarrow> chan_reach t0 (fst (stats_handler ch ec)) wire acc"
| closed_by: "chan_reach t0 ch wire acc \<Longrightarrow> chan_reach t0 (fst (close ch reason)) wire acc"

lemma chan_reach_write_inv: "chan_reach t0 ch wire acc \<Longrightarrow> write_inv ch"
  by (induction rule: chan_reach.induct)
    (simp_all add: write_inv_start write_inv_send write_inv_write_ok write_inv_write_err
      write_inv_read_handler write_inv_timers write_inv_ping write_inv_close)


definition demo_channel :: channel where
  "demo_channel = fst (send (fst (start (new_channel 1 True True True) 5)) [1, 2, 3] 3)"

lemma demo_reach:
  "chan_reach 5 demo_channel []
     ([] @ accepted_bytes (fst (start (new_channel 1 True True True) 5)) [1, 2, 3] 3)"
  unfolding demo_channel_def by (intro chan_reach.intros) simp_all


lemma chan_reach_fifo:
  assumes "chan_reach t0 ch wire acc"
  shows "acc = wire @ pending_bytes ch \<or> write_failed ch \<and> (\<exists>lost. acc = wire @ lost)"
  using assms
proof (induction rule: chan_reach.induct)
  case (started t0 c h cb f)
  then show ?case by (simp add: start_def new_channel_def Let_def pending_bytes_def inflight_bytes_def)
next
  case (sent t0 ch wire acc sz data)
  have inv: "write_inv ch" using sent.hyps(1) by (rule chan_reach_write_inv)
  have "fst (send ch data sz) = ch \<and> accepted_bytes ch data sz = []" if "write_failed ch"
    using inv that by (auto simp: write_inv_def send_def accepted_bytes_def)
  then show ?case
    using sent.IH write_inv_send [OF inv sent.hyps(2,3)] by auto
next
  case (write_ok t0 ch wire acc buffer n now)
  have "\<not> write_failed ch" using write_ok.hyps(2) by (simp add: write_failed_def)
  then show ?case
    using write_ok.IH write_inv_write_ok [OF chan_reach_write_inv, OF write_ok.hyps(1,2)] by auto
next
  case (write_err t0 ch wire acc buffer n m now)
  then show ?case
    using write_inv_write_err [OF chan_reach_write_inv, OF write_err.hyps(1,2)] by auto
next
  case (received t0 ch wire acc ec data)
  have "write_inv ch" using received.hyps by (rule chan_reach_write_inv)
  moreover have "write_failed (fst (read_handler ch ec data))" if "write_failed ch"
    using that by (simp add: write_failed_def)
  ultimately show ?case using received.IH write_inv_read_handler [of ch ec data] by auto
next
  case (idle t0 ch wire acc ec now)
  then show ?case
    using write_inv_timers(1) [OF chan_reach_write_inv, OF idle.hyps]
    by (auto simp: idle_handler_def close_state write_failed_def Let_def)
next
  case (ping t0 ch wire acc ec)
  have inv: "write_inv ch" using ping.hyps by (rule chan_reach_write_inv)
  have "fst (ping_handler ch ec) = ch \<and> accepted_bytes ch d 16 = []" if "write_failed ch" for d
    using inv that by (auto simp: write_inv_def ping_handler_def accepted_bytes_def)
  then show ?case using ping.IH write_inv_ping [OF inv, of ec] by auto
next
  case (stats t0 ch wire acc ec)
  then show ?case by (simp add: stats_handler_def)
next
  case (closed_by t0 ch wire acc reason)
  then show ?case by (auto simp: close_state write_failed_def)
qed



section \<open>Idle timeout\<close>

lemma do_write_fields [simp]:
  "last_recv_ms (fst (do_write ch)) = last_recv_ms ch"
  "idle_limit_ms (fst (do_write ch)) = idle_limit_ms ch"
  "base_closed (fst (do_write ch)) = base_closed ch"
  "frame_acc (fst (do_write ch)) = frame_acc ch"
  "frame_acc_offset (fst (do_write ch)) = frame_acc_offset ch"
  "closed (fst (do_write ch)) = closed ch"
  by (auto simp: do_write_def make_batch_def Let_def split: prod.splits)

lemma kick_write_fields [simp]:
  "last_recv_ms (fst (kick_write ch)) = last_recv_ms ch"
  "idle_limit_ms (fst (kick_write ch)) = idle_limit_ms ch"
  "base_closed (fst (kick_write ch)) = base_closed ch"
  "frame_acc (fst (kick_write ch)) = frame_acc ch"
  "frame_acc_offset (fst (kick_write ch)) = frame_acc_offset ch"
  "closed (fst (kick_write ch)) = closed ch"
  by (simp_all add: kick_write_def)

lemma close_fields [simp]:
  "last_recv_ms (fst (close ch r)) = last_recv_ms ch"
  "idle_limit_ms (fst (close ch r)) = idle_limit_ms ch"
  "base_closed (fst (close ch r)) = base_closed ch"
  "frame_acc (fst (close ch r)) = frame_acc ch"
  "frame_acc_offset (fst (close ch r)) = frame_acc_offset ch"
  "write_queue (fst (close ch r)) = write_queue ch"
  "in_flight (fst (close ch r)) = in_flight ch"
  "writing (fst (close ch r)) = writing ch"
  "closed (fst (close ch r))"
  by (simp_all add: close_state)

lemma send_fields [simp]:
  "last_recv_ms (fst (send ch data sz)) = last_recv_ms ch"
  "idle_limit_ms (fst (send ch data sz)) = idle_limit_ms ch"
  "base_closed (fst (send ch data sz)) = base_closed ch"
  "frame_acc (fst (send ch data sz)) = frame_acc ch"
  "frame_acc_offset (fst (send ch data sz)) = frame_acc_offset ch"
  by (auto simp: send_def enqueue_send_def Let_def)

lemma write_handler_fields [simp]:
  "last_recv_ms (fst (write_handler ch ec n now)) = last_recv_ms ch"
  "idle_limit_ms (fst (write_handler ch ec n now)) = idle_limit_ms ch"
  "base_closed (fst (write_handler ch ec n now)) = base_closed ch"
  "frame_acc (fst (write_handler ch ec n now)) = frame_acc ch"
  "frame_acc_offset (fst (write_handler ch ec n now)) = frame_acc_offset ch"
  by (simp_all add: write_handler_def Let_def split: option.splits prod.splits)

lemma timer_fields [simp]:
  "last_recv_ms (fst (idle_handler ch ec now)) = last_recv_ms ch"
  "idle_limit_ms (fst (idle_handler ch ec now)) = idle_limit_ms ch"
  "base_closed (fst (idle_handler ch ec now)) = base_closed ch"
  "frame_acc (fst (idle_handler ch ec now)) = frame_acc ch"
  "frame_acc_offset (fst (idle_handler ch ec now)) = frame_acc_offset ch"
  "fst (ping_handler ch ec) = (if ec \<or> closed ch then ch else fst (send_ping ch))"
  "fst (stats_handler ch ec) = ch"
  by (simp_all add: idle_handler_def ping_handler_def stats_handler_def Let_def split: prod.splits)

lemma chan_reach_clock:
  "chan_reach t0 ch wire acc \<Longrightarrow>
     last_recv_ms ch = t0 \<and> idle_limit_ms ch = 30000 \<and> base_closed ch = False"
  by (induction rule: chan_reach.induct)
    (simp_all add: start_def new_channel_def Let_def send_ping_def)

text \<open>
  \<open>last_recv_ms\<close> is written only by \<open>start\<close>. Thirty seconds after the start the idle timer
  closes the channel with \<open>timeout\<close>, even when data has just been received.
\<close>

lemma idle_timeout_ignores_traffic:
  assumes "chan_reach t0 ch wire acc" "\<not> closed ch" "unat t0 + 30000 \<le> unat now"
  shows "closed (fst (idle_handler (fst (read_handler ch False data)) False now))"
proof -
  have "30000 \<le> now - t0"
    using assms(3) by (simp add: word_le_nat_alt unat_sub)
  moreover have "last_recv_ms ch = t0 \<and> idle_limit_ms ch = 30000"
    using chan_reach_clock [OF assms(1)] by simp
  ultimately show ?thesis by (simp add: idle_handler_def Let_def)
qed

lemma idle_timeout_ignores_traffic_witness:
  "closed (fst (idle_handler (fst (read_handler (fst (start (new_channel 1 True True True) 5)) False [1])) False 30005))"
  by (rule idle_timeout_ignores_traffic [OF chan_reach.started]) (simp_all add: start_def new_channel_def)

text \<open>
  \<open>is_closed\<close> reads the flag of the base class, which \<open>close\<close> does not set: it is false in
  every state of an execution, the ones behind a \<open>close\<close> included.
\<close>

lemma is_closed_never_true:
  assumes "chan_reach t0 ch wire acc"
  shows "\<not> is_closed ch \<and> \<not> is_closed (fst (close ch reason)) \<and> closed (fst (close ch reason))"
  using chan_reach_clock [OF assms] by (simp add: is_closed_def)

lemma is_closed_never_true_witness:
  "\<not> is_closed demo_channel \<and> \<not> is_closed (fst (close demo_channel CF_read))
     \<and> closed (fst (close demo_channel CF_read))"
  by (rule is_closed_never_true [OF demo_reach])

section \<open>Messages larger than a batch\<close>

datatype chan_input =
    ISend bytes int
  | IWriteDone bool nat u64
  | IRead bool bytes
  | IIdle bool u64
  | IPing bool
  | IStats bool
  | IClose close_function

fun chan_apply :: "channel \<Rightarrow> chan_input \<Rightarrow> channel \<times> chan_event list" where
  "chan_apply ch (ISend data sz) = send ch data sz"
| "chan_apply ch (IWriteDone ec n now) = write_handler ch ec n now"
| "chan_apply ch (IRead ec data) = read_handler ch ec data"
| "chan_apply ch (IIdle ec now) = idle_handler ch ec now"
| "chan_apply ch (IPing ec) = ping_handler ch ec"
| "chan_apply ch (IStats ec) = stats_handler ch ec"
| "chan_apply ch (IClose reason) = (let (ch, evs, _) = close ch reason in (ch, evs))"

fun chan_run :: "channel \<Rightarrow> chan_input list \<Rightarrow> channel \<times> chan_event list" where
  "chan_run ch [] = (ch, [])"
| "chan_run ch (i # is) =
    (let (ch1, evs1) = chan_apply ch i; (ch2, evs2) = chan_run ch1 is in (ch2, evs1 @ evs2))"

fun is_AsyncWrite :: "chan_event \<Rightarrow> bool" where
  "is_AsyncWrite (AsyncWrite buffer n) = True"
| "is_AsyncWrite _ = False"

definition stalled :: "channel \<Rightarrow> bool" where
  "stalled ch \<longleftrightarrow> head_too_big ch \<and> in_flight ch = None"

lemma stalled_do_write:
  "stalled ch \<Longrightarrow> do_write ch = (ch\<lparr>writing := False\<rparr>, [])"
  by (cases "write_queue ch")
    (auto simp: stalled_def head_too_big_def do_write_def make_batch_def k_max_batch_msgs_def)

lemma stalled_kick_write:
  "stalled ch \<Longrightarrow> stalled (fst (kick_write ch)) \<and> snd (kick_write ch) = []"
  using stalled_do_write [of "ch\<lparr>writing := True\<rparr>"]
  by (auto simp: kick_write_def stalled_def head_too_big_def)

lemma on_close_no_write: "list_all (\<lambda>e. \<not> is_AsyncWrite e) (fst (snd (close ch reason)))"
  by (auto simp: close_def on_close_def Let_def)

lemma parse_loop_no_write: "list_all (\<lambda>e. \<not> is_AsyncWrite e) (snd (parse_loop ch))"
proof (induction ch rule: parse_loop.induct)
  case (1 ch)
  show ?case
  proof (cases "try_parse_one (frame_acc ch) (frame_acc_offset ch)")
    case (Frame hdr payload ok off)
    show ?thesis
      using 1 [OF Frame refl] by (subst parse_loop.simps) (auto simp: Frame Let_def split: prod.splits)
  qed (subst parse_loop.simps, simp)+
qed

lemma stalled_send:
  assumes "stalled ch"
  shows "stalled (fst (send ch data sz)) \<and> list_all (\<lambda>e. \<not> is_AsyncWrite e) (snd (send ch data sz))"
proof -
  obtain ch1 ok where enq: "enqueue_send ch (take (nat sz) data) = (ch1, ok)" by fastforce
  then have "stalled ch1"
    using assms by (auto simp: enqueue_send_def stalled_def head_too_big_def Let_def split: if_splits)
  then show ?thesis
    using assms stalled_kick_write [of ch1] on_close_no_write [of "ch1\<lparr>force_closes := force_closes ch1 + 1\<rparr>" CF_force_closed]
    by (auto simp: send_def enq stalled_def head_too_big_def Let_def split: prod.splits
        dest: arg_cong [of _ _ fst])
qed

lemma stalled_frame [simp]:
  "stalled (ch\<lparr>frame_acc := a\<rparr>) = stalled ch" "stalled (ch\<lparr>frame_acc_offset := n\<rparr>) = stalled ch"
  "stalled (ch\<lparr>drops := d\<rparr>) = stalled ch"
  by (simp_all add: stalled_def head_too_big_def)

lemma stalled_apply:
  assumes "stalled ch"
  shows "stalled (fst (chan_apply ch i)) \<and> list_all (\<lambda>e. \<not> is_AsyncWrite e) (snd (chan_apply ch i))"
proof (cases i)
  case (IRead ec data)
  have "list_all (\<lambda>e. \<not> is_AsyncWrite e) (snd (read_handler ch ec data))"
    using on_close_no_write [of ch CF_read] parse_loop_no_write [of "ch\<lparr>frame_acc := frame_acc ch @ data\<rparr>"]
    by (auto simp: read_handler_def parse_frames_def Let_def split: prod.splits)
  then show ?thesis using assms IRead by (simp add: stalled_def head_too_big_def)
next
  case (IPing ec)
  then show ?thesis
    using assms stalled_send [of ch]
    by (auto simp: ping_handler_def send_ping_def Let_def case_prod_unfold)
qed (use assms stalled_send on_close_no_write [of ch] in
    \<open>auto simp: write_handler_def idle_handler_def stats_handler_def stalled_def head_too_big_def
      close_state Let_def case_prod_unfold\<close>)

lemma stalled_run:
  "stalled ch \<Longrightarrow> stalled (fst (chan_run ch is))
     \<and> list_all (\<lambda>e. \<not> is_AsyncWrite e) (snd (chan_run ch is))"
proof (induction "is" arbitrary: ch)
  case (Cons i "is")
  then show ?case
    using stalled_apply [of ch i] Cons.IH [of "fst (chan_apply ch i)"]
    by (simp add: Let_def case_prod_unfold)
qed simp

text \<open>
  A single message of more than 64 KiB that fits the 256 KiB queue is accepted on an idle open
  channel, but no batch can take it: it is never written, and neither is anything sent after it,
  whatever happens on the channel.
\<close>

lemma large_message_stalls_channel:
  assumes "chan_reach t0 ch wire acc" "\<not> closed ch" "write_queue ch = []" "in_flight ch = None"
    and "k_max_batch_bytes < length data" "length data \<le> 256 * 1024"
  shows "accepted_bytes ch data (int (length data)) = data
    \<and> list_all (\<lambda>e. \<not> is_AsyncWrite e)
        (snd (send ch data (int (length data))) @
         snd (chan_run (fst (send ch data (int (length data)))) inputs))"
proof -
  note inv = chan_reach_write_inv [OF assms(1)]
  have idle: "\<not> writing ch" "current_queue_bytes ch = 0" "max_queue_bytes ch = 262144"
    using inv assms(2-4)
    by (auto simp: write_inv_def write_failed_def pending_bytes_def inflight_bytes_def unat_eq_0)
  have sz: "unat (of_nat (length data) :: u64) = length data"
    using assms(6) by (intro unat_of_nat_u64) simp
  have small: "\<not> (of_nat (length data) :: u64) > 262144" "(of_nat (length data) :: u64) \<noteq> 0"
    using assms(5,6) sz by (auto simp: word_less_nat_alt)
  define ch1 where "ch1 = fst (enqueue_send ch data)"
  have ch1: "enqueue_send ch data = (ch1, True)" "stalled ch1"
    using idle small assms(2-5)
    by (auto simp: ch1_def enqueue_send_def stalled_def head_too_big_def Let_def)
  have send: "send ch data (int (length data)) = kick_write ch1"
    using assms(2,5) ch1 by (auto simp: send_def)
  have "accepted_bytes ch data (int (length data)) = data"
    using assms(2,5) ch1 by (auto simp: accepted_bytes_def)
  then show ?thesis
    using stalled_kick_write [OF ch1(2)] stalled_run [of "fst (kick_write ch1)" inputs]
    by (simp add: send)
qed

lemma large_message_stalls_channel_witness:
  "accepted_bytes (fst (start (new_channel 1 True True True) 5)) (replicate 70000 7)
     (int (length (replicate 70000 (7 :: byte)))) = replicate 70000 7
    \<and> list_all (\<lambda>e. \<not> is_AsyncWrite e)
        (snd (send (fst (start (new_channel 1 True True True) 5)) (replicate 70000 7)
               (int (length (replicate 70000 (7 :: byte))))) @
         snd (chan_run (fst (send (fst (start (new_channel 1 True True True) 5)) (replicate 70000 7)
               (int (length (replicate 70000 (7 :: byte)))))) [IPing False, ISend [1] 1]))"
  by (rule large_message_stalls_channel [OF chan_reach.started])
    (simp_all add: start_def new_channel_def k_max_batch_bytes_def)

section \<open>Backpressure\<close>

text \<open>
  A message that would exceed the queue limit is not queued: the channel closes with
  \<open>force_closed\<close>, its handler and its close callback run, one drop is counted, and \<open>force_closes\<close>
  grows by two, once in \<open>send\<close> and once in \<open>close\<close>.
\<close>

lemma backpressure_closes:
  assumes "\<not> closed ch" "0 < length data" "length data < 2 ^ 31"
    and "unat (current_queue_bytes ch) \<le> 256 * 1024" "max_queue_bytes ch = 256 * 1024"
    and "unat (current_queue_bytes ch) + length data > 256 * 1024"
  shows "send ch data (int (length data)) =
    (ch\<lparr>drops := drops ch + 1, force_closes := force_closes ch + 2, closed := True\<rparr>,
     PostShutdown # on_close ch CF_force_closed)"
proof -
  have "unat (current_queue_bytes ch + of_nat (length data)) = unat (current_queue_bytes ch) + length data"
    using assms(3,4) by (intro unat_add_bounded) simp_all
  then have big: "current_queue_bytes ch + of_nat (length data) > 262144"
    using assms(6) by (simp add: word_less_nat_alt)
  have "(of_nat (length data) :: u64) \<noteq> 0"
    using assms(2,3) unat_of_nat_u64 [of "length data"] by auto
  then show ?thesis
    using assms(1,2,5) big
    by (auto simp: send_def enqueue_send_def close_def on_close_def Let_def)
qed

lemma backpressure_closes_witness:
  "send (new_channel 1 True True True\<lparr>current_queue_bytes := 262143\<rparr>) [1, 2] (int (length [1, 2 :: byte])) =
    (new_channel 1 True True True\<lparr>current_queue_bytes := 262143, drops := drops (new_channel 1 True True True\<lparr>current_queue_bytes := 262143\<rparr>) + 1,
       force_closes := force_closes (new_channel 1 True True True\<lparr>current_queue_bytes := 262143\<rparr>) + 2, closed := True\<rparr>,
     PostShutdown # on_close (new_channel 1 True True True\<lparr>current_queue_bytes := 262143\<rparr>) CF_force_closed)"
  by (rule backpressure_closes) (simp_all add: new_channel_def)

section \<open>Reassembly of the byte stream\<close>

record packet =
  pk_cmd :: u16
  pk_flags :: u8
  pk_ver :: u8
  pk_seq :: u32
  pk_payload :: bytes

definition encode_packet :: "packet \<Rightarrow> bytes" where
  "encode_packet f = pack (pk_cmd f) (pk_flags f) (pk_ver f) (pk_seq f) (pk_payload f)"

definition packet_ok :: "packet \<Rightarrow> bool" where
  "packet_ok f \<longleftrightarrow> length (pk_payload f) \<le> k_max_frame_bytes - k_header_after_len"

definition packet_event :: "int \<Rightarrow> packet \<Rightarrow> chan_event" where
  "packet_event cid f = OnFrame cid (pk_cmd f) (pk_payload f)"

definition stream :: "packet list \<Rightarrow> bytes" where
  "stream fs = concat (map encode_packet fs)"

lemma stream_simps [simp]: "stream [] = []" "stream (f # fs) = encode_packet f @ stream fs"
  by (simp_all add: stream_def)

lemma length_encode_packet [simp]: "length (encode_packet f) = 16 + length (pk_payload f)"
  by (simp add: encode_packet_def)

lemma try_parse_complete:
  assumes "off \<le> length acc" "drop off acc = encode_packet f @ rest" "packet_ok f"
  shows "\<exists>hdr. hdr_cmd hdr = pk_cmd f \<and> try_parse_one acc off =
    Frame hdr (pk_payload f) True (off + length (encode_packet f))"
proof -
  have "acc = take off acc @ encode_packet f @ rest"
    using assms(2) by (metis append_take_drop_id)
  moreover have "length (take off acc) = off" using assms(1) by simp
  ultimately show ?thesis
    using try_parse_frame [of "pk_payload f" "pk_payload f" "take off acc"] assms(3)
    by (auto simp: encode_packet_def pack_eq packet_ok_def k_max_frame_bytes_def
        k_header_after_len_def add.assoc) (metis header_v1.select_convs(1))
qed

lemma get_le32_prefix: "4 \<le> length p \<Longrightarrow> get_le32 p = get_le32 (p @ q)"
  by (auto simp: get_le32_def nth_append)

lemma append_longer:
  assumes "xs @ q = ys @ r" "length ys \<le> length xs"
  obtains rest where "xs = ys @ rest" "rest @ q = r"
proof
  have "take (length ys) (xs @ q) = take (length ys) (ys @ r)" by (simp add: assms(1))
  then have "take (length ys) xs = ys" using assms(2) by simp
  then show xs: "xs = ys @ drop (length ys) xs" by (metis append_take_drop_id)
  have "ys @ (drop (length ys) xs @ q) = ys @ r" using xs assms(1) by (metis append.assoc)
  then show "drop (length ys) xs @ q = r" by simp
qed

lemma try_parse_partial:
  assumes "off \<le> length acc" "drop off acc @ q = encode_packet f @ rest" "packet_ok f"
    and "length (drop off acc) < length (encode_packet f)"
  shows "try_parse_one acc off = NoFrame off"
proof (cases "length (drop off acc) < 4")
  case True
  then show ?thesis using assms(1) by (simp add: try_parse_one_def)
next
  case False
  then have "get_le32 (drop off acc) = get_le32 (encode_packet f @ rest)"
    using get_le32_prefix [of "drop off acc" q] assms(2) by simp
  then have "unat (get_le32 (drop off acc)) = 12 + length (pk_payload f)"
    using assms(3) frame_header_fields(1) [of "pk_payload f"]
    by (simp add: encode_packet_def pack_eq packet_ok_def k_max_frame_bytes_def k_header_after_len_def)
  then show ?thesis
    using False assms by (simp add: try_parse_one_def packet_ok_def k_max_frame_bytes_def
        k_header_after_len_def)
qed

text \<open>
  \<open>awaits ch q fs\<close>: the unread bytes of the accumulator, followed by the bytes \<open>q\<close> still to come,
  are the stream of \<open>fs\<close>, and no complete frame is left unread.
\<close>

definition awaits :: "channel \<Rightarrow> bytes \<Rightarrow> packet list \<Rightarrow> bool" where
  "awaits ch q fs \<longleftrightarrow> frame_acc_offset ch \<le> length (frame_acc ch)
     \<and> drop (frame_acc_offset ch) (frame_acc ch) @ q = stream fs"

definition no_complete :: "channel \<Rightarrow> packet list \<Rightarrow> bool" where
  "no_complete ch fs \<longleftrightarrow> fs \<noteq> [] \<longrightarrow>
     length (drop (frame_acc_offset ch) (frame_acc ch)) < length (encode_packet (hd fs))"

lemma parse_loop_stream:
  assumes "awaits ch q fs" "list_all packet_ok fs" "has_on_frame ch"
  shows "\<exists>fs1 fs2 off. fs = fs1 @ fs2
    \<and> parse_loop ch = (ch\<lparr>frame_acc_offset := off\<rparr>, map (packet_event (channel_id ch)) fs1)
    \<and> awaits (ch\<lparr>frame_acc_offset := off\<rparr>) q fs2 \<and> no_complete (ch\<lparr>frame_acc_offset := off\<rparr>) fs2"
  using assms
proof (induction fs arbitrary: ch)
  case Nil
  then have "length (frame_acc ch) - frame_acc_offset ch = 0"
    by (auto simp: awaits_def)
  then have "try_parse_one (frame_acc ch) (frame_acc_offset ch) = NoFrame (frame_acc_offset ch)"
    using Nil by (simp add: try_parse_one_def awaits_def)
  then show ?case
    using Nil by (intro exI [of _ "[]"] exI [of _ "frame_acc_offset ch"])
      (simp add: parse_loop.simps no_complete_def)
next
  case (Cons f fs)
  let ?unread = "drop (frame_acc_offset ch) (frame_acc ch)"
  have le: "frame_acc_offset ch \<le> length (frame_acc ch)" and st: "?unread @ q = encode_packet f @ stream fs"
    using Cons.prems by (simp_all add: awaits_def)
  show ?case
  proof (cases "length ?unread < length (encode_packet f)")
    case True
    then have "try_parse_one (frame_acc ch) (frame_acc_offset ch) = NoFrame (frame_acc_offset ch)"
      using Cons.prems(2) by (intro try_parse_partial [OF le st]) simp_all
    then show ?thesis
      using Cons.prems True by (intro exI [of _ "[]"] exI [of _ "f # fs"] exI [of _ "frame_acc_offset ch"])
        (simp add: parse_loop.simps no_complete_def)
  next
    case False
    then have "length (encode_packet f) \<le> length ?unread" by simp
    with st obtain rest where rest: "?unread = encode_packet f @ rest" "rest @ q = stream fs"
      by (rule append_longer)
    let ?off = "frame_acc_offset ch + length (encode_packet f)"
    let ?ch = "ch\<lparr>frame_acc_offset := ?off\<rparr>"
    obtain hdr where hdr: "hdr_cmd hdr = pk_cmd f" "try_parse_one (frame_acc ch) (frame_acc_offset ch) =
        Frame hdr (pk_payload f) True ?off"
      using try_parse_complete [OF le rest(1)] Cons.prems(2) by auto
    have "drop ?off (frame_acc ch) = rest"
      using rest(1) by (metis append_eq_conv_conj drop_drop add.commute)
    moreover have "?off \<le> length (frame_acc ch)"
      using False le by simp
    ultimately have "awaits ?ch q fs" using rest(2) by (simp add: awaits_def)
    then obtain fs1 fs2 off where IH: "fs = fs1 @ fs2"
      "parse_loop ?ch = (?ch\<lparr>frame_acc_offset := off\<rparr>, map (packet_event (channel_id ?ch)) fs1)"
      "awaits (?ch\<lparr>frame_acc_offset := off\<rparr>) q fs2" "no_complete (?ch\<lparr>frame_acc_offset := off\<rparr>) fs2"
      using Cons.IH [of ?ch] Cons.prems by auto
    have "parse_loop ch = (ch\<lparr>frame_acc_offset := off\<rparr>, map (packet_event (channel_id ch)) (f # fs1))"
      using IH(2) Cons.prems(3) hdr by (subst parse_loop.simps) (simp add: Let_def packet_event_def)
    then show ?thesis using IH by (intro exI [of _ "f # fs1"] exI [of _ fs2] exI [of _ off]) simp
  qed
qed

text \<open>Completions of the reads of one chunk after the other.\<close>

fun feed :: "channel \<Rightarrow> bytes list \<Rightarrow> channel \<times> chan_event list" where
  "feed ch [] = (ch, [])"
| "feed ch (chunk # chunks) =
    (let (ch1, evs1) = read_handler ch False chunk; (ch2, evs2) = feed ch1 chunks
     in (ch2, evs1 @ evs2))"

fun is_OnFrame :: "chan_event \<Rightarrow> bool" where
  "is_OnFrame (OnFrame cid cmd payload) = True"
| "is_OnFrame _ = False"

lemma filter_packet_events [simp]:
  "filter is_OnFrame (map (packet_event cid) fs) = map (packet_event cid) fs"
  by (induction fs) (simp_all add: packet_event_def)

lemma read_handler_stream:
  assumes "awaits ch (chunk @ q) fs" "list_all packet_ok fs" "has_on_frame ch"
  shows "\<exists>fs1 fs2. fs = fs1 @ fs2
    \<and> filter is_OnFrame (snd (read_handler ch False chunk)) = map (packet_event (channel_id ch)) fs1
    \<and> awaits (fst (read_handler ch False chunk)) q fs2
    \<and> no_complete (fst (read_handler ch False chunk)) fs2
    \<and> drops (fst (read_handler ch False chunk)) = drops ch
    \<and> has_on_frame (fst (read_handler ch False chunk))
    \<and> channel_id (fst (read_handler ch False chunk)) = channel_id ch"
proof -
  let ?ch = "ch\<lparr>frame_acc := frame_acc ch @ chunk\<rparr>"
  have "awaits ?ch q fs" using assms(1) by (simp add: awaits_def)
  then obtain fs1 fs2 off where *: "fs = fs1 @ fs2"
    "parse_loop ?ch = (?ch\<lparr>frame_acc_offset := off\<rparr>, map (packet_event (channel_id ?ch)) fs1)"
    "awaits (?ch\<lparr>frame_acc_offset := off\<rparr>) q fs2" "no_complete (?ch\<lparr>frame_acc_offset := off\<rparr>) fs2"
    using parse_loop_stream [of ?ch q fs] assms by auto
  show ?thesis
  proof (intro exI conjI)
    show "fs = fs1 @ fs2" by (rule *)
  qed (use * assms(3) in
      \<open>auto simp: read_handler_def parse_frames_def Let_def awaits_def no_complete_def\<close>)
qed

lemma feed_stream:
  assumes "awaits ch (concat chunks) fs" "no_complete ch fs" "list_all packet_ok fs" "has_on_frame ch"
  shows "filter is_OnFrame (snd (feed ch chunks)) = map (packet_event (channel_id ch)) fs
    \<and> drops (fst (feed ch chunks)) = drops ch"
  using assms
proof (induction chunks arbitrary: ch fs)
  case Nil
  then have "fs = []" by (cases fs) (auto simp: awaits_def no_complete_def)
  then show ?case by simp
next
  case (Cons chunk chunks)
  let ?r = "read_handler ch False chunk"
  obtain fs1 fs2 where *: "fs = fs1 @ fs2"
    "filter is_OnFrame (snd ?r) = map (packet_event (channel_id ch)) fs1"
    "awaits (fst ?r) (concat chunks) fs2" "no_complete (fst ?r) fs2" "drops (fst ?r) = drops ch"
    "has_on_frame (fst ?r)" "channel_id (fst ?r) = channel_id ch"
    using read_handler_stream [of ch chunk "concat chunks" fs] Cons.prems by auto
  then show ?case
    using Cons.IH [of "fst ?r" fs2] Cons.prems(3) by (simp add: Let_def case_prod_unfold)
qed

text \<open>
  C1: TCP may cut the byte stream anywhere. However the bytes of a sequence of packed frames are
  distributed over the reads, the channel delivers exactly these frames, in order, each with its
  command and payload, and drops none.
\<close>

theorem stream_reassembly:
  assumes "concat chunks = concat (map encode_packet fs)" "list_all packet_ok fs"
    and "frame_acc ch = []" "frame_acc_offset ch = 0" "has_on_frame ch"
  shows "filter is_OnFrame (snd (feed ch chunks))
      = map (\<lambda>f. OnFrame (channel_id ch) (pk_cmd f) (pk_payload f)) fs
    \<and> drops (fst (feed ch chunks)) = drops ch"
proof -
  have "packet_event (channel_id ch) = (\<lambda>f. OnFrame (channel_id ch) (pk_cmd f) (pk_payload f))"
    by (simp add: packet_event_def fun_eq_iff)
  then show ?thesis
    using assms feed_stream [of ch chunks fs] by (simp add: awaits_def no_complete_def stream_def)
qed

definition demo_packet :: packet where
  "demo_packet = \<lparr>pk_cmd = 3, pk_flags = 0, pk_ver = 1, pk_seq = 1, pk_payload = [104, 105]\<rparr>"

theorem stream_reassembly_witness:
  "filter is_OnFrame (snd (feed (new_channel 1 True True True)
       [take 5 (encode_packet demo_packet), drop 5 (encode_packet demo_packet)]))
      = map (\<lambda>f. OnFrame (channel_id (new_channel 1 True True True)) (pk_cmd f) (pk_payload f)) [demo_packet]
    \<and> drops (fst (feed (new_channel 1 True True True)
       [take 5 (encode_packet demo_packet), drop 5 (encode_packet demo_packet)]))
      = drops (new_channel 1 True True True)"
  by (rule stream_reassembly)
    (simp_all add: new_channel_def packet_ok_def demo_packet_def k_max_frame_bytes_def k_header_after_len_def)

end
