(* ===== verification/F32.thy ===== *)
theory F32
  imports Prelude
begin

unbundle bit_operations_syntax

text \<open>
  Single-precision arithmetic (IEEE 754 binary32, round to nearest, ties to even) on bit patterns,
  as the C++ type \<open>float\<close> has it. A finite value is an integer multiple of \<open>2 ^ -149\<close>, so every
  operation is exact integer arithmetic followed by one rounding. The payload of a NaN is not
  specified by the language; the model uses one quiet NaN for all of them. No operation is fused
  or kept in a wider format.
\<close>

section \<open>Decoding\<close>

definition f_sign :: "f32 \<Rightarrow> bool" where
  "f_sign x = bit x 31"

definition f_abs_bits :: "f32 \<Rightarrow> nat" where
  "f_abs_bits x = unat (x AND 0x7FFFFFFF)"

definition f_inf_bits :: nat where
  "f_inf_bits = 255 * 2 ^ 23"

definition f_isnan :: "f32 \<Rightarrow> bool" where
  "f_isnan x \<longleftrightarrow> f_abs_bits x > f_inf_bits"

definition f_isinf :: "f32 \<Rightarrow> bool" where
  "f_isinf x \<longleftrightarrow> f_abs_bits x = f_inf_bits"

text \<open>The magnitude in units of \<open>2 ^ -149\<close>; the infinity continues the pattern upwards.\<close>

definition mag_of_bits :: "nat \<Rightarrow> nat" where
  "mag_of_bits b = (let e = b div 2 ^ 23; m = b mod 2 ^ 23 in
     if e = 0 then m else (2 ^ 23 + m) * 2 ^ (e - 1))"

definition f_mag :: "f32 \<Rightarrow> nat" where
  "f_mag x = mag_of_bits (f_abs_bits x)"

definition f_int :: "f32 \<Rightarrow> int" where
  "f_int x = (if f_sign x then - int (f_mag x) else int (f_mag x))"

section \<open>Rounding\<close>

fun bit_len :: "nat \<Rightarrow> nat" where
  "bit_len n = (if n = 0 then 0 else Suc (bit_len (n div 2)))"

declare bit_len.simps [simp del]

lemma bit_len_0 [simp]: "bit_len 0 = 0"
  by (simp add: bit_len.simps)

text \<open>The bits of the magnitude \<open>p / q\<close>, in units of \<open>2 ^ -149\<close>, rounded to nearest even.\<close>

definition round_mag :: "nat \<Rightarrow> nat \<Rightarrow> nat" where
  "round_mag p q =
    (let s = bit_len (p div q) - 24;
         d = q * 2 ^ s;
         m = p div d; r = p mod d;
         m' = (if 2 * r > d \<or> 2 * r = d \<and> odd m then m + 1 else m)
     in min (s * 2 ^ 23 + m') f_inf_bits)"

definition f_pack :: "bool \<Rightarrow> nat \<Rightarrow> f32" where
  "f_pack neg b = (if neg then 0x80000000 else 0) OR of_nat b"

definition f_nan :: f32 where
  "f_nan = 0x7FC00000"

definition f_inf :: "bool \<Rightarrow> f32" where
  "f_inf neg = f_pack neg f_inf_bits"

section \<open>Operations\<close>

definition f_neg :: "f32 \<Rightarrow> f32" where
  "f_neg x = x XOR 0x80000000"

definition f_add :: "f32 \<Rightarrow> f32 \<Rightarrow> f32" where
  "f_add x y =
    (if f_isnan x \<or> f_isnan y then f_nan
     else if f_isinf x then (if f_isinf y \<and> f_sign x \<noteq> f_sign y then f_nan else x)
     else if f_isinf y then y
     else let n = f_int x + f_int y in
       if n = 0 then f_pack (f_sign x \<and> f_sign y) 0
       else f_pack (n < 0) (round_mag (nat \<bar>n\<bar>) 1))"

definition f_sub :: "f32 \<Rightarrow> f32 \<Rightarrow> f32" where
  "f_sub x y = (if f_isnan x \<or> f_isnan y then f_nan else f_add x (f_neg y))"

definition f_mul :: "f32 \<Rightarrow> f32 \<Rightarrow> f32" where
  "f_mul x y =
    (let neg = (f_sign x \<noteq> f_sign y) in
     if f_isnan x \<or> f_isnan y then f_nan
     else if f_isinf x \<or> f_isinf y then (if f_mag x = 0 \<or> f_mag y = 0 then f_nan else f_inf neg)
     else f_pack neg (round_mag (f_mag x * f_mag y) (2 ^ 149)))"

definition f_div :: "f32 \<Rightarrow> f32 \<Rightarrow> f32" where
  "f_div x y =
    (let neg = (f_sign x \<noteq> f_sign y) in
     if f_isnan x \<or> f_isnan y then f_nan
     else if f_isinf x then (if f_isinf y then f_nan else f_inf neg)
     else if f_isinf y then f_pack neg 0
     else if f_mag y = 0 then (if f_mag x = 0 then f_nan else f_inf neg)
     else f_pack neg (round_mag (f_mag x * 2 ^ 149) (f_mag y)))"

fun isqrt :: "nat \<Rightarrow> nat" where
  "isqrt n = (if n = 0 then 0
     else let r = 2 * isqrt (n div 4) in if (r + 1) * (r + 1) \<le> n then r + 1 else r)"

declare isqrt.simps [simp del]

definition f_sqrt :: "f32 \<Rightarrow> f32" where
  "f_sqrt x =
    (if f_isnan x then f_nan
     else if f_mag x = 0 then x
     else if f_sign x then f_nan
     else if f_isinf x then x
     else let n = f_mag x * 2 ^ 149; r = isqrt n in
       f_pack False (round_mag (2 * r + (if r * r = n then 0 else 1)) 2))"

definition f_of_nat :: "nat \<Rightarrow> f32" where
  "f_of_nat n = f_pack False (round_mag (n * 2 ^ 149) 1)"

definition f_of_u32 :: "u32 \<Rightarrow> f32" where
  "f_of_u32 n = f_of_nat (unat n)"

definition f_of_int :: "int \<Rightarrow> f32" where
  "f_of_int i = f_pack (i < 0) (round_mag (nat \<bar>i\<bar> * 2 ^ 149) 1)"

definition f_lt :: "f32 \<Rightarrow> f32 \<Rightarrow> bool" where
  "f_lt x y \<longleftrightarrow> \<not> f_isnan x \<and> \<not> f_isnan y \<and> f_int x < f_int y"

definition f_le :: "f32 \<Rightarrow> f32 \<Rightarrow> bool" where
  "f_le x y \<longleftrightarrow> \<not> f_isnan x \<and> \<not> f_isnan y \<and> f_int x \<le> f_int y"

definition f_eq :: "f32 \<Rightarrow> f32 \<Rightarrow> bool" where
  "f_eq x y \<longleftrightarrow> \<not> f_isnan x \<and> \<not> f_isnan y \<and> f_int x = f_int y"

text \<open>\<open>std::max(a, b)\<close> is \<open>(a < b) ? b : a\<close> and \<open>std::min(a, b)\<close> is \<open>(b < a) ? b : a\<close>.\<close>

definition f_max :: "f32 \<Rightarrow> f32 \<Rightarrow> f32" where
  "f_max a b = (if f_lt a b then b else a)"

definition f_min :: "f32 \<Rightarrow> f32 \<Rightarrow> f32" where
  "f_min a b = (if f_lt b a then b else a)"

section \<open>Order\<close>

lemma f_lt_irrefl [simp]: "\<not> f_lt x x"
  by (simp add: f_lt_def)

lemma f_lt_nan [simp]: "f_isnan x \<Longrightarrow> \<not> f_lt x y" "f_isnan y \<Longrightarrow> \<not> f_lt x y"
  by (simp_all add: f_lt_def)

lemma f_le_nan [simp]: "f_isnan x \<Longrightarrow> \<not> f_le x y" "f_isnan y \<Longrightarrow> \<not> f_le x y"
  by (simp_all add: f_le_def)

lemma f_le_refl: "\<not> f_isnan x \<Longrightarrow> f_le x x"
  by (simp add: f_le_def)

lemma f_not_lt: "\<not> f_isnan x \<Longrightarrow> \<not> f_isnan y \<Longrightarrow> \<not> f_lt x y \<longleftrightarrow> f_le y x"
  by (auto simp: f_lt_def f_le_def)

lemma f_lt_imp_le: "f_lt x y \<Longrightarrow> f_le x y"
  by (simp add: f_lt_def f_le_def)

lemma f_le_trans: "f_le x y \<Longrightarrow> f_le y z \<Longrightarrow> f_le x z"
  by (simp add: f_le_def)

text \<open>\<open>std::max(lo, std::min(hi, x))\<close> and its variants keep a value between the limits.\<close>

lemma f_clamp:
  assumes "f_le lo hi"
  shows "f_le lo (f_max lo (f_min hi x)) \<and> f_le (f_max lo (f_min hi x)) hi"
  using assms by (auto simp: f_max_def f_min_def f_lt_def f_le_def)

section \<open>Rounding is exact on representable magnitudes and within half a unit elsewhere\<close>

lemma bit_len_bounds: "0 < n \<Longrightarrow> 2 ^ (bit_len n - 1) \<le> n \<and> n < 2 ^ bit_len n"
proof (induction n rule: bit_len.induct)
  case (1 n)
  show ?case
  proof (cases "n = 1")
    case True
    then show ?thesis by (simp add: bit_len.simps)
  next
    case False
    then have IH: "2 ^ (bit_len (n div 2) - 1) \<le> n div 2 \<and> n div 2 < 2 ^ bit_len (n div 2)"
      using 1 by simp
    then have pos: "0 < bit_len (n div 2)"
      using False 1(2) by (cases "bit_len (n div 2)") auto
    have len: "bit_len n = Suc (bit_len (n div 2))"
      using 1(2) by (subst bit_len.simps) simp
    have "2 * 2 ^ (bit_len (n div 2) - 1) = (2::nat) ^ bit_len (n div 2)"
      using pos by (cases "bit_len (n div 2)") simp_all
    then show ?thesis using IH unfolding len by simp linarith
  qed
qed

lemma bit_len_eq: "2 ^ k \<le> n \<Longrightarrow> n < 2 ^ Suc k \<Longrightarrow> bit_len n = Suc k"
proof -
  assume n: "2 ^ k \<le> n" "n < 2 ^ Suc k"
  then have b: "2 ^ (bit_len n - 1) \<le> n" "n < 2 ^ bit_len n"
    using bit_len_bounds [of n] by (auto intro: less_le_trans [of 0 "2 ^ k"])
  have "2 ^ k < (2::nat) ^ bit_len n" using n b by linarith
  then have "k < bit_len n" by simp
  moreover have "2 ^ (bit_len n - 1) < (2::nat) ^ Suc k" using n b by linarith
  then have "bit_len n - 1 < Suc k" by (simp only: power_strict_increasing_iff)
  ultimately show ?thesis by simp
qed

lemma mag_of_normal:
  assumes "k < 2 ^ 23"
  shows "mag_of_bits (Suc s * 2 ^ 23 + k) = (2 ^ 23 + k) * 2 ^ s"
proof -
  have "(Suc s * 2 ^ 23 + k) div 2 ^ 23 = Suc s" "(Suc s * 2 ^ 23 + k) mod 2 ^ 23 = k"
    using assms by (simp_all only: div_mult_self3 mod_mult_self3 mod_less div_less add_0_right)
  then show ?thesis by (simp only: mag_of_bits_def Let_def nat.distinct if_False diff_Suc_1)
qed

lemma mag_of_scaled:
  assumes "m \<le> 2 ^ 24" "s = 0 \<or> 2 ^ 23 \<le> m"
  shows "mag_of_bits (s * 2 ^ 23 + m) = m * 2 ^ s"
proof (cases "m < 2 ^ 23")
  case True
  then show ?thesis using assms by (simp add: mag_of_bits_def)
next
  case m: False
  show ?thesis
  proof (cases "m = 2 ^ 24")
    case True
    have "s * 2 ^ 23 + m = Suc (Suc s) * 2 ^ 23 + 0" using True by simp
    then have "mag_of_bits (s * 2 ^ 23 + m) = (2 ^ 23 + 0) * 2 ^ Suc s"
      using mag_of_normal [of 0 "Suc s"] by (simp add: add.commute)
    then show ?thesis using True by (simp add: add.commute)
  next
    case False
    then have less: "m - 2 ^ 23 < 2 ^ 23" using assms(1) by simp
    have "s * 2 ^ 23 + m = Suc s * 2 ^ 23 + (m - 2 ^ 23)" using m by simp
    then have "mag_of_bits (s * 2 ^ 23 + m) = (2 ^ 23 + (m - 2 ^ 23)) * 2 ^ s"
      using mag_of_normal [OF less, of s] by (simp only:)
    then show ?thesis using m by simp
  qed
qed

lemma bits_as_scaled:
  obtains s m where "b = s * 2 ^ 23 + m" "m < (2 :: nat) ^ 24" "s = 0 \<or> 2 ^ 23 \<le> m"
proof (cases "b < 2 ^ 23")
  case True
  then show ?thesis by (intro that [of 0 b]) simp_all
next
  case False
  then have "b div 2 ^ 23 \<noteq> 0" by (simp add: div_eq_0_iff)
  then obtain e where "b div 2 ^ 23 = Suc e" using not0_implies_Suc by blast
  then have "b = e * 2 ^ 23 + (2 ^ 23 + b mod 2 ^ 23)"
    using div_mult_mod_eq [of b "2 ^ 23"] by (simp only: mult_Suc add.assoc add.commute [of "2 ^ 23"])
  moreover have "2 ^ 23 + b mod 2 ^ 23 < 2 ^ 24"
    using mod_less_divisor [of "2 ^ 23" b] by simp
  ultimately show ?thesis by (rule that) (rule disjI2, rule le_add1)
qed

text \<open>Rounding returns every finite magnitude unchanged.\<close>

lemma round_mag_exact:
  assumes "b \<le> f_inf_bits"
  shows "round_mag (mag_of_bits b) 1 = b"
proof -
  obtain s m where b: "b = s * 2 ^ 23 + m" "m < 2 ^ 24" "s = 0 \<or> 2 ^ 23 \<le> m"
    by (rule bits_as_scaled)
  have mag: "mag_of_bits b = m * 2 ^ s"
    unfolding b(1) using b(2,3) by (intro mag_of_scaled) simp_all
  have "bit_len (m * 2 ^ s) - 24 = s"
  proof (cases "s = 0")
    case True
    have "bit_len m \<le> 24"
    proof (cases "m = 0")
      case False
      then have "2 ^ (bit_len m - 1) < (2::nat) ^ 24" using bit_len_bounds [of m] b(2) by linarith
      then have "bit_len m - 1 < 24" by (simp only: power_strict_increasing_iff)
      then show ?thesis by simp
    qed simp
    then show ?thesis using True by simp
  next
    case False
    have "2 ^ (23 + s) \<le> m * 2 ^ s" using b(3) False by (simp only: power_add) simp
    moreover have "m * 2 ^ s < 2 ^ Suc (23 + s)" using b(2) by (simp only: power_add power_Suc) simp
    ultimately have "bit_len (m * 2 ^ s) = Suc (23 + s)" by (rule bit_len_eq)
    then show ?thesis by simp
  qed
  then have "round_mag (mag_of_bits b) 1 = min (s * 2 ^ 23 + m) f_inf_bits"
    unfolding round_mag_def mag Let_def by simp
  then show ?thesis using assms b(1) by simp
qed

text \<open>Below the overflow threshold the rounded magnitude is within half a unit in the last place.\<close>

lemma round_mag_error:
  assumes "0 < q" "round_mag p q < f_inf_bits"
  shows "\<exists>s. 2 * \<bar>int (mag_of_bits (round_mag p q)) * int q - int p\<bar> \<le> int q * 2 ^ s
    \<and> (s = 0 \<or> 2 ^ 23 * 2 ^ s \<le> p div q)"
proof -
  define s where "s = bit_len (p div q) - 24"
  define d where "d = q * 2 ^ s"
  define m where "m = p div d"
  define m' where "m' = (if 2 * (p mod d) > d \<or> 2 * (p mod d) = d \<and> odd m then m + 1 else m)"
  have "round_mag p q = min (s * 2 ^ 23 + m') f_inf_bits"
    by (simp only: round_mag_def Let_def s_def d_def m_def m'_def)
  then have res: "round_mag p q = s * 2 ^ 23 + m'"
    using assms(2) by (auto simp: min_def split: if_splits)
  have m: "m = (p div q) div 2 ^ s" by (simp add: m_def d_def div_mult2_eq)
  have d: "0 < d" using assms(1) by (simp add: d_def)
  have big: "2 ^ 23 * 2 ^ s \<le> p div q" if "s \<noteq> 0"
  proof -
    have "bit_len (p div q) - 1 = 23 + s" "p div q \<noteq> 0"
      using that by (auto simp: s_def intro: gr0I)
    then show ?thesis using bit_len_bounds [of "p div q"] by (simp only: power_add)
  qed
  have "m < 2 ^ 24"
  proof (cases "p div q = 0")
    case False
    have "p div q < 2 ^ bit_len (p div q)" using bit_len_bounds False by simp
    also have "\<dots> \<le> 2 ^ (24 + s)" by (rule power_increasing) (simp_all add: s_def)
    finally have "p div q < 2 ^ 24 * 2 ^ s" by (simp only: power_add)
    then show ?thesis unfolding m by (rule less_mult_imp_div_less)
  qed (simp add: m)
  moreover have "s = 0 \<or> 2 ^ 23 \<le> m"
    using big unfolding m by (cases "s = 0") (simp_all add: less_eq_div_iff_mult_less_eq)
  ultimately have "mag_of_bits (round_mag p q) = m' * 2 ^ s"
    unfolding res by (intro mag_of_scaled) (auto simp: m'_def)
  moreover have "2 * \<bar>int m' * int d - int p\<bar> \<le> int d"
  proof -
    obtain r where r: "r = p mod d" by simp
    then have "p = m * d + r" by (simp add: m_def)
    then have p: "int p = int m * int d + int r" by simp
    have "r < d" using d r by simp
    consider "m' = m + 1" "d \<le> 2 * r" | "m' = m" "2 * r \<le> d"
      unfolding m'_def r [symmetric] by (cases "d < 2 * r \<or> 2 * r = d \<and> odd m") auto
    then show ?thesis
    proof cases
      case 1
      then have "int m' * int d - int p = int d - int r" by (simp add: p distrib_right)
      with 1 \<open>r < d\<close> show ?thesis by simp
    next
      case 2
      then have "int m' * int d - int p = - int r" by (simp add: p)
      with 2 show ?thesis by simp
    qed
  qed
  moreover have "int d = int q * 2 ^ s" by (simp add: d_def)
  moreover have "int (m' * 2 ^ s) * int q = int m' * (int q * 2 ^ s)" by simp
  ultimately have "2 * \<bar>int (mag_of_bits (round_mag p q)) * int q - int p\<bar> \<le> int q * 2 ^ s"
    by (simp only:)
  moreover have "s = 0 \<or> 2 ^ 23 * 2 ^ s \<le> p div q"
    by (cases "s = 0") (rule disjI1, assumption, rule disjI2, rule big)
  ultimately show ?thesis by (intro exI conjI)
qed

text \<open>Rounding is monotone: it does not pass a representable magnitude.\<close>

lemma round_mag_le:
  assumes "0 < q" "p \<le> mag_of_bits b * q" "b \<le> f_inf_bits"
  shows "round_mag p q \<le> b"
proof -
  define s where "s = bit_len (p div q) - 24"
  define d where "d = q * 2 ^ s"
  define m where "m = p div d"
  define m' where "m' = (if 2 * (p mod d) > d \<or> 2 * (p mod d) = d \<and> odd m then m + 1 else m)"
  have res: "round_mag p q \<le> s * 2 ^ 23 + m'"
    by (simp only: round_mag_def Let_def s_def d_def m_def m'_def min.cobounded1)
  have d: "0 < d" using assms(1) by (simp add: d_def)
  obtain sb mb where b: "b = sb * 2 ^ 23 + mb" "mb < 2 ^ 24" "sb = 0 \<or> 2 ^ 23 \<le> mb"
    by (rule bits_as_scaled)
  have mag: "mag_of_bits b = mb * 2 ^ sb"
    unfolding b(1) using b(2,3) by (intro mag_of_scaled) simp_all
  have pq: "p div q \<le> mb * 2 ^ sb" using div_le_mono [OF assms(2), of q] assms(1) mag by simp
  have m: "m = (p div q) div 2 ^ s" by (simp add: m_def d_def div_mult2_eq)
  have "m < 2 ^ 24"
  proof (cases "p div q = 0")
    case False
    have "p div q < 2 ^ bit_len (p div q)" using bit_len_bounds False by simp
    also have "\<dots> \<le> 2 ^ (24 + s)" by (rule power_increasing) (simp_all add: s_def)
    finally have "p div q < 2 ^ 24 * 2 ^ s" by (simp only: power_add)
    then show ?thesis unfolding m by (rule less_mult_imp_div_less)
  qed (simp add: m)
  then have m': "m' \<le> 2 ^ 24" by (simp add: m'_def)
  have "s \<le> sb"
  proof (cases "s = 0")
    case False
    then have nz: "0 < p div q" "bit_len (p div q) - 1 = 23 + s" by (auto simp: s_def intro: gr0I)
    have "2 ^ (bit_len (p div q) - 1) \<le> p div q" using bit_len_bounds nz(1) by blast
    also have "\<dots> < 2 ^ 24 * 2 ^ sb" using le_less_trans [OF pq mult_strict_right_mono [OF b(2)]] by simp
    finally have "(2 :: nat) ^ (23 + s) < 2 ^ (24 + sb)" by (simp only: nz(2) power_add)
    then have "23 + s < 24 + sb" by (simp only: power_strict_increasing_iff)
    then show ?thesis by simp
  qed simp
  then consider "s = sb" | "Suc s \<le> sb" by linarith
  then have "s * 2 ^ 23 + m' \<le> b"
  proof cases
    case 1
    have "m \<le> mb" using div_le_mono [OF pq, of "2 ^ s"] 1 by (simp add: m)
    moreover have "m' = m" if "m = mb"
    proof -
      have "p \<le> m * d" using assms(2) by (simp add: mag that d_def 1 ac_simps)
      then have "p mod d = 0"
        using div_mult_mod_eq [of p d] by (simp only: m_def [symmetric])
      then show ?thesis using d by (simp add: m'_def)
    qed
    moreover have "m' \<le> m + 1" by (simp add: m'_def)
    ultimately have "m' \<le> mb" by linarith
    then show ?thesis using b(1) 1 by simp
  next
    case 2
    then have "2 ^ 23 \<le> mb" using b(3) by simp
    moreover have "Suc s * 2 ^ 23 \<le> sb * 2 ^ 23" using 2 by (rule mult_le_mono1)
    ultimately show ?thesis using b(1) m' by simp
  qed
  then show ?thesis using res by linarith
qed

section \<open>Magnitudes of results\<close>

lemma round_mag_le_inf: "round_mag p q \<le> f_inf_bits"
  by (simp add: round_mag_def Let_def)

lemma pack_positive:
  assumes "b \<le> f_inf_bits"
  shows "f_abs_bits (f_pack False b) = b" and "\<not> f_sign (f_pack False b)"
proof -
  have b: "b < 2 ^ 31" using assms by (simp add: f_inf_bits_def)
  then have small: "b < 2 ^ LENGTH(32)" by simp
  have "(of_nat b :: u32) AND 0x7FFFFFFF = take_bit 31 (of_nat b)"
    by (simp add: take_bit_eq_mask mask_eq_exp_minus_1)
  then have "unat ((of_nat b :: u32) AND 0x7FFFFFFF) = b"
    using take_bit_nat_eq_self [OF b] take_bit_nat_eq_self [OF small]
    by (simp only: unsigned_take_bit_eq unsigned_of_nat of_nat_id)
  then show "f_abs_bits (f_pack False b) = b" by (simp add: f_abs_bits_def f_pack_def)
  have "\<not> bit (of_nat b :: u32) 31"
    using b by (simp add: bit_simps bit_nat_iff) (auto simp: bit_iff_odd)
  then show "\<not> f_sign (f_pack False b)" by (simp add: f_sign_def f_pack_def)
qed

lemma f_pack_num: "b \<le> f_inf_bits \<Longrightarrow> \<not> f_isnan (f_pack False b) \<and> f_int (f_pack False b) = int (mag_of_bits b)"
  by (simp add: f_isnan_def f_int_def f_mag_def pack_positive)

section \<open>Square roots\<close>

lemma isqrt_bounds: "isqrt n * isqrt n \<le> n \<and> n < (isqrt n + 1) * (isqrt n + 1)"
proof (induction n rule: isqrt.induct)
  case (1 n)
  show ?case
  proof (cases "n = 0")
    case True
    then show ?thesis by (simp add: isqrt.simps)
  next
    case False
    define k where "k = isqrt (n div 4)"
    have IH: "k * k \<le> n div 4" "n div 4 < (k + 1) * (k + 1)"
      using 1 False by (simp_all add: k_def)
    have lo: "(2 * k) * (2 * k) \<le> n" using IH(1) by simp
    have hi: "n < (2 * k + 1 + 1) * (2 * k + 1 + 1)" using IH(2) by simp
    have "isqrt n = (if (2 * k + 1) * (2 * k + 1) \<le> n then 2 * k + 1 else 2 * k)"
      using False by (subst isqrt.simps) (simp add: k_def Let_def)
    then consider "isqrt n = 2 * k + 1" "(2 * k + 1) * (2 * k + 1) \<le> n"
      | "isqrt n = 2 * k" "n < (2 * k + 1) * (2 * k + 1)"
      by (metis not_le)
    then show ?thesis using lo hi by cases simp_all
  qed
qed

lemma isqrt_unique: "r * r \<le> n \<Longrightarrow> n < (r + 1) * (r + 1) \<Longrightarrow> isqrt n = r"
proof -
  assume r: "r * r \<le> n" "n < (r + 1) * (r + 1)"
  have "isqrt n * isqrt n < (r + 1) * (r + 1)" "r * r < (isqrt n + 1) * (isqrt n + 1)"
    using isqrt_bounds [of n] r by linarith+
  then have "isqrt n < r + 1" "r < isqrt n + 1"
    by (meson mult_le_mono not_le)+
  then show ?thesis by simp
qed

section \<open>Evaluation on concrete values\<close>

lemma bit_len_numeral:
  "bit_len (numeral k) = Suc (bit_len (numeral k div 2))" "bit_len 1 = 1" "bit_len (Suc 0) = 1"
  by (subst bit_len.simps, simp)+

lemmas f_eval = f_le_def f_lt_def f_eq_def f_isnan_def f_isinf_def f_inf_bits_def f_abs_bits_def
  f_int_def f_mag_def mag_of_bits_def f_sign_def round_mag_def f_pack_def bit_len_numeral Let_def

lemma f_nan_isnan [simp]: "f_isnan f_nan"
  by (simp add: f_nan_def f_eval)

lemma f_nan_absorbs [simp]:
  "f_isnan x \<Longrightarrow> f_add x y = f_nan" "f_isnan y \<Longrightarrow> f_add x y = f_nan"
  "f_isnan x \<Longrightarrow> f_sub x y = f_nan" "f_isnan y \<Longrightarrow> f_sub x y = f_nan"
  "f_isnan x \<Longrightarrow> f_mul x y = f_nan" "f_isnan y \<Longrightarrow> f_mul x y = f_nan"
  "f_isnan x \<Longrightarrow> f_div x y = f_nan" "f_isnan y \<Longrightarrow> f_div x y = f_nan"
  "f_isnan x \<Longrightarrow> f_sqrt x = f_nan"
  by (simp_all add: f_add_def f_sub_def f_mul_def f_div_def f_sqrt_def)

lemma f_zero_arith [simp]:
  "f_add 0 0 = 0" "f_mul 0 0 = 0" "f_sqrt 0 = 0" "f_div 0 0 = f_nan"
  by (simp_all add: f_add_def f_mul_def f_sqrt_def f_div_def f_eval)

lemma f_sub_self:
  assumes "\<not> f_isnan x" "\<not> f_isinf x"
  shows "f_sub x x = 0"
proof -
  have "(x XOR 0x80000000) AND 0x7FFFFFFF = x AND (0x7FFFFFFF :: u32)"
    by (simp add: bit.conj_xor_distrib2)
  then have abs: "f_abs_bits (f_neg x) = f_abs_bits x" by (simp add: f_abs_bits_def f_neg_def)
  have sgn: "f_sign (f_neg x) = (\<not> f_sign x)"
    by (simp add: f_sign_def f_neg_def bit_xor_iff bit_numeral_rec)
  have "f_int x + f_int (f_neg x) = 0"
    by (simp add: f_int_def f_mag_def abs sgn)
  then show ?thesis
    using assms sgn by (simp add: f_sub_def f_add_def f_isnan_def f_isinf_def abs f_pack_def)
qed

end
