(* ===== verification/Components.thy ===== *)
theory Components
  imports F32
begin

text \<open>
  The component data of the entity component system: \<open>transform.hpp\<close>, \<open>health.hpp\<close>,
  \<open>game_object.hpp\<close> and \<open>map.hpp\<close> under \<open>server/game/components\<close>. Each struct is a record, its
  constructor a definition, its \<open>clone\<close> the sequence of assignments of the source. A
  \<open>std::unordered_set\<close> of entities is a list without duplicates, in iteration order.
\<close>

type_synonym entity = u32

section \<open>Unordered sets of entities\<close>

definition uset_insert :: "'a \<Rightarrow> 'a list \<Rightarrow> 'a list" where
  "uset_insert x xs = (if x \<in> set xs then xs else xs @ [x])"

lemma set_uset_insert [simp]: "set (uset_insert x xs) = insert x (set xs)"
  by (auto simp: uset_insert_def)

lemma distinct_uset_insert [simp]: "distinct (uset_insert x xs) = distinct xs"
  by (auto simp: uset_insert_def)

lemma distinct_remove1 [simp]: "distinct xs \<Longrightarrow> set (remove1 x xs) = set xs - {x}"
  by simp

section \<open>Transform\<close>

record position =
  pos_x :: f32
  pos_y :: f32
  pos_z :: f32

record rotation =
  rot_x :: f32
  rot_y :: f32
  rot_z :: f32
  rot_w :: f32

record scale =
  scale_x :: f32
  scale_y :: f32
  scale_z :: f32

record velocity =
  vel_x :: f32
  vel_y :: f32
  vel_z :: f32

definition Position :: "f32 \<Rightarrow> f32 \<Rightarrow> f32 \<Rightarrow> position" where
  "Position x y z = \<lparr>pos_x = x, pos_y = y, pos_z = z\<rparr>"

definition Rotation :: "f32 \<Rightarrow> f32 \<Rightarrow> f32 \<Rightarrow> f32 \<Rightarrow> rotation" where
  "Rotation x y z w = \<lparr>rot_x = x, rot_y = y, rot_z = z, rot_w = w\<rparr>"

definition Scale :: "f32 \<Rightarrow> f32 \<Rightarrow> f32 \<Rightarrow> scale" where
  "Scale x y z = \<lparr>scale_x = x, scale_y = y, scale_z = z\<rparr>"

definition Velocity :: "f32 \<Rightarrow> f32 \<Rightarrow> f32 \<Rightarrow> velocity" where
  "Velocity x y z = \<lparr>vel_x = x, vel_y = y, vel_z = z\<rparr>"

definition position_clone :: "position \<Rightarrow> position" where
  "position_clone p = Position (pos_x p) (pos_y p) (pos_z p)"

definition rotation_clone :: "rotation \<Rightarrow> rotation" where
  "rotation_clone r = Rotation (rot_x r) (rot_y r) (rot_z r) (rot_w r)"

definition scale_clone :: "scale \<Rightarrow> scale" where
  "scale_clone s = Scale (scale_x s) (scale_y s) (scale_z s)"

definition velocity_clone :: "velocity \<Rightarrow> velocity" where
  "velocity_clone v = Velocity (vel_x v) (vel_y v) (vel_z v)"

section \<open>Health and status\<close>

record health =
  hp :: u32
  max_hp :: u32
  mp :: u32
  max_mp :: u32
  is_alive :: bool

definition Health :: "u32 \<Rightarrow> u32 \<Rightarrow> health" where
  "Health mhp mmp = \<lparr>hp = mhp, max_hp = mhp, mp = mmp, max_mp = mmp, is_alive = True\<rparr>"

definition health_clone :: "health \<Rightarrow> health" where
  "health_clone h =
    (let c = Health (max_hp h) (max_mp h);
         c = c\<lparr>hp := hp h\<rparr>;
         c = c\<lparr>mp := mp h\<rparr>;
         c = c\<lparr>is_alive := is_alive h\<rparr>
     in c)"

definition health_take_damage :: "u32 \<Rightarrow> health \<Rightarrow> health" where
  "health_take_damage damage h =
    (if damage \<ge> hp h then h\<lparr>hp := 0, is_alive := False\<rparr>
     else h\<lparr>hp := hp h - damage\<rparr>)"

definition health_heal :: "u32 \<Rightarrow> health \<Rightarrow> health" where
  "health_heal amount h =
    (let h = h\<lparr>hp := min (hp h + amount) (max_hp h)\<rparr>
     in if hp h > 0 then h\<lparr>is_alive := True\<rparr> else h)"

definition get_hp_percentage :: "health \<Rightarrow> f32" where
  "get_hp_percentage h = f_div (f_of_u32 (hp h)) (f_of_u32 (max_hp h))"

definition get_mp_percentage :: "health \<Rightarrow> f32" where
  "get_mp_percentage h = f_div (f_of_u32 (mp h)) (f_of_u32 (max_mp h))"

record status =
  st_level :: u32
  st_experience :: u32
  st_gold :: u32
  is_in_combat :: bool
  is_moving :: bool

definition Status :: "u32 \<Rightarrow> status" where
  "Status l = \<lparr>st_level = l, st_experience = 0, st_gold = 0, is_in_combat = False, is_moving = False\<rparr>"

definition status_clone :: "status \<Rightarrow> status" where
  "status_clone s =
    (let c = Status (st_level s);
         c = c\<lparr>st_experience := st_experience s\<rparr>;
         c = c\<lparr>st_gold := st_gold s\<rparr>;
         c = c\<lparr>is_in_combat := is_in_combat s\<rparr>;
         c = c\<lparr>is_moving := is_moving s\<rparr>
     in c)"

definition add_experience :: "u32 \<Rightarrow> status \<Rightarrow> status" where
  "add_experience e s = s\<lparr>st_experience := st_experience s + e\<rparr>"

definition add_gold :: "u32 \<Rightarrow> status \<Rightarrow> status" where
  "add_gold amount s = s\<lparr>st_gold := st_gold s + amount\<rparr>"

definition spend_gold :: "u32 \<Rightarrow> status \<Rightarrow> status \<times> bool" where
  "spend_gold amount s =
    (if st_gold s \<ge> amount then (s\<lparr>st_gold := st_gold s - amount\<rparr>, True) else (s, False))"

section \<open>Game objects\<close>

datatype GameObjectType = PLAYER | NPC_OBJECT | MONSTER | ITEM | INTERACTIVE_OBJECT | PROJECTILE | EFFECT

record game_object =
  go_type :: GameObjectType
  go_name :: bytes
  object_id :: u32
  is_active :: bool

record player =
  player_name :: bytes
  player_id :: u32
  pl_level :: u32
  pl_experience :: u32
  pl_map_id :: u32
  pl_channel_id :: int

record monster =
  monster_type :: u32
  mon_level :: u32
  mon_hp :: u32
  mon_max_hp :: u32
  target_entity :: u32

record npc =
  npc_type :: u32
  npc_name :: bytes
  npc_level :: u32
  is_interactable :: bool

record item =
  it_item_id :: u32
  item_name :: bytes
  item_type :: u32
  quantity :: u32
  is_pickupable :: bool

definition GameObject :: "GameObjectType \<Rightarrow> bytes \<Rightarrow> u32 \<Rightarrow> game_object" where
  "GameObject t n oid = \<lparr>go_type = t, go_name = n, object_id = oid, is_active = True\<rparr>"

definition Player :: "bytes \<Rightarrow> u32 \<Rightarrow> int \<Rightarrow> u32 \<Rightarrow> player" where
  "Player n pid cid mid = \<lparr>player_name = n, player_id = pid, pl_level = 1, pl_experience = 0,
     pl_map_id = mid, pl_channel_id = cid\<rparr>"

definition Monster :: "u32 \<Rightarrow> u32 \<Rightarrow> monster" where
  "Monster t l = \<lparr>monster_type = t, mon_level = l, mon_hp = 100, mon_max_hp = 100, target_entity = 0\<rparr>"

definition NPC :: "u32 \<Rightarrow> bytes \<Rightarrow> npc" where
  "NPC t n = \<lparr>npc_type = t, npc_name = n, npc_level = 1, is_interactable = True\<rparr>"

definition Item :: "u32 \<Rightarrow> bytes \<Rightarrow> u32 \<Rightarrow> item" where
  "Item iid n t = \<lparr>it_item_id = iid, item_name = n, item_type = t, quantity = 1, is_pickupable = True\<rparr>"

definition game_object_clone :: "game_object \<Rightarrow> game_object" where
  "game_object_clone g =
    (let c = GameObject (go_type g) (go_name g) (object_id g) in c\<lparr>is_active := is_active g\<rparr>)"

definition player_clone :: "player \<Rightarrow> player" where
  "player_clone p =
    (let c = Player (player_name p) (player_id p) (pl_channel_id p) (pl_map_id p);
         c = c\<lparr>pl_level := pl_level p\<rparr>
     in c\<lparr>pl_experience := pl_experience p\<rparr>)"

definition monster_clone :: "monster \<Rightarrow> monster" where
  "monster_clone m =
    (let c = Monster (monster_type m) (mon_level m);
         c = c\<lparr>mon_hp := mon_hp m\<rparr>;
         c = c\<lparr>mon_max_hp := mon_max_hp m\<rparr>
     in c\<lparr>target_entity := target_entity m\<rparr>)"

definition npc_clone :: "npc \<Rightarrow> npc" where
  "npc_clone n =
    (let c = NPC (npc_type n) (npc_name n);
         c = c\<lparr>npc_level := npc_level n\<rparr>
     in c\<lparr>is_interactable := is_interactable n\<rparr>)"

definition item_clone :: "item \<Rightarrow> item" where
  "item_clone i =
    (let c = Item (it_item_id i) (item_name i) (item_type i);
         c = c\<lparr>quantity := quantity i\<rparr>
     in c\<lparr>is_pickupable := is_pickupable i\<rparr>)"

section \<open>Maps\<close>

record map_component =
  map_id :: int
  map_name :: bytes
  map_width :: f32
  map_height :: f32
  max_players :: int
  map_data :: bytes

record map_objects_component =
  mo_players :: "entity list"
  mo_monsters :: "entity list"
  mo_npcs :: "entity list"
  mo_items :: "entity list"

record map_bounds_component =
  min_x :: f32
  min_y :: f32
  min_z :: f32
  max_x :: f32
  max_y :: f32
  max_z :: f32

definition MapComponent :: "int \<Rightarrow> bytes \<Rightarrow> f32 \<Rightarrow> f32 \<Rightarrow> int \<Rightarrow> map_component" where
  "MapComponent mid n w h mxp = \<lparr>map_id = mid, map_name = n, map_width = w, map_height = h,
     max_players = mxp, map_data = []\<rparr>"

definition map_component_clone :: "map_component \<Rightarrow> map_component" where
  "map_component_clone m =
    (let c = MapComponent (map_id m) (map_name m) (map_width m) (map_height m) (max_players m)
     in c\<lparr>map_data := map_data m\<rparr>)"

definition MapObjectsComponent :: map_objects_component where
  "MapObjectsComponent = \<lparr>mo_players = [], mo_monsters = [], mo_npcs = [], mo_items = []\<rparr>"

definition mo_add_player :: "entity \<Rightarrow> map_objects_component \<Rightarrow> map_objects_component" where
  "mo_add_player e m = m\<lparr>mo_players := uset_insert e (mo_players m)\<rparr>"

definition mo_add_monster :: "entity \<Rightarrow> map_objects_component \<Rightarrow> map_objects_component" where
  "mo_add_monster e m = m\<lparr>mo_monsters := uset_insert e (mo_monsters m)\<rparr>"

definition mo_add_npc :: "entity \<Rightarrow> map_objects_component \<Rightarrow> map_objects_component" where
  "mo_add_npc e m = m\<lparr>mo_npcs := uset_insert e (mo_npcs m)\<rparr>"

definition mo_add_item :: "entity \<Rightarrow> map_objects_component \<Rightarrow> map_objects_component" where
  "mo_add_item e m = m\<lparr>mo_items := uset_insert e (mo_items m)\<rparr>"

definition mo_remove_player :: "entity \<Rightarrow> map_objects_component \<Rightarrow> map_objects_component" where
  "mo_remove_player e m = m\<lparr>mo_players := remove1 e (mo_players m)\<rparr>"

definition mo_remove_monster :: "entity \<Rightarrow> map_objects_component \<Rightarrow> map_objects_component" where
  "mo_remove_monster e m = m\<lparr>mo_monsters := remove1 e (mo_monsters m)\<rparr>"

definition mo_remove_npc :: "entity \<Rightarrow> map_objects_component \<Rightarrow> map_objects_component" where
  "mo_remove_npc e m = m\<lparr>mo_npcs := remove1 e (mo_npcs m)\<rparr>"

definition mo_remove_item :: "entity \<Rightarrow> map_objects_component \<Rightarrow> map_objects_component" where
  "mo_remove_item e m = m\<lparr>mo_items := remove1 e (mo_items m)\<rparr>"

definition map_objects_clone :: "map_objects_component \<Rightarrow> map_objects_component" where
  "map_objects_clone m =
    (let c = MapObjectsComponent;
         c = c\<lparr>mo_players := mo_players m\<rparr>;
         c = c\<lparr>mo_monsters := mo_monsters m\<rparr>;
         c = c\<lparr>mo_npcs := mo_npcs m\<rparr>
     in c\<lparr>mo_items := mo_items m\<rparr>)"

definition MapBoundsComponent ::
  "f32 \<Rightarrow> f32 \<Rightarrow> f32 \<Rightarrow> f32 \<Rightarrow> f32 \<Rightarrow> f32 \<Rightarrow> map_bounds_component" where
  "MapBoundsComponent x0 y0 z0 x1 y1 z1 =
    \<lparr>min_x = x0, min_y = y0, min_z = z0, max_x = x1, max_y = y1, max_z = z1\<rparr>"

definition is_inside :: "map_bounds_component \<Rightarrow> f32 \<Rightarrow> f32 \<Rightarrow> f32 \<Rightarrow> bool" where
  "is_inside b x y z \<longleftrightarrow>
     f_le (min_x b) x \<and> f_le x (max_x b) \<and>
     f_le (min_y b) y \<and> f_le y (max_y b) \<and>
     f_le (min_z b) z \<and> f_le z (max_z b)"

definition map_bounds_clone :: "map_bounds_component \<Rightarrow> map_bounds_component" where
  "map_bounds_clone b = MapBoundsComponent (min_x b) (min_y b) (min_z b) (max_x b) (max_y b) (max_z b)"

section \<open>Cloning\<close>

lemmas clone_defs = position_clone_def Position_def rotation_clone_def Rotation_def scale_clone_def
  Scale_def velocity_clone_def Velocity_def health_clone_def Health_def status_clone_def Status_def
  game_object_clone_def GameObject_def player_clone_def Player_def monster_clone_def Monster_def
  npc_clone_def NPC_def item_clone_def Item_def map_component_clone_def MapComponent_def
  map_objects_clone_def MapObjectsComponent_def map_bounds_clone_def MapBoundsComponent_def

text \<open>
  Every component's \<open>clone\<close> copies all of its fields: the clone equals the original.
\<close>

lemma clones_are_copies:
  "position_clone p = p \<and> rotation_clone r = r \<and> scale_clone s = s \<and> velocity_clone v = v
   \<and> health_clone h = h \<and> status_clone st = st \<and> game_object_clone g = g \<and> player_clone pl = pl
   \<and> monster_clone m = m \<and> npc_clone n = n \<and> item_clone i = i \<and> map_component_clone mc = mc
   \<and> map_objects_clone mo = mo \<and> map_bounds_clone mb = mb"
  by (simp add: clone_defs)

section \<open>Damage and healing\<close>

definition health_ok :: "health \<Rightarrow> bool" where
  "health_ok h \<longleftrightarrow> hp h \<le> max_hp h \<and> is_alive h = (hp h > 0)"

lemma health_ok_new: "0 < mhp \<Longrightarrow> health_ok (Health mhp mmp)"
  by (simp add: health_ok_def Health_def)

lemma health_ok_take_damage: "health_ok h \<Longrightarrow> health_ok (health_take_damage d h)"
proof -
  assume ok: "health_ok h"
  show "health_ok (health_take_damage d h)"
  proof (cases "d \<ge> hp h")
    case True
    then show ?thesis using ok by (simp add: health_take_damage_def health_ok_def)
  next
    case False
    then have "hp h - d \<le> hp h" "0 < hp h - d"
      by (auto simp: word_le_nat_alt word_less_nat_alt unat_sub)
    then show ?thesis using ok False
      by (auto simp: health_take_damage_def health_ok_def)
  qed
qed

lemma health_ok_heal:
  assumes "health_ok h" "unat (hp h) + unat a < 2 ^ 32"
  shows "health_ok (health_heal a h)"
proof -
  have "0 < hp h + a" if "0 < hp h"
    using that assms(2) by (simp add: word_less_nat_alt unat_plus_u32)
  then show ?thesis using assms(1) by (auto simp: health_heal_def health_ok_def Let_def min_def)
qed

text \<open>
  Damage is saturating subtraction on the hit points and never wraps. The component is dead
  exactly when they are zero and they never exceed \<open>max_hp\<close>: damage keeps this, and so does healing
  by an amount that does not overflow the sum, which then is the sum capped at \<open>max_hp\<close>.
\<close>

lemma health_operations_correct:
  assumes "health_ok h"
  shows "unat (hp (health_take_damage d h)) = unat (hp h) - unat d
    \<and> health_ok (health_take_damage d h)
    \<and> (unat (hp h) + unat a < 2 ^ 32 \<longrightarrow> health_ok (health_heal a h)
        \<and> unat (hp (health_heal a h)) = min (unat (hp h) + unat a) (unat (max_hp h)))"
proof -
  have "unat (hp (health_take_damage d h)) = unat (hp h) - unat d"
    by (simp add: health_take_damage_def word_le_nat_alt unat_sub)
  moreover have "unat (hp (health_heal a h)) = min (unat (hp h) + unat a) (unat (max_hp h))"
    if "unat (hp h) + unat a < 2 ^ 32"
    using that by (auto simp: health_heal_def Let_def min_def word_le_nat_alt unat_plus_u32)
  ultimately show ?thesis
    using health_ok_take_damage [OF assms] health_ok_heal [OF assms] by simp
qed

lemma health_operations_correct_witness:
  "unat (hp (health_take_damage 30 (Health 100 50))) = unat (hp (Health 100 50)) - unat (30 :: u32)
    \<and> health_ok (health_take_damage 30 (Health 100 50))
    \<and> health_ok (health_heal 5 (Health 100 50))
    \<and> unat (hp (health_heal 5 (Health 100 50)))
        = min (unat (hp (Health 100 50)) + unat (5 :: u32)) (unat (max_hp (Health 100 50)))"
proof -
  have "health_ok (Health 100 50)" by (simp add: health_ok_new)
  moreover have "unat (hp (Health 100 50)) + unat (5 :: u32) < 2 ^ 32" by (simp add: Health_def)
  ultimately show ?thesis using health_operations_correct [of "Health 100 50" 30 5] by blast
qed

text \<open>
  \<open>hp + amount\<close> is computed in 32 bits before the comparison with \<open>max_hp\<close>: an amount that
  overflows the sum takes hit points away instead of restoring them.
\<close>

lemma heal_overflow_hurts:
  assumes "unat (hp h) + unat a \<ge> 2 ^ 32"
  shows "hp (health_heal a h) < hp h"
proof -
  have "unat a < 2 ^ 32" by (rule unat_less_u32)
  moreover have "unat (hp h + a) = unat (hp h) + unat a - 2 ^ 32"
    using assms by (simp add: unat_plus_u32_wrap)
  ultimately have "hp h + a < hp h" using assms by (simp add: word_less_nat_alt)
  then show ?thesis by (auto simp: health_heal_def Let_def min_def)
qed

lemma heal_overflow_hurts_witness:
  "hp (health_heal 0xFFFFFFFF (Health 100 50)) < hp (Health 100 50)"
  by (rule heal_overflow_hurts) (simp add: Health_def)

text \<open>Gold is spent only when there is enough of it, and then exactly the amount.\<close>

lemma spend_gold_correct:
  "spend_gold amount s = (s', ok) \<Longrightarrow>
     ok = (unat amount \<le> unat (st_gold s))
   \<and> unat (st_gold s') = (if ok then unat (st_gold s) - unat amount else unat (st_gold s))
   \<and> s' = s\<lparr>st_gold := st_gold s'\<rparr>"
  by (auto simp: spend_gold_def word_le_nat_alt unat_sub split: if_splits)

lemma spend_gold_correct_witness:
  "True = (unat (30 :: u32) \<le> unat (st_gold (add_gold 50 (Status 1))))
   \<and> unat (st_gold (add_gold 50 (Status 1)\<lparr>st_gold := 20\<rparr>))
      = (if True then unat (st_gold (add_gold 50 (Status 1))) - unat (30 :: u32)
         else unat (st_gold (add_gold 50 (Status 1))))
   \<and> add_gold 50 (Status 1)\<lparr>st_gold := 20\<rparr>
      = add_gold 50 (Status 1)\<lparr>st_gold := st_gold (add_gold 50 (Status 1)\<lparr>st_gold := 20\<rparr>)\<rparr>"
  by (rule spend_gold_correct) (simp add: spend_gold_def add_gold_def Status_def)

end
