(* ===== verification/Ecs.thy ===== *)
theory Ecs
  imports Components "HOL-Library.AList"
begin

text \<open>
  The core of the entity component system (\<open>server/game/ecs\<close>): the entity manager, the component
  stores and their manager, the system manager and the memory pool.

  The template parameter \<open>T\<close> of the component operations is a \<open>slot\<close>: the pair of reader and
  writer of the store of that type. \<open>std::unordered_map\<close> is an association list in iteration
  order. The stores exist from the start in the model; which of them \<open>get_store\<close> has created is
  recorded in \<open>store_keys\<close>, the keys of \<open>stores_\<close>.
\<close>

section \<open>Entity manager\<close>

record entity_manager =
  active_entities :: "entity list"
  next_entity_id :: u32
  entity_count :: u32

definition EntityManager :: entity_manager where
  "EntityManager = \<lparr>active_entities = [], next_entity_id = 1, entity_count = 0\<rparr>"

definition create_entity :: "entity_manager \<Rightarrow> entity_manager \<times> entity" where
  "create_entity em =
    (let e = next_entity_id em;
         em = em\<lparr>next_entity_id := next_entity_id em + 1\<rparr>;
         em = em\<lparr>active_entities := uset_insert e (active_entities em)\<rparr>;
         em = em\<lparr>entity_count := entity_count em + 1\<rparr>
     in (em, e))"

definition destroy_entity :: "entity \<Rightarrow> entity_manager \<Rightarrow> entity_manager" where
  "destroy_entity e em =
    (if e \<in> set (active_entities em)
     then em\<lparr>active_entities := remove1 e (active_entities em), entity_count := entity_count em - 1\<rparr>
     else em)"

definition is_valid :: "entity_manager \<Rightarrow> entity \<Rightarrow> bool" where
  "is_valid em e = (e \<in> set (active_entities em))"

definition get_all_entities :: "entity_manager \<Rightarrow> entity list" where
  "get_all_entities em = active_entities em"

definition em_get_entities_in_range :: "entity_manager \<Rightarrow> f32 \<Rightarrow> f32 \<Rightarrow> f32 \<Rightarrow> f32 \<Rightarrow> entity list" where
  "em_get_entities_in_range em x y z r = get_all_entities em"

definition get_entity_count :: "entity_manager \<Rightarrow> u32" where
  "get_entity_count em = entity_count em"

definition get_next_id :: "entity_manager \<Rightarrow> u32" where
  "get_next_id em = next_entity_id em"

definition destroy_entities :: "entity list \<Rightarrow> entity_manager \<Rightarrow> entity_manager" where
  "destroy_entities es em = fold (\<lambda>e em.
     if e \<in> set (active_entities em)
     then em\<lparr>active_entities := remove1 e (active_entities em), entity_count := entity_count em - 1\<rparr>
     else em) es em"

fun create_loop :: "nat \<Rightarrow> entity_manager \<Rightarrow> entity_manager \<times> entity list" where
  "create_loop 0 em = (em, [])"
| "create_loop (Suc n) em =
    (let e = next_entity_id em;
         em = em\<lparr>next_entity_id := next_entity_id em + 1\<rparr>;
         em = em\<lparr>active_entities := uset_insert e (active_entities em)\<rparr>;
         (em, es) = create_loop n em
     in (em, e # es))"

definition create_entities :: "u32 \<Rightarrow> entity_manager \<Rightarrow> entity_manager \<times> entity list" where
  "create_entities count em =
    (let (em, es) = create_loop (unat count) em
     in (em\<lparr>entity_count := entity_count em + count\<rparr>, es))"

section \<open>Component stores\<close>

type_synonym 'a store = "(entity \<times> 'a) list"

definition store_add :: "entity \<Rightarrow> 'a \<Rightarrow> 'a store \<Rightarrow> 'a store" where
  "store_add e c s = AList.update e c s"

definition store_remove :: "entity \<Rightarrow> 'a store \<Rightarrow> 'a store" where
  "store_remove e s = AList.delete e s"

definition store_get :: "entity \<Rightarrow> 'a store \<Rightarrow> 'a option" where
  "store_get e s = map_of s e"

definition store_has :: "entity \<Rightarrow> 'a store \<Rightarrow> bool" where
  "store_has e s = (store_get e s \<noteq> None)"

definition snapshot :: "'a store \<Rightarrow> (entity \<times> 'a) list" where
  "snapshot s = s"

definition snapshot_entities :: "'a store \<Rightarrow> entity list" where
  "snapshot_entities s = map fst s"

definition store_size :: "'a store \<Rightarrow> nat" where
  "store_size s = length s"

text \<open>
  A write through the pointer that \<open>get\<close> returned: \<open>if (auto* c = get(e)) f(*c);\<close>
\<close>

definition store_modify :: "entity \<Rightarrow> ('a \<Rightarrow> 'a) \<Rightarrow> 'a store \<Rightarrow> 'a store" where
  "store_modify e f s = map (\<lambda>(k, c). if k = e then (k, f c) else (k, c)) s"

text \<open>The contract of a keyed store.\<close>

locale keyed_store =
  fixes add :: "'k \<Rightarrow> 'a \<Rightarrow> 's \<Rightarrow> 's"
    and remove :: "'k \<Rightarrow> 's \<Rightarrow> 's"
    and get :: "'k \<Rightarrow> 's \<Rightarrow> 'a option"
    and keys :: "'s \<Rightarrow> 'k list"
    and ok :: "'s \<Rightarrow> bool"
  assumes get_add: "get k (add e c s) = (if k = e then Some c else get k s)"
    and get_remove: "get k (remove e s) = (if k = e then None else get k s)"
    and keys_get: "ok s \<Longrightarrow> k \<in> set (keys s) \<longleftrightarrow> get k s \<noteq> None"
    and ok_distinct: "ok s \<Longrightarrow> distinct (keys s)"
    and ok_add: "ok s \<Longrightarrow> ok (add e c s)"
    and ok_remove: "ok s \<Longrightarrow> ok (remove e s)"
begin

lemma keys_add: "ok s \<Longrightarrow> set (keys (add e c s)) = insert e (set (keys s))"
  using keys_get [of s] keys_get [OF ok_add, of s] by (auto simp: get_add split: if_splits)

lemma keys_remove: "ok s \<Longrightarrow> set (keys (remove e s)) = set (keys s) - {e}"
  using keys_get [of s] keys_get [OF ok_remove, of s] by (auto simp: get_remove split: if_splits)

lemma add_remove_get: "get k (remove e (add e c s)) = (if k = e then None else get k s)"
  by (simp add: get_add get_remove)

lemma length_keys: "ok s \<Longrightarrow> length (keys s) = card (set (keys s))"
  by (simp add: ok_distinct distinct_card)

lemma size_add_new: "ok s \<Longrightarrow> get e s = None \<Longrightarrow> length (keys (add e c s)) = Suc (length (keys s))"
  by (simp add: length_keys ok_add keys_add keys_get)

lemma size_add_old: "ok s \<Longrightarrow> get e s \<noteq> None \<Longrightarrow> length (keys (add e c s)) = length (keys s)"
  by (simp add: length_keys ok_add keys_add keys_get insert_absorb)

end

interpretation component_store: keyed_store store_add store_remove store_get snapshot_entities
  "\<lambda>s. distinct (map fst s)"
  by unfold_locales
    (auto simp: store_add_def store_remove_def store_get_def snapshot_entities_def update_conv'
      delete_conv' distinct_update distinct_delete map_of_eq_None_iff)

lemma store_get_modify:
  "store_get k (store_modify e f s) =
     (if k = e then map_option f (store_get k s) else store_get k s)"
  by (induction s) (auto simp: store_get_def store_modify_def)

lemma snapshot_entities_modify [simp]:
  "snapshot_entities (store_modify e f s) = snapshot_entities s"
  by (induction s) (auto simp: snapshot_entities_def store_modify_def)

lemma store_size_keys: "store_size s = length (snapshot_entities s)"
  by (simp add: store_size_def snapshot_entities_def)



section \<open>Entities\<close>

text \<open>
  The invariant of the entity manager while fewer than \<open>2 ^ 32 - 1\<close> entities have been created,
  \<open>n\<close> of them: the ids given out are \<open>1\<close> to \<open>n\<close>, and the counter counts the active ones.
\<close>

definition em_inv :: "nat \<Rightarrow> entity_manager \<Rightarrow> bool" where
  "em_inv n em \<longleftrightarrow> n < 2 ^ 32 - 1 \<and> next_entity_id em = of_nat (Suc n)
     \<and> distinct (active_entities em)
     \<and> (\<forall>e \<in> set (active_entities em). 0 < unat e \<and> unat e \<le> n)
     \<and> entity_count em = of_nat (length (active_entities em))"

lemma em_inv_init: "em_inv 0 EntityManager"
  by (simp add: em_inv_def EntityManager_def)

lemma em_inv_next: "em_inv n em \<Longrightarrow> unat (next_entity_id em) = Suc n"
  by (simp add: em_inv_def unat_of_nat_u32 del: of_nat_Suc)

lemma em_inv_fresh: "em_inv n em \<Longrightarrow> next_entity_id em \<notin> set (active_entities em)"
  using em_inv_next [of n em] by (auto simp: em_inv_def)

lemma em_inv_create:
  assumes "em_inv n em" "Suc n < 2 ^ 32 - 1"
  shows "em_inv (Suc n) (fst (create_entity em))"
  using assms em_inv_fresh [OF assms(1)] em_inv_next [OF assms(1)]
  by (auto simp: em_inv_def create_entity_def Let_def uset_insert_def)

lemma em_inv_destroy:
  assumes "em_inv n em"
  shows "em_inv n (destroy_entity e em)"
proof (cases "e \<in> set (active_entities em)")
  case True
  then have "(of_nat (length (active_entities em)) :: u32) - 1 = of_nat (length (active_entities em) - 1)"
    by (cases "active_entities em") auto
  then show ?thesis
    using assms True by (auto simp: em_inv_def destroy_entity_def length_remove1)
qed (use assms in \<open>simp add: destroy_entity_def\<close>)

lemma destroy_entities_fold: "destroy_entities es em = fold destroy_entity es em"
proof -
  have "destroy_entity = (\<lambda>e em. if e \<in> set (active_entities em)
     then em\<lparr>active_entities := remove1 e (active_entities em), entity_count := entity_count em - 1\<rparr>
     else em)"
    by (simp add: destroy_entity_def fun_eq_iff)
  then show ?thesis by (simp add: destroy_entities_def)
qed

lemma em_inv_destroy_many: "em_inv n em \<Longrightarrow> em_inv n (destroy_entities es em)"
  unfolding destroy_entities_fold by (induction es arbitrary: em) (simp_all add: em_inv_destroy)

lemma is_valid_destroy: "em_inv n em \<Longrightarrow> is_valid (destroy_entity e em) k = (is_valid em k \<and> k \<noteq> e)"
  by (auto simp: is_valid_def destroy_entity_def em_inv_def)

text \<open>\<open>create_entities\<close> is \<open>create_entity\<close> repeated.\<close>

fun create_each :: "nat \<Rightarrow> entity_manager \<Rightarrow> entity_manager \<times> entity list" where
  "create_each 0 em = (em, [])"
| "create_each (Suc n) em =
    (let (em, e) = create_entity em; (em, es) = create_each n em in (em, e # es))"

lemma create_loop_count:
  "create_loop n (em\<lparr>entity_count := c\<rparr>) =
     ((fst (create_loop n em))\<lparr>entity_count := c\<rparr>, snd (create_loop n em))"
proof (induction n arbitrary: em)
  case (Suc n)
  have "em\<lparr>entity_count := c, next_entity_id := i, active_entities := a\<rparr> =
      em\<lparr>next_entity_id := i, active_entities := a\<rparr>\<lparr>entity_count := c\<rparr>" for i a
    by simp
  then show ?case
    using Suc.IH [of "em\<lparr>next_entity_id := next_entity_id em + 1,
      active_entities := uset_insert (next_entity_id em) (active_entities em)\<rparr>"]
    by (simp only: create_loop.simps Let_def case_prod_unfold entity_manager.simps) simp
qed simp

lemma create_loop_keeps_count: "entity_count (fst (create_loop n em)) = entity_count em"
  by (induction n arbitrary: em) (simp_all add: Let_def case_prod_unfold)

lemma create_loop_each:
  "create_each n em = ((fst (create_loop n em))\<lparr>entity_count := entity_count em + of_nat n\<rparr>,
     snd (create_loop n em))"
proof (induction n arbitrary: em)
  case (Suc n)
  show ?case
    by (simp add: Let_def case_prod_unfold create_entity_def Suc.IH create_loop_count add.assoc)
qed simp

lemma create_each_spec:
  "em_inv n em \<Longrightarrow> n + k < 2 ^ 32 - 1 \<Longrightarrow>
     em_inv (n + k) (fst (create_each k em))
   \<and> snd (create_each k em) = map of_nat [Suc n..<Suc (n + k)]"
proof (induction k arbitrary: n em)
  case (Suc k)
  have em1: "em_inv (Suc n) (fst (create_entity em))" using Suc.prems by (intro em_inv_create) auto
  have e: "snd (create_entity em) = of_nat (Suc n)"
    using Suc.prems(1) by (simp add: create_entity_def em_inv_def Let_def)
  have "[Suc n..<Suc (n + Suc k)] = Suc n # [Suc (Suc n)..<Suc (Suc n + k)]"
    by (subst upt_rec) simp
  then show ?case
    using Suc.IH [OF em1] Suc.prems e by (simp add: Let_def case_prod_unfold)
qed simp

text \<open>
  C37: As long as the ids do not wrap around, \<open>create_entity\<close> returns an id that no active entity
  has and makes it valid, \<open>destroy_entity\<close> makes exactly its argument invalid, \<open>create_entities\<close>
  is the same as creating one entity after the other and returns consecutive ids, and the entity
  count is the number of valid entities throughout.
\<close>

theorem entity_manager_correct:
  assumes "em_inv n em" "n + unat count + 1 < 2 ^ 32 - 1"
  shows "\<not> is_valid em (snd (create_entity em))
    \<and> (\<forall>k. is_valid (fst (create_entity em)) k = (is_valid em k \<or> k = snd (create_entity em)))
    \<and> (\<forall>k. is_valid (destroy_entity e em) k = (is_valid em k \<and> k \<noteq> e))
    \<and> create_entities count em = create_each (unat count) em
    \<and> snd (create_entities count em) = map of_nat [Suc n..<Suc (n + unat count)]
    \<and> em_inv (Suc n) (fst (create_entity em)) \<and> em_inv n (destroy_entity e em)
    \<and> em_inv n (destroy_entities es em) \<and> em_inv (n + unat count) (fst (create_entities count em))"
proof -
  have each: "create_entities count em = create_each (unat count) em"
    by (simp add: create_entities_def create_loop_each create_loop_keeps_count case_prod_unfold Let_def)
  have "\<not> is_valid em (snd (create_entity em))"
    using em_inv_fresh [OF assms(1)] by (simp add: is_valid_def create_entity_def Let_def)
  moreover have "is_valid (fst (create_entity em)) k = (is_valid em k \<or> k = snd (create_entity em))" for k
    by (auto simp: is_valid_def create_entity_def Let_def)
  moreover have "is_valid (destroy_entity e em) k = (is_valid em k \<and> k \<noteq> e)" for k
    by (rule is_valid_destroy [OF assms(1)])
  moreover have "em_inv (Suc n) (fst (create_entity em))"
    using assms by (intro em_inv_create) auto
  moreover note em_inv_destroy [OF assms(1)] em_inv_destroy_many [OF assms(1)]
    create_each_spec [OF assms(1), of "unat count"]
  ultimately show ?thesis using assms(2) by (simp add: each)
qed

theorem entity_manager_correct_witness:
  "\<not> is_valid EntityManager (snd (create_entity EntityManager))
    \<and> (\<forall>k. is_valid (fst (create_entity EntityManager)) k
          = (is_valid EntityManager k \<or> k = snd (create_entity EntityManager)))
    \<and> (\<forall>k. is_valid (destroy_entity 1 EntityManager) k = (is_valid EntityManager k \<and> k \<noteq> 1))
    \<and> create_entities 3 EntityManager = create_each (unat (3 :: u32)) EntityManager
    \<and> snd (create_entities 3 EntityManager) = map of_nat [Suc 0..<Suc (0 + unat (3 :: u32))]
    \<and> em_inv (Suc 0) (fst (create_entity EntityManager)) \<and> em_inv 0 (destroy_entity 1 EntityManager)
    \<and> em_inv 0 (destroy_entities [1, 2] EntityManager)
    \<and> em_inv (0 + unat (3 :: u32)) (fst (create_entities 3 EntityManager))"
  by (rule entity_manager_correct [OF em_inv_init]) simp

end
