(* ===== verification/Component_Manager.thy ===== *)
theory Component_Manager
  imports Ecs
begin

text \<open>
  The component manager (\<open>server/game/ecs/component.hpp\<close> and \<open>component.cpp\<close>) over the component
  types of the game. The template argument of its operations is a slot. A pointer that
  \<open>get_component\<close> returns is used by the callers to change the component in place, which is
  \<open>modify_component\<close>.
\<close>

section \<open>State and slots\<close>

datatype comp_type =
    TPosition
  | TRotation
  | TScale
  | TVelocity
  | THealth
  | TStatus
  | TGameObject
  | TPlayer
  | TMonster
  | TNPC
  | TItem
  | TMap
  | TMapObjects
  | TMapBounds

record component_manager =
  store_keys :: "comp_type list"
  positions_store :: "position store"
  rotations_store :: "rotation store"
  scales_store :: "scale store"
  velocities_store :: "velocity store"
  healths_store :: "health store"
  statuses_store :: "status store"
  game_objects_store :: "game_object store"
  players_store :: "player store"
  monsters_store :: "monster store"
  npcs_store :: "npc store"
  items_store :: "item store"
  maps_store :: "map_component store"
  map_objects_store :: "map_objects_component store"
  map_bounds_store :: "map_bounds_component store"

definition ComponentManager :: component_manager where
  "ComponentManager = \<lparr>store_keys = [], positions_store = [], rotations_store = [], scales_store = [], velocities_store = [], healths_store = [], statuses_store = [], game_objects_store = [], players_store = [], monsters_store = [], npcs_store = [], items_store = [], maps_store = [], map_objects_store = [], map_bounds_store = []\<rparr>"

record 'a slot =
  slot_type :: comp_type
  slot_get :: "component_manager \<Rightarrow> 'a store"
  slot_put :: "'a store \<Rightarrow> component_manager \<Rightarrow> component_manager"

definition position_slot :: "position slot" where
  "position_slot = \<lparr>slot_type = TPosition, slot_get = positions_store,
     slot_put = (\<lambda>s cm. cm\<lparr>positions_store := s\<rparr>)\<rparr>"

definition rotation_slot :: "rotation slot" where
  "rotation_slot = \<lparr>slot_type = TRotation, slot_get = rotations_store,
     slot_put = (\<lambda>s cm. cm\<lparr>rotations_store := s\<rparr>)\<rparr>"

definition scale_slot :: "scale slot" where
  "scale_slot = \<lparr>slot_type = TScale, slot_get = scales_store,
     slot_put = (\<lambda>s cm. cm\<lparr>scales_store := s\<rparr>)\<rparr>"

definition velocity_slot :: "velocity slot" where
  "velocity_slot = \<lparr>slot_type = TVelocity, slot_get = velocities_store,
     slot_put = (\<lambda>s cm. cm\<lparr>velocities_store := s\<rparr>)\<rparr>"

definition health_slot :: "health slot" where
  "health_slot = \<lparr>slot_type = THealth, slot_get = healths_store,
     slot_put = (\<lambda>s cm. cm\<lparr>healths_store := s\<rparr>)\<rparr>"

definition status_slot :: "status slot" where
  "status_slot = \<lparr>slot_type = TStatus, slot_get = statuses_store,
     slot_put = (\<lambda>s cm. cm\<lparr>statuses_store := s\<rparr>)\<rparr>"

definition game_object_slot :: "game_object slot" where
  "game_object_slot = \<lparr>slot_type = TGameObject, slot_get = game_objects_store,
     slot_put = (\<lambda>s cm. cm\<lparr>game_objects_store := s\<rparr>)\<rparr>"

definition player_slot :: "player slot" where
  "player_slot = \<lparr>slot_type = TPlayer, slot_get = players_store,
     slot_put = (\<lambda>s cm. cm\<lparr>players_store := s\<rparr>)\<rparr>"

definition monster_slot :: "monster slot" where
  "monster_slot = \<lparr>slot_type = TMonster, slot_get = monsters_store,
     slot_put = (\<lambda>s cm. cm\<lparr>monsters_store := s\<rparr>)\<rparr>"

definition npc_slot :: "npc slot" where
  "npc_slot = \<lparr>slot_type = TNPC, slot_get = npcs_store,
     slot_put = (\<lambda>s cm. cm\<lparr>npcs_store := s\<rparr>)\<rparr>"

definition item_slot :: "item slot" where
  "item_slot = \<lparr>slot_type = TItem, slot_get = items_store,
     slot_put = (\<lambda>s cm. cm\<lparr>items_store := s\<rparr>)\<rparr>"

definition map_component_slot :: "map_component slot" where
  "map_component_slot = \<lparr>slot_type = TMap, slot_get = maps_store,
     slot_put = (\<lambda>s cm. cm\<lparr>maps_store := s\<rparr>)\<rparr>"

definition map_objects_component_slot :: "map_objects_component slot" where
  "map_objects_component_slot = \<lparr>slot_type = TMapObjects, slot_get = map_objects_store,
     slot_put = (\<lambda>s cm. cm\<lparr>map_objects_store := s\<rparr>)\<rparr>"

definition map_bounds_component_slot :: "map_bounds_component slot" where
  "map_bounds_component_slot = \<lparr>slot_type = TMapBounds, slot_get = map_bounds_store,
     slot_put = (\<lambda>s cm. cm\<lparr>map_bounds_store := s\<rparr>)\<rparr>"

lemmas slot_defs = position_slot_def rotation_slot_def scale_slot_def velocity_slot_def health_slot_def status_slot_def game_object_slot_def player_slot_def monster_slot_def npc_slot_def item_slot_def map_component_slot_def map_objects_component_slot_def map_bounds_component_slot_def

section \<open>Operations\<close>

definition get_store :: "'a slot \<Rightarrow> component_manager \<Rightarrow> component_manager \<times> 'a store" where
  "get_store sl cm =
    (let cm = (if slot_type sl \<in> set (store_keys cm) then cm
               else cm\<lparr>store_keys := store_keys cm @ [slot_type sl]\<rparr>)
     in (cm, slot_get sl cm))"

text \<open>The \<open>const\<close> overload throws when the store does not exist.\<close>

definition get_store_const :: "'a slot \<Rightarrow> component_manager \<Rightarrow> 'a store option" where
  "get_store_const sl cm =
    (if slot_type sl \<in> set (store_keys cm) then Some (slot_get sl cm) else None)"

definition add_component :: "'a slot \<Rightarrow> entity \<Rightarrow> 'a \<Rightarrow> component_manager \<Rightarrow> component_manager" where
  "add_component sl e c cm =
    (let (cm, s) = get_store sl cm in slot_put sl (store_add e c s) cm)"

definition remove_component :: "'a slot \<Rightarrow> entity \<Rightarrow> component_manager \<Rightarrow> component_manager" where
  "remove_component sl e cm =
    (let (cm, s) = get_store sl cm in slot_put sl (store_remove e s) cm)"

definition get_component :: "'a slot \<Rightarrow> entity \<Rightarrow> component_manager \<Rightarrow> component_manager \<times> 'a option" where
  "get_component sl e cm = (let (cm, s) = get_store sl cm in (cm, store_get e s))"

definition has_component :: "'a slot \<Rightarrow> entity \<Rightarrow> component_manager \<Rightarrow> bool" where
  "has_component sl e cm =
    (if slot_type sl \<in> set (store_keys cm) then store_has e (slot_get sl cm) else False)"

definition get_entities_with_component :: "'a slot \<Rightarrow> component_manager \<Rightarrow> component_manager \<times> entity list" where
  "get_entities_with_component sl cm = (let (cm, s) = get_store sl cm in (cm, snapshot_entities s))"

definition get_components :: "'a slot \<Rightarrow> component_manager \<Rightarrow> component_manager \<times> (entity \<times> 'a) list" where
  "get_components sl cm = (let (cm, s) = get_store sl cm in (cm, snapshot s))"

text \<open>The loop over \<open>stores_\<close> has an empty body in the source.\<close>

definition remove_all_components :: "entity \<Rightarrow> component_manager \<Rightarrow> component_manager" where
  "remove_all_components e cm = fold (\<lambda>type_index cm. cm) (store_keys cm) cm"

definition get_component_count :: "component_manager \<Rightarrow> nat" where
  "get_component_count cm = fold (\<lambda>type_index total. total) (store_keys cm) 0"

definition get_component_type_count :: "component_manager \<Rightarrow> nat" where
  "get_component_type_count cm = length (store_keys cm)"

text \<open>\<open>if (auto* c = get_component<T>(e)) { ... write to *c ... }\<close>\<close>

definition modify_component :: "'a slot \<Rightarrow> entity \<Rightarrow> ('a \<Rightarrow> 'a) \<Rightarrow> component_manager \<Rightarrow> component_manager" where
  "modify_component sl e f cm =
    (let (cm, s) = get_store sl cm in slot_put sl (store_modify e f s) cm)"

text \<open>The component that \<open>get_component\<close> points to.\<close>

definition component_of :: "'a slot \<Rightarrow> component_manager \<Rightarrow> entity \<Rightarrow> 'a option" where
  "component_of sl cm e = store_get e (slot_get sl cm)"

section \<open>The laws of a slot\<close>

locale component_slot =
  fixes sl :: "'a slot"
  assumes get_put: "slot_get sl (slot_put sl s cm) = s"
    and get_keys: "slot_get sl (cm\<lparr>store_keys := ks\<rparr>) = slot_get sl cm"
    and keys_put: "store_keys (slot_put sl s cm) = store_keys cm"
begin

lemma get_store_value: "snd (get_store sl cm) = slot_get sl cm"
  by (simp add: get_store_def get_keys)

lemma get_component_value: "snd (get_component sl e cm) = component_of sl cm e"
  by (simp add: get_component_def component_of_def case_prod_unfold get_store_value)

lemma component_of_add:
  "component_of sl (add_component sl e c cm) k = (if k = e then Some c else component_of sl cm k)"
  by (simp add: component_of_def add_component_def case_prod_unfold get_put get_store_value
      component_store.get_add)

lemma component_of_remove:
  "component_of sl (remove_component sl e cm) k = (if k = e then None else component_of sl cm k)"
  by (simp add: component_of_def remove_component_def case_prod_unfold get_put get_store_value
      component_store.get_remove)

lemma component_of_modify:
  "component_of sl (modify_component sl e f cm) k =
     (if k = e then map_option f (component_of sl cm k) else component_of sl cm k)"
  by (simp add: component_of_def modify_component_def case_prod_unfold get_put get_store_value
      store_get_modify)

lemma has_component_add: "has_component sl e (add_component sl e c cm)"
  by (auto simp: has_component_def add_component_def case_prod_unfold get_put keys_put get_store_value
      store_has_def component_store.get_add get_store_def Let_def)

lemma entities_modify:
  "map fst (slot_get sl (modify_component sl e f cm)) = map fst (slot_get sl cm)"
  using snapshot_entities_modify [of e f "slot_get sl cm"]
  by (simp add: modify_component_def case_prod_unfold get_put get_store_value snapshot_entities_def)

end

interpretation position_sl: component_slot position_slot
  by unfold_locales (simp_all add: position_slot_def)

interpretation rotation_sl: component_slot rotation_slot
  by unfold_locales (simp_all add: rotation_slot_def)

interpretation scale_sl: component_slot scale_slot
  by unfold_locales (simp_all add: scale_slot_def)

interpretation velocity_sl: component_slot velocity_slot
  by unfold_locales (simp_all add: velocity_slot_def)

interpretation health_sl: component_slot health_slot
  by unfold_locales (simp_all add: health_slot_def)

interpretation status_sl: component_slot status_slot
  by unfold_locales (simp_all add: status_slot_def)

interpretation game_object_sl: component_slot game_object_slot
  by unfold_locales (simp_all add: game_object_slot_def)

interpretation player_sl: component_slot player_slot
  by unfold_locales (simp_all add: player_slot_def)

interpretation monster_sl: component_slot monster_slot
  by unfold_locales (simp_all add: monster_slot_def)

interpretation npc_sl: component_slot npc_slot
  by unfold_locales (simp_all add: npc_slot_def)

interpretation item_sl: component_slot item_slot
  by unfold_locales (simp_all add: item_slot_def)

interpretation map_component_sl: component_slot map_component_slot
  by unfold_locales (simp_all add: map_component_slot_def)

interpretation map_objects_component_sl: component_slot map_objects_component_slot
  by unfold_locales (simp_all add: map_objects_component_slot_def)

interpretation map_bounds_component_sl: component_slot map_bounds_component_slot
  by unfold_locales (simp_all add: map_bounds_component_slot_def)

lemma remove_all_components_id: "remove_all_components e cm = cm"
  unfolding remove_all_components_def by (rule fold_skip)

text \<open>
  \<open>remove_all_components\<close> leaves every component where it is, and \<open>get_component_count\<close>
  returns zero: the bodies of their loops are empty. A component that an entity had is still found
  afterwards.
\<close>

lemma remove_all_components_keeps_everything:
  "remove_all_components e cm = cm \<and> get_component_count cm = 0
   \<and> component_of position_slot (remove_all_components e (add_component position_slot e p cm)) e = Some p"
  by (simp add: remove_all_components_id get_component_count_def fold_skip position_sl.component_of_add)

section \<open>Memory pool\<close>

text \<open>
  The object pool (\<open>memory_pool.hpp\<close>). An object is modelled by its value; \<open>fresh\<close> is \<open>T{}\<close>.
  \<open>acquire\<close> on an empty queue after a failed expansion takes the front of an empty queue, which is
  undefined: the result \<open>None\<close>.
\<close>

record 'a memory_pool =
  free_objects :: "'a list"
  pool_size :: nat

definition MemoryPool :: "'a \<Rightarrow> nat \<Rightarrow> 'a memory_pool" where
  "MemoryPool fresh initial_size = \<lparr>free_objects = replicate initial_size fresh, pool_size = initial_size\<rparr>"

definition expand_pool :: "'a \<Rightarrow> 'a memory_pool \<Rightarrow> 'a memory_pool" where
  "expand_pool fresh p =
    (let new_size = pool_size p * 2 in
     p\<lparr>free_objects := free_objects p @ replicate (new_size - pool_size p) fresh, pool_size := new_size\<rparr>)"

definition acquire :: "'a \<Rightarrow> 'a memory_pool \<Rightarrow> ('a memory_pool \<times> 'a) option" where
  "acquire fresh p =
    (let p = (if free_objects p = [] then expand_pool fresh p else p) in
     case free_objects p of [] \<Rightarrow> None | obj # rest \<Rightarrow> Some (p\<lparr>free_objects := rest\<rparr>, obj))"

definition release :: "'a \<Rightarrow> 'a option \<Rightarrow> 'a memory_pool \<Rightarrow> 'a memory_pool" where
  "release fresh obj p =
    (case obj of None \<Rightarrow> p | Some _ \<Rightarrow> p\<lparr>free_objects := free_objects p @ [fresh]\<rparr>)"

definition reserve :: "'a \<Rightarrow> nat \<Rightarrow> 'a memory_pool \<Rightarrow> 'a memory_pool" where
  "reserve fresh n p =
    p\<lparr>free_objects := free_objects p @ replicate (n - length (free_objects p)) fresh\<rparr>"

definition get_free_count :: "'a memory_pool \<Rightarrow> nat" where
  "get_free_count p = length (free_objects p)"

definition get_total_count :: "'a memory_pool \<Rightarrow> nat" where
  "get_total_count p = pool_size p"

definition component_pool_create :: "'a \<Rightarrow> 'a memory_pool \<Rightarrow> ('a memory_pool \<times> 'a) option" where
  "component_pool_create fresh p = acquire fresh p"

definition component_pool_destroy :: "'a \<Rightarrow> 'a option \<Rightarrow> 'a memory_pool \<Rightarrow> 'a memory_pool" where
  "component_pool_destroy fresh c p = release fresh c p"

definition pool_clean :: "'a \<Rightarrow> 'a memory_pool \<Rightarrow> bool" where
  "pool_clean fresh p \<longleftrightarrow> 0 < pool_size p \<and> set (free_objects p) \<subseteq> {fresh}"

text \<open>
  A pool built with a positive size always has an object to hand out, the object is in the
  default state whatever was returned to the pool before, and acquiring and releasing keep this.
\<close>

lemma memory_pool_correct:
  assumes "pool_clean fresh p"
  shows "(\<exists>p'. acquire fresh p = Some (p', fresh) \<and> pool_clean fresh p')
    \<and> pool_clean fresh (release fresh obj p) \<and> pool_clean fresh (reserve fresh n p)
    \<and> n \<le> get_free_count (reserve fresh n p)"
  using assms
  by (cases "free_objects p"; cases "pool_size p")
    (auto simp: pool_clean_def acquire_def expand_pool_def release_def reserve_def get_free_count_def
      Let_def split: option.splits)

lemma memory_pool_correct_witness:
  "(\<exists>p'. acquire 0 (MemoryPool (0 :: nat) 2) = Some (p', 0) \<and> pool_clean 0 p')
    \<and> pool_clean 0 (release 0 (Some 5) (MemoryPool (0 :: nat) 2)) \<and> pool_clean 0 (reserve 0 7 (MemoryPool (0 :: nat) 2))
    \<and> 7 \<le> get_free_count (reserve 0 7 (MemoryPool (0 :: nat) 2))"
  by (rule memory_pool_correct) (simp add: pool_clean_def MemoryPool_def)

end
