(* ===== verification/Movement_System.thy ===== *)
theory Movement_System
  imports Component_Manager
begin

text \<open>
  The movement system (\<open>server/game/systems/movement_system.cpp\<close>): integration of the velocities,
  clamping to the world bounds and separation of colliding entities, on the stores of the component
  manager. A loop over a snapshot of pointers is a fold over its entities that reads and writes the
  components in place.
\<close>

section \<open>Operations\<close>

definition move_entity :: "entity \<Rightarrow> f32 \<Rightarrow> f32 \<Rightarrow> f32 \<Rightarrow> component_manager \<Rightarrow> component_manager" where
  "move_entity e dx dy dz cm = modify_component position_slot e
     (\<lambda>p. p\<lparr>pos_x := f_add (pos_x p) dx, pos_y := f_add (pos_y p) dy, pos_z := f_add (pos_z p) dz\<rparr>) cm"

definition set_velocity :: "entity \<Rightarrow> f32 \<Rightarrow> f32 \<Rightarrow> f32 \<Rightarrow> component_manager \<Rightarrow> component_manager" where
  "set_velocity e vx vy vz cm = modify_component velocity_slot e
     (\<lambda>v. v\<lparr>vel_x := vx, vel_y := vy, vel_z := vz\<rparr>) cm"

definition stop_entity :: "entity \<Rightarrow> component_manager \<Rightarrow> component_manager" where
  "stop_entity e cm = set_velocity e 0 0 0 cm"

definition get_position :: "entity \<Rightarrow> component_manager \<Rightarrow> component_manager \<times> position option" where
  "get_position e cm = get_component position_slot e cm"

definition get_velocity :: "entity \<Rightarrow> component_manager \<Rightarrow> component_manager \<times> velocity option" where
  "get_velocity e cm = get_component velocity_slot e cm"

definition length3 :: "f32 \<Rightarrow> f32 \<Rightarrow> f32 \<Rightarrow> f32" where
  "length3 dx dy dz = f_sqrt (f_add (f_add (f_mul dx dx) (f_mul dy dy)) (f_mul dz dz))"

definition get_entities_in_range ::
  "f32 \<Rightarrow> f32 \<Rightarrow> f32 \<Rightarrow> f32 \<Rightarrow> component_manager \<Rightarrow> component_manager \<times> entity list" where
  "get_entities_in_range x y z rng cm =
    (let (cm, ps) = get_components position_slot cm in
     (cm, fold (\<lambda>(e, p) out.
        let dx = f_sub (pos_x p) x; dy = f_sub (pos_y p) y; dz = f_sub (pos_z p) z;
            distance = length3 dx dy dz
        in if f_le distance rng then out @ [e] else out) ps []))"

definition update_position :: "f32 \<Rightarrow> entity \<Rightarrow> component_manager \<Rightarrow> component_manager" where
  "update_position dt e cm =
    (let (cm, velocity) = get_component velocity_slot e cm in
     case velocity of
       None \<Rightarrow> cm
     | Some v \<Rightarrow> modify_component position_slot e (\<lambda>p.
         p\<lparr>pos_x := f_add (pos_x p) (f_mul (vel_x v) dt),
           pos_y := f_add (pos_y p) (f_mul (vel_y v) dt),
           pos_z := f_add (pos_z p) (f_mul (vel_z v) dt)\<rparr>) cm)"

definition update_positions :: "f32 \<Rightarrow> component_manager \<Rightarrow> component_manager" where
  "update_positions dt cm =
    (let (cm, ps) = get_components position_slot cm in
     fold (\<lambda>(e, p). update_position dt e) ps cm)"

definition MIN_BOUND :: f32 where
  "MIN_BOUND = 0xC47A0000"

definition MAX_BOUND :: f32 where
  "MAX_BOUND = 0x447A0000"

definition clamp_coord :: "f32 \<Rightarrow> f32" where
  "clamp_coord c =
    (let c = (if f_lt c MIN_BOUND then MIN_BOUND else c)
     in if f_lt MAX_BOUND c then MAX_BOUND else c)"

definition clamp_position :: "position \<Rightarrow> position" where
  "clamp_position p =
    p\<lparr>pos_x := clamp_coord (pos_x p), pos_y := clamp_coord (pos_y p), pos_z := clamp_coord (pos_z p)\<rparr>"

definition check_boundaries :: "component_manager \<Rightarrow> component_manager" where
  "check_boundaries cm =
    (let (cm, ps) = get_components position_slot cm in
     fold (\<lambda>(e, p). modify_component position_slot e clamp_position) ps cm)"

definition COLLISION_RADIUS_2 :: f32 where
  "COLLISION_RADIUS_2 = 0x40000000"

text \<open>The body of the pair loop: the new values of \<open>*pos1\<close> and \<open>*pos2\<close>.\<close>

definition separate :: "position \<Rightarrow> position \<Rightarrow> position \<times> position" where
  "separate p1 p2 =
    (let dx = f_sub (pos_x p1) (pos_x p2);
         dy = f_sub (pos_y p1) (pos_y p2);
         dz = f_sub (pos_z p1) (pos_z p2);
         distance = length3 dx dy dz
     in if f_lt distance COLLISION_RADIUS_2 then
          let separation = f_div (f_sub COLLISION_RADIUS_2 distance) 0x40000000;
              dx_norm = f_div dx distance;
              dy_norm = f_div dy distance;
              dz_norm = f_div dz distance
          in (p1\<lparr>pos_x := f_add (pos_x p1) (f_mul dx_norm separation),
                 pos_y := f_add (pos_y p1) (f_mul dy_norm separation),
                 pos_z := f_add (pos_z p1) (f_mul dz_norm separation)\<rparr>,
              p2\<lparr>pos_x := f_sub (pos_x p2) (f_mul dx_norm separation),
                 pos_y := f_sub (pos_y p2) (f_mul dy_norm separation),
                 pos_z := f_sub (pos_z p2) (f_mul dz_norm separation)\<rparr>)
        else (p1, p2))"

definition collide :: "entity \<Rightarrow> entity \<Rightarrow> component_manager \<Rightarrow> component_manager" where
  "collide e1 e2 cm =
    (case (component_of position_slot cm e1, component_of position_slot cm e2) of
       (Some p1, Some p2) \<Rightarrow>
         let (q1, q2) = separate p1 p2 in
         modify_component position_slot e2 (\<lambda>_. q2) (modify_component position_slot e1 (\<lambda>_. q1) cm)
     | _ \<Rightarrow> cm)"

fun collide_all :: "entity list \<Rightarrow> component_manager \<Rightarrow> component_manager" where
  "collide_all [] cm = cm"
| "collide_all (e # es) cm = collide_all es (fold (collide e) es cm)"

definition handle_collisions :: "component_manager \<Rightarrow> component_manager" where
  "handle_collisions cm =
    (let (cm, ps) = get_components position_slot cm in collide_all (map fst ps) cm)"

definition movement_update :: "f32 \<Rightarrow> component_manager \<Rightarrow> component_manager" where
  "movement_update dt cm = handle_collisions (check_boundaries (update_positions dt cm))"

section \<open>Loops over a snapshot\<close>

text \<open>
  A pass that changes one component per entity, each through its own function, changes every
  component exactly once.
\<close>

lemma fold_pass:
  assumes "distinct es" "Q cm"
    and "\<And>e cm. Q cm \<Longrightarrow> Q (g e cm)"
    and "\<And>e cm k. Q cm \<Longrightarrow> component_of position_slot (g e cm) k =
      (if k = e then map_option (f e) (component_of position_slot cm k)
       else component_of position_slot cm k)"
  shows "component_of position_slot (fold g es cm) k =
    (if k \<in> set es then map_option (f k) (component_of position_slot cm k)
     else component_of position_slot cm k)"
  using assms(1,2)
proof (induction es arbitrary: cm)
  case (Cons e es)
  then show ?case using Cons.IH [of "g e cm"] assms(3,4) by auto
qed simp

lemma get_components_fst: "fst (get_components sl cm) = fst (get_store sl cm)"
  by (simp add: get_components_def case_prod_unfold Let_def)

lemma get_components_snd: "snd (get_components position_slot cm) = positions_store cm"
  by (simp add: get_components_def case_prod_unfold get_store_def snapshot_def position_slot_def Let_def)

lemma stores_get_store [simp]:
  "positions_store (fst (get_store sl cm)) = positions_store cm"
  "velocities_store (fst (get_store sl cm)) = velocities_store cm"
  by (simp_all add: get_store_def Let_def)

lemma component_of_get_store [simp]:
  "component_of position_slot (fst (get_store sl cm)) k = component_of position_slot cm k"
  "component_of velocity_slot (fst (get_store sl cm)) k = component_of velocity_slot cm k"
  by (simp_all add: component_of_def position_slot_def velocity_slot_def)

lemma velocity_modify_position [simp]:
  "component_of velocity_slot (modify_component position_slot e f cm) k = component_of velocity_slot cm k"
  by (simp add: component_of_def modify_component_def case_prod_unfold Let_def get_store_def
      position_slot_def velocity_slot_def)

lemma update_position_velocity [simp]:
  "component_of velocity_slot (update_position dt e cm) k = component_of velocity_slot cm k"
  by (auto simp: update_position_def get_component_def case_prod_unfold Let_def split: option.splits)

definition integrate :: "f32 \<Rightarrow> velocity option \<Rightarrow> position \<Rightarrow> position" where
  "integrate dt velocity p = (case velocity of None \<Rightarrow> p | Some v \<Rightarrow>
     p\<lparr>pos_x := f_add (pos_x p) (f_mul (vel_x v) dt),
       pos_y := f_add (pos_y p) (f_mul (vel_y v) dt),
       pos_z := f_add (pos_z p) (f_mul (vel_z v) dt)\<rparr>)"

lemma update_position_spec:
  "component_of position_slot (update_position dt e cm) k =
     (if k = e then map_option (integrate dt (component_of velocity_slot cm e)) (component_of position_slot cm k)
      else component_of position_slot cm k)"
proof -
  have "snd (get_component velocity_slot e cm) = component_of velocity_slot cm e"
    by (rule velocity_sl.get_component_value)
  moreover have "component_of position_slot (fst (get_component velocity_slot e cm)) k =
      component_of position_slot cm k"
    by (simp add: get_component_def case_prod_unfold Let_def)
  ultimately show ?thesis
    by (cases "component_of velocity_slot cm e"; cases "component_of position_slot cm k")
      (auto simp: update_position_def case_prod_unfold position_sl.component_of_modify integrate_def)
qed

lemma update_positions_fold:
  "update_positions dt cm =
     fold (update_position dt) (map fst (positions_store cm)) (fst (get_store position_slot cm))"
  by (simp add: update_positions_def case_prod_unfold Let_def get_components_fst get_components_snd
      fold_map comp_def)

lemma check_boundaries_fold:
  "check_boundaries cm = fold (\<lambda>e. modify_component position_slot e clamp_position)
     (map fst (positions_store cm)) (fst (get_store position_slot cm))"
  by (simp add: check_boundaries_def case_prod_unfold Let_def get_components_fst get_components_snd
      fold_map comp_def)

lemma position_absent: "k \<notin> set (map fst (positions_store cm)) \<Longrightarrow> component_of position_slot cm k = None"
  by (simp add: component_of_def position_slot_def store_get_def map_of_eq_None_iff)

text \<open>
  One integration step moves every entity that has a position and a velocity by velocity times
  time, once, and leaves every other position alone, whatever the order of the store.
\<close>

lemma update_positions_correct:
  assumes "distinct (map fst (positions_store cm))"
  shows "component_of position_slot (update_positions dt cm) k =
    (case (component_of position_slot cm k, component_of velocity_slot cm k) of
       (Some p, Some v) \<Rightarrow> Some (Position (f_add (pos_x p) (f_mul (vel_x v) dt))
           (f_add (pos_y p) (f_mul (vel_y v) dt)) (f_add (pos_z p) (f_mul (vel_z v) dt)))
     | (p, _) \<Rightarrow> p)"
proof -
  let ?cm = "fst (get_store position_slot cm)"
  let ?V = "component_of velocity_slot cm"
  have "component_of position_slot (fold (update_position dt) (map fst (positions_store cm)) ?cm) k =
    (if k \<in> set (map fst (positions_store cm))
     then map_option (integrate dt (?V k)) (component_of position_slot ?cm k)
     else component_of position_slot ?cm k)"
    by (rule fold_pass [where Q = "\<lambda>cm. component_of velocity_slot cm = ?V" and f = "\<lambda>e. integrate dt (?V e)"])
      (simp_all add: assms update_position_spec fun_eq_iff)
  then have "component_of position_slot (update_positions dt cm) k =
      map_option (integrate dt (?V k)) (component_of position_slot cm k)"
    using position_absent [of k cm]
    by (cases "k \<in> set (map fst (positions_store cm))") (simp_all add: update_positions_fold)
  then show ?thesis
    by (auto simp: integrate_def Position_def split: option.splits)
qed

definition demo_world :: component_manager where
  "demo_world = add_component velocity_slot 1 (Velocity 0x3F800000 0 0)
     (add_component position_slot 1 (Position 0 0 0) ComponentManager)"

lemma update_positions_correct_witness:
  "component_of position_slot (update_positions 0x3F800000 demo_world) 1 =
    (case (component_of position_slot demo_world 1, component_of velocity_slot demo_world 1) of
       (Some p, Some v) \<Rightarrow> Some (Position (f_add (pos_x p) (f_mul (vel_x v) 0x3F800000))
           (f_add (pos_y p) (f_mul (vel_y v) 0x3F800000)) (f_add (pos_z p) (f_mul (vel_z v) 0x3F800000)))
     | (p, _) \<Rightarrow> p)"
  by (rule update_positions_correct)
    (simp add: demo_world_def add_component_def get_store_def Let_def position_slot_def
      velocity_slot_def store_add_def ComponentManager_def)

section \<open>World bounds\<close>

lemma bounds_order: "f_le MIN_BOUND MAX_BOUND" "\<not> f_isnan MIN_BOUND" "\<not> f_isnan MAX_BOUND"
  by (simp_all add: MIN_BOUND_def MAX_BOUND_def f_eval)

lemma clamp_coord_nan: "f_isnan c \<Longrightarrow> clamp_coord c = c"
  by (simp add: clamp_coord_def)

lemma clamp_coord_bounds:
  "\<not> f_isnan c \<Longrightarrow> f_le MIN_BOUND (clamp_coord c) \<and> f_le (clamp_coord c) MAX_BOUND"
  using bounds_order by (auto simp: clamp_coord_def Let_def f_not_lt f_le_refl f_lt_imp_le)

lemma check_boundaries_spec:
  assumes "distinct (map fst (positions_store cm))"
  shows "component_of position_slot (check_boundaries cm) k =
    map_option clamp_position (component_of position_slot cm k)"
proof -
  let ?cm = "fst (get_store position_slot cm)"
  have "component_of position_slot (fold (\<lambda>e. modify_component position_slot e clamp_position)
      (map fst (positions_store cm)) ?cm) k =
    (if k \<in> set (map fst (positions_store cm))
     then map_option clamp_position (component_of position_slot ?cm k)
     else component_of position_slot ?cm k)"
    by (rule fold_pass [where Q = "\<lambda>_. True" and f = "\<lambda>_. clamp_position"])
      (simp_all add: assms position_sl.component_of_modify)
  then show ?thesis
    using position_absent [of k cm]
    by (cases "k \<in> set (map fst (positions_store cm))") (simp_all add: check_boundaries_fold)
qed

text \<open>
  After the boundary check every coordinate that is a number lies within the world bounds;
  a coordinate that is not a number stays as it is.
\<close>

lemma check_boundaries_correct:
  assumes "distinct (map fst (positions_store cm))" "component_of position_slot cm e = Some p"
  shows "\<exists>q. component_of position_slot (check_boundaries cm) e = Some q
    \<and> (\<forall>c \<in> {pos_x, pos_y, pos_z}.
        if f_isnan (c p) then c q = c p else f_le MIN_BOUND (c q) \<and> f_le (c q) MAX_BOUND)"
  using assms clamp_coord_bounds clamp_coord_nan
  by (simp add: check_boundaries_spec clamp_position_def)

lemma check_boundaries_correct_witness:
  "\<exists>q. component_of position_slot (check_boundaries demo_world) 1 = Some q
    \<and> (\<forall>c \<in> {pos_x, pos_y, pos_z}. if f_isnan (c (Position 0 0 0)) then c q = c (Position 0 0 0)
        else f_le MIN_BOUND (c q) \<and> f_le (c q) MAX_BOUND)"
  by (rule check_boundaries_correct)
    (simp_all add: demo_world_def add_component_def get_store_def Let_def position_slot_def
      velocity_slot_def store_add_def ComponentManager_def component_of_def store_get_def)

section \<open>Collisions\<close>

section \<open>Collisions\<close>

definition finite_position :: "position \<Rightarrow> bool" where
  "finite_position p \<longleftrightarrow> (\<forall>c \<in> {pos_x, pos_y, pos_z}. \<not> f_isnan (c p) \<and> \<not> f_isinf (c p))"

lemma separate_same:
  assumes "finite_position p"
  shows "separate p p = (Position f_nan f_nan f_nan, Position f_nan f_nan f_nan)"
proof -
  have zero: "f_sub (pos_x p) (pos_x p) = 0" "f_sub (pos_y p) (pos_y p) = 0"
    "f_sub (pos_z p) (pos_z p) = 0"
    using assms by (simp_all add: finite_position_def f_sub_self)
  have near: "f_lt 0 COLLISION_RADIUS_2"
    by (simp add: COLLISION_RADIUS_2_def f_eval)
  show ?thesis
    by (simp add: separate_def zero near length3_def Let_def Position_def)
qed

lemma collide_spec:
  assumes "e1 \<noteq> e2" "component_of position_slot cm e1 = Some p1" "component_of position_slot cm e2 = Some p2"
  shows "component_of position_slot (collide e1 e2 cm) k =
    (if k = e1 then Some (fst (separate p1 p2)) else if k = e2 then Some (snd (separate p1 p2))
     else component_of position_slot cm k)"
  using assms by (auto simp: collide_def case_prod_unfold Let_def position_sl.component_of_modify)

text \<open>
  Two entities at the same finite position are pushed apart along \<open>0 / 0\<close>: both positions
  become NaN in every coordinate, and a later integration step and boundary check leave them NaN.
\<close>

lemma coincident_entities_become_nan:
  assumes "e1 \<noteq> e2" "component_of position_slot cm e1 = Some p" "component_of position_slot cm e2 = Some p"
    and "finite_position p"
  shows "component_of position_slot (collide e1 e2 cm) e1 = Some (Position f_nan f_nan f_nan)
    \<and> component_of position_slot (collide e1 e2 cm) e2 = Some (Position f_nan f_nan f_nan)
    \<and> clamp_position (integrate dt (Some v) (Position f_nan f_nan f_nan)) = Position f_nan f_nan f_nan"
  using collide_spec [OF assms(1-3)] separate_same [OF assms(4)] assms(1)
  by (simp add: clamp_position_def integrate_def Position_def clamp_coord_nan)

definition demo_pair :: component_manager where
  "demo_pair = add_component position_slot 2 (Position 0 0 0)
     (add_component position_slot 1 (Position 0 0 0) ComponentManager)"

lemma coincident_entities_become_nan_witness:
  "component_of position_slot (collide 1 2 demo_pair) 1 = Some (Position f_nan f_nan f_nan)
    \<and> component_of position_slot (collide 1 2 demo_pair) 2 = Some (Position f_nan f_nan f_nan)
    \<and> clamp_position (integrate 0x3F800000 (Some (Velocity 0 0 0)) (Position f_nan f_nan f_nan))
        = Position f_nan f_nan f_nan"
  by (rule coincident_entities_become_nan [where p = "Position 0 0 0"])
    (simp_all add: demo_pair_def position_sl.component_of_add finite_position_def Position_def f_eval)

text \<open>Entities further apart than two radii are not moved.\<close>

lemma separate_far:
  "\<not> f_lt (length3 (f_sub (pos_x p1) (pos_x p2)) (f_sub (pos_y p1) (pos_y p2))
      (f_sub (pos_z p1) (pos_z p2))) COLLISION_RADIUS_2 \<Longrightarrow> separate p1 p2 = (p1, p2)"
  by (simp add: separate_def Let_def)

section \<open>Range queries\<close>

definition distance_from :: "f32 \<Rightarrow> f32 \<Rightarrow> f32 \<Rightarrow> position \<Rightarrow> f32" where
  "distance_from x y z p = length3 (f_sub (pos_x p) x) (f_sub (pos_y p) y) (f_sub (pos_z p) z)"

lemma fold_filter:
  "fold (\<lambda>x out. if P x then out @ [f x] else out) xs out = out @ map f (filter P xs)"
  by (induction xs arbitrary: out) simp_all

text \<open>
  The range query returns exactly the entities whose position is at most the given distance
  away, each once and in the order of the store.
\<close>

lemma entities_in_range_correct:
  "snd (get_entities_in_range x y z r cm) =
     map fst (filter (\<lambda>(e, p). f_le (distance_from x y z p) r) (positions_store cm))"
proof -
  have "snd (get_entities_in_range x y z r cm) =
      fold (\<lambda>ep out. if f_le (distance_from x y z (snd ep)) r then out @ [fst ep] else out)
        (positions_store cm) []"
    by (simp add: get_entities_in_range_def case_prod_unfold Let_def get_components_snd distance_from_def)
  then show ?thesis by (simp add: fold_filter case_prod_unfold)
qed

end
