(* ===== verification/AI_System.thy ===== *)
theory AI_System
  imports Movement_System
begin

text \<open>
  The combat system and the AI system (\<open>combat_system.cpp\<close>, \<open>ai_system.cpp\<close> under
  \<open>server/game/systems\<close>). The random numbers of \<open>patrol\<close> are the values of a function on the
  number of draws so far; the log lines are not modelled.
\<close>

section \<open>Combat system\<close>

definition combat_update :: "f32 \<Rightarrow> component_manager \<Rightarrow> component_manager" where
  "combat_update dt cm =
    (let (cm, entities) = get_entities_with_component health_slot cm in
     fold (\<lambda>e cm. let (cm, health) = get_component health_slot e cm in cm) entities cm)"

definition combat_take_damage :: "entity \<Rightarrow> u32 \<Rightarrow> component_manager \<Rightarrow> component_manager" where
  "combat_take_damage e damage cm = modify_component health_slot e
     (\<lambda>h. h\<lparr>hp := (if hp h > damage then hp h - damage else 0)\<rparr>) cm"

definition attack :: "entity \<Rightarrow> entity \<Rightarrow> component_manager \<Rightarrow> component_manager" where
  "attack attacker target cm = (let damage = 10 in combat_take_damage target damage cm)"

definition combat_heal :: "entity \<Rightarrow> u32 \<Rightarrow> component_manager \<Rightarrow> component_manager" where
  "combat_heal e amount cm = modify_component health_slot e
     (\<lambda>h. h\<lparr>hp := min (max_hp h) (hp h + amount)\<rparr>) cm"

definition combat_is_in_combat :: "entity \<Rightarrow> component_manager \<Rightarrow> bool" where
  "combat_is_in_combat e cm =
    (case component_of health_slot cm e of None \<Rightarrow> False | Some h \<Rightarrow> hp h < max_hp h)"

definition get_target :: "entity \<Rightarrow> component_manager \<Rightarrow> entity" where
  "get_target e cm =
    (case component_of monster_slot cm e of None \<Rightarrow> 0 | Some m \<Rightarrow> target_entity m)"

definition get_hp :: "entity \<Rightarrow> component_manager \<Rightarrow> u32" where
  "get_hp e cm = (case component_of health_slot cm e of None \<Rightarrow> 0 | Some h \<Rightarrow> hp h)"

definition get_max_hp :: "entity \<Rightarrow> component_manager \<Rightarrow> u32" where
  "get_max_hp e cm = (case component_of health_slot cm e of None \<Rightarrow> 0 | Some h \<Rightarrow> max_hp h)"

section \<open>AI system\<close>

definition set_target :: "entity \<Rightarrow> entity \<Rightarrow> component_manager \<Rightarrow> component_manager" where
  "set_target e target cm = modify_component monster_slot e (\<lambda>m. m\<lparr>target_entity := target\<rparr>) cm"

definition clear_target :: "entity \<Rightarrow> component_manager \<Rightarrow> component_manager" where
  "clear_target e cm = set_target e 0 cm"

text \<open>\<open>if (!velocity) add_component(entity, make_unique<Velocity>()); *velocity = ...\<close>\<close>

definition assign_velocity :: "entity \<Rightarrow> f32 \<Rightarrow> f32 \<Rightarrow> f32 \<Rightarrow> component_manager \<Rightarrow> component_manager" where
  "assign_velocity e vx vy vz cm =
    (let cm = (case component_of velocity_slot cm e of
                 None \<Rightarrow> add_component velocity_slot e (Velocity 0 0 0) cm
               | Some _ \<Rightarrow> cm)
     in modify_component velocity_slot e (\<lambda>v. v\<lparr>vel_x := vx, vel_y := vy, vel_z := vz\<rparr>) cm)"

definition move_towards_target :: "entity \<Rightarrow> f32 \<Rightarrow> component_manager \<Rightarrow> component_manager" where
  "move_towards_target e speed cm =
    (case (component_of position_slot cm e, component_of monster_slot cm e) of
       (Some position, Some monster) \<Rightarrow>
         if target_entity monster = 0 then cm
         else (case component_of position_slot cm (target_entity monster) of
             None \<Rightarrow> cm
           | Some target_position \<Rightarrow>
               let dx = f_sub (pos_x target_position) (pos_x position);
                   dy = f_sub (pos_y target_position) (pos_y position);
                   dz = f_sub (pos_z target_position) (pos_z position);
                   distance = length3 dx dy dz
               in if f_lt 0x3DCCCCCD distance then
                    let dx_norm = f_div dx distance;
                        dy_norm = f_div dy distance;
                        dz_norm = f_div dz distance
                    in assign_velocity e (f_mul dx_norm speed) (f_mul dy_norm speed)
                         (f_mul dz_norm speed) cm
                  else cm)
     | _ \<Rightarrow> cm)"

definition patrol :: "entity \<Rightarrow> f32 \<Rightarrow> f32 \<times> f32 \<times> f32 \<Rightarrow> component_manager \<Rightarrow> component_manager" where
  "patrol e rng = (\<lambda>(dx, dy, dz) cm.
    (case component_of position_slot cm e of
       None \<Rightarrow> cm
     | Some position \<Rightarrow>
         let distance = length3 dx dy dz;
             far = f_lt rng distance;
             dx = (if far then f_mul (f_div dx distance) rng else dx);
             dy = (if far then f_mul (f_div dy distance) rng else dy);
             dz = (if far then f_mul (f_div dz distance) rng else dz)
         in assign_velocity e (f_mul dx 0x3F000000) (f_mul dy 0x3F000000) (f_mul dz 0x3F000000) cm))"

definition attack_target :: "entity \<Rightarrow> component_manager \<Rightarrow> component_manager" where
  "attack_target e cm =
    (case component_of monster_slot cm e of
       None \<Rightarrow> cm
     | Some monster \<Rightarrow>
         if target_entity monster = 0 then cm
         else modify_component health_slot (target_entity monster) (health_take_damage 10) cm)"

definition k_float_max :: f32 where
  "k_float_max = 0x7F7FFFFF"

text \<open>The loop over the players: the nearest target and its distance so far.\<close>

definition nearest_step :: "component_manager \<Rightarrow> position \<Rightarrow> entity \<Rightarrow> entity \<times> f32 \<Rightarrow> entity \<times> f32" where
  "nearest_step cm position player_entity = (\<lambda>(nearest_target, nearest_distance).
    (case component_of position_slot cm player_entity of
       None \<Rightarrow> (nearest_target, nearest_distance)
     | Some player_position \<Rightarrow>
         let dx = f_sub (pos_x player_position) (pos_x position);
             dy = f_sub (pos_y player_position) (pos_y position);
             dz = f_sub (pos_z player_position) (pos_z position);
             distance = length3 dx dy dz
         in if f_lt distance nearest_distance \<and> f_lt distance 0x41A00000
            then (player_entity, distance) else (nearest_target, nearest_distance)))"

definition find_nearest_target :: "entity \<Rightarrow> component_manager \<Rightarrow> component_manager" where
  "find_nearest_target e cm =
    (case component_of position_slot cm e of
       None \<Rightarrow> cm
     | Some position \<Rightarrow>
         let (nearest_target, nearest_distance) =
               fold (nearest_step cm position) (map fst (slot_get player_slot cm)) (0, k_float_max)
         in if nearest_target \<noteq> 0 then set_target e nearest_target cm else cm)"

definition update_ai_state :: "entity \<Rightarrow> component_manager \<Rightarrow> component_manager" where
  "update_ai_state e cm =
    (case component_of monster_slot cm e of
       None \<Rightarrow> cm
     | Some monster \<Rightarrow>
         if target_entity monster = 0 then find_nearest_target e cm
         else (case component_of health_slot cm (target_entity monster) of
             Some target_health \<Rightarrow>
               if is_alive target_health then attack_target e cm else clear_target e cm
           | None \<Rightarrow> clear_target e cm))"

definition update_monster_ai :: "component_manager \<Rightarrow> component_manager" where
  "update_monster_ai cm =
    (let (cm, monsters) = get_components monster_slot cm in
     fold (\<lambda>(e, m). update_ai_state e) monsters cm)"

text \<open>Each NPC with a position draws three numbers; \<open>n\<close> is the number of draws before.\<close>

definition npc_step :: "(nat \<Rightarrow> f32) \<Rightarrow> entity \<Rightarrow> nat \<times> component_manager \<Rightarrow> nat \<times> component_manager" where
  "npc_step rnd e = (\<lambda>(n, cm).
    (case component_of position_slot cm e of
       None \<Rightarrow> (n, cm)
     | Some _ \<Rightarrow> (n + 3, patrol e 0x41200000 (rnd n, rnd (n + 1), rnd (n + 2)) cm)))"

definition update_npc_ai :: "(nat \<Rightarrow> f32) \<Rightarrow> nat \<times> component_manager \<Rightarrow> nat \<times> component_manager" where
  "update_npc_ai rnd = (\<lambda>(n, cm).
    let (cm, npcs) = get_components npc_slot cm in
    fold (\<lambda>(e, c). npc_step rnd e) npcs (n, cm))"

definition ai_update :: "(nat \<Rightarrow> f32) \<Rightarrow> nat \<times> component_manager \<Rightarrow> nat \<times> component_manager" where
  "ai_update rnd = (\<lambda>(n, cm). update_npc_ai rnd (n, update_monster_ai cm))"

section \<open>Damage\<close>

lemma combat_damage_saturates:
  "component_of health_slot cm e = Some h \<Longrightarrow>
     \<exists>h'. component_of health_slot (combat_take_damage e d cm) e = Some h'
       \<and> unat (hp h') = unat (hp h) - unat d \<and> is_alive h' = is_alive h"
  by (auto simp: combat_take_damage_def health_sl.component_of_modify word_less_nat_alt
      word_le_nat_alt unat_sub)

text \<open>
  The two ways to deal damage disagree on death: the combat system's attack that brings the hit
  points to zero leaves \<open>is_alive\<close> set, while \<open>Health::take_damage\<close> with the same damage clears it.
\<close>

lemma combat_attack_leaves_alive:
  assumes "component_of health_slot cm target = Some h" "is_alive h" "hp h \<le> 10"
  shows "\<exists>h'. component_of health_slot (attack attacker target cm) target = Some h'
      \<and> hp h' = 0 \<and> is_alive h'
    \<and> hp (health_take_damage 10 h) = 0 \<and> \<not> is_alive (health_take_damage 10 h)"
  using assms
  by (auto simp: attack_def combat_take_damage_def health_sl.component_of_modify health_take_damage_def)

lemma combat_attack_leaves_alive_witness:
  "\<exists>h'. component_of health_slot (attack 1 2 (add_component health_slot 2 (Health 7 0) ComponentManager)) 2 = Some h'
      \<and> hp h' = 0 \<and> is_alive h'
    \<and> hp (health_take_damage 10 (Health 7 0)) = 0 \<and> \<not> is_alive (health_take_damage 10 (Health 7 0))"
  by (rule combat_attack_leaves_alive) (simp_all add: health_sl.component_of_add Health_def)

section \<open>Target selection\<close>

definition player_distance :: "component_manager \<Rightarrow> position \<Rightarrow> entity \<Rightarrow> f32" where
  "player_distance cm position e =
    (case component_of position_slot cm e of
       None \<Rightarrow> f_nan
     | Some p \<Rightarrow> length3 (f_sub (pos_x p) (pos_x position)) (f_sub (pos_y p) (pos_y position))
         (f_sub (pos_z p) (pos_z position)))"

lemma nearest_step_distance:
  "nearest_step cm position e (t, d) =
     (if f_lt (player_distance cm position e) d \<and> f_lt (player_distance cm position e) 0x41A00000
      then (e, player_distance cm position e) else (t, d))"
  by (simp add: nearest_step_def player_distance_def Let_def split: option.splits)

definition in_sight :: "component_manager \<Rightarrow> position \<Rightarrow> entity \<Rightarrow> bool" where
  "in_sight cm position e \<longleftrightarrow> f_lt (player_distance cm position e) 0x41A00000"

lemma f_lt_max: "f_lt x 0x41A00000 \<Longrightarrow> f_lt x k_float_max"
proof -
  have "f_le 0x41A00000 k_float_max" by (simp add: k_float_max_def f_eval)
  then show "f_lt x 0x41A00000 \<Longrightarrow> f_lt x k_float_max" by (simp add: f_lt_def f_le_def)
qed

lemma nearest_fold:
  "case fold (nearest_step cm position) es (0, k_float_max) of (t, d) \<Rightarrow>
     (t = 0 \<and> d = k_float_max \<and> (\<forall>e \<in> set es. \<not> in_sight cm position e)) \<or>
     (t \<in> set es \<and> d = player_distance cm position t \<and> in_sight cm position t
       \<and> (\<forall>e \<in> set es. in_sight cm position e \<longrightarrow> f_le d (player_distance cm position e)))"
proof (induction es rule: rev_induct)
  case (snoc e es)
  obtain t d where td: "fold (nearest_step cm position) es (0, k_float_max) = (t, d)"
    by (rule prod.exhaust)
  let ?D = "player_distance cm position"
  have IH: "(t = 0 \<and> d = k_float_max \<and> (\<forall>e \<in> set es. \<not> in_sight cm position e)) \<or>
     (t \<in> set es \<and> d = ?D t \<and> in_sight cm position t
       \<and> (\<forall>e \<in> set es. in_sight cm position e \<longrightarrow> f_le d (?D e)))"
    using snoc td by simp
  show ?case
  proof (cases "f_lt (?D e) d \<and> f_lt (?D e) 0x41A00000")
    case True
    then have sight: "in_sight cm position e" "f_le (?D e) (?D e)" and le: "f_le (?D e) d"
      by (simp_all add: in_sight_def f_le_def f_lt_def)
    have "f_le (?D e) (?D e')" if "e' \<in> set es" "in_sight cm position e'" for e'
      using IH that by (auto intro: f_le_trans [OF le])
    with True sight show ?thesis by (simp add: td nearest_step_distance)
  next
    case False
    from IH show ?thesis
    proof
      assume none: "t = 0 \<and> d = k_float_max \<and> (\<forall>e \<in> set es. \<not> in_sight cm position e)"
      then have "\<not> in_sight cm position e"
        using False f_lt_max [of "?D e"] by (auto simp: in_sight_def)
      then show ?thesis using none False by (auto simp: td nearest_step_distance)
    next
      assume some: "t \<in> set es \<and> d = ?D t \<and> in_sight cm position t
        \<and> (\<forall>e \<in> set es. in_sight cm position e \<longrightarrow> f_le d (?D e))"
      then have "in_sight cm position e \<longrightarrow> f_le d (?D e)"
        using False f_not_lt [of "?D e" d] unfolding in_sight_def by (meson f_lt_nan)
      then show ?thesis using some False by (auto simp: td nearest_step_distance)
    qed
  qed
qed simp

text \<open>
  A monster without a target takes a player in sight (closer than 20 units) that no other player
  in sight is closer than; if no player is in sight it stays without a target.
\<close>

lemma find_nearest_target_correct:
  assumes "component_of position_slot cm e = Some position" "component_of monster_slot cm e = Some m"
    and "0 \<notin> set (map fst (players_store cm))"
  shows "(\<exists>t \<in> set (map fst (players_store cm)). in_sight cm position t
      \<and> (\<forall>p \<in> set (map fst (players_store cm)). in_sight cm position p \<longrightarrow>
           f_le (player_distance cm position t) (player_distance cm position p))
      \<and> component_of monster_slot (find_nearest_target e cm) e = Some (m\<lparr>target_entity := t\<rparr>))
    \<or> (\<forall>p \<in> set (map fst (players_store cm)). \<not> in_sight cm position p)
      \<and> find_nearest_target e cm = cm"
proof -
  obtain t d where td: "fold (nearest_step cm position) (map fst (players_store cm)) (0, k_float_max) = (t, d)"
    by (rule prod.exhaust)
  have res: "find_nearest_target e cm = (if t \<noteq> 0 then set_target e t cm else cm)"
    using assms(1) td by (simp add: find_nearest_target_def player_slot_def)
  show ?thesis
    using nearest_fold [where cm = cm and position = position and es = "map fst (players_store cm)"] assms(2,3)
    by (auto simp: td res set_target_def monster_sl.component_of_modify)
qed

definition demo_hunt :: component_manager where
  "demo_hunt = add_component monster_slot 1 (Monster 1 1) (add_component player_slot 2 (Player [] 7 (- 1) 1)
     (add_component position_slot 2 (Position 0 0 0) (add_component position_slot 1 (Position 0 0 0) ComponentManager)))"

lemma find_nearest_target_correct_witness:
  "(\<exists>t \<in> set (map fst (players_store demo_hunt)). in_sight demo_hunt (Position 0 0 0) t
      \<and> (\<forall>p \<in> set (map fst (players_store demo_hunt)). in_sight demo_hunt (Position 0 0 0) p \<longrightarrow>
           f_le (player_distance demo_hunt (Position 0 0 0) t) (player_distance demo_hunt (Position 0 0 0) p))
      \<and> component_of monster_slot (find_nearest_target 1 demo_hunt) 1 = Some (Monster 1 1\<lparr>target_entity := t\<rparr>))
    \<or> (\<forall>p \<in> set (map fst (players_store demo_hunt)). \<not> in_sight demo_hunt (Position 0 0 0) p)
      \<and> find_nearest_target 1 demo_hunt = demo_hunt"
  by (rule find_nearest_target_correct)
    (simp_all add: demo_hunt_def add_component_def get_store_def Let_def slot_defs store_add_def
      ComponentManager_def component_of_def store_get_def)

section \<open>The fight of a monster with its target\<close>

lemma monster_modify_health [simp]:
  "component_of monster_slot (modify_component health_slot e f cm) k = component_of monster_slot cm k"
  by (simp add: component_of_def modify_component_def case_prod_unfold Let_def get_store_def
      monster_slot_def health_slot_def)

lemma health_modify_monster [simp]:
  "component_of health_slot (modify_component monster_slot e f cm) k = component_of health_slot cm k"
  by (simp add: component_of_def modify_component_def case_prod_unfold Let_def get_store_def
      monster_slot_def health_slot_def)

lemma update_ai_state_attack:
  assumes "component_of monster_slot cm e = Some m" "target_entity m = t" "t \<noteq> 0"
    and "component_of health_slot cm t = Some h" "is_alive h"
  shows "component_of monster_slot (update_ai_state e cm) e = Some m
    \<and> component_of health_slot (update_ai_state e cm) t = Some (health_take_damage 10 h)"
  using assms by (simp add: update_ai_state_def attack_target_def health_sl.component_of_modify)

lemma update_ai_state_dead:
  assumes "component_of monster_slot cm e = Some m" "target_entity m = t" "t \<noteq> 0"
    and "component_of health_slot cm t = Some h" "\<not> is_alive h"
  shows "component_of monster_slot (update_ai_state e cm) e = Some (m\<lparr>target_entity := 0\<rparr>)
    \<and> component_of health_slot (update_ai_state e cm) t = Some h"
  using assms by (simp add: update_ai_state_def clear_target_def set_target_def monster_sl.component_of_modify)

lemma take_damage_unat: "unat (hp (health_take_damage d h)) = unat (hp h) - unat d"
  by (simp add: health_take_damage_def word_le_nat_alt unat_sub)

text \<open>
  C39: A monster that has a living target attacks it in every update. The fight ends: after \<open>n\<close>
  updates the target has lost \<open>10 * n\<close> hit points, and once these reach its hit points it is dead
  and the next update makes the monster drop it.
\<close>

theorem monster_kills_target:
  assumes "component_of monster_slot cm e = Some m" "target_entity m = t" "t \<noteq> 0"
    and "component_of health_slot cm t = Some h" "health_ok h" "is_alive h"
  shows "10 * (n - 1) < unat (hp h) \<longrightarrow>
      (\<exists>h'. component_of health_slot ((update_ai_state e ^^ n) cm) t = Some h'
        \<and> unat (hp h') = unat (hp h) - 10 * n \<and> is_alive h' = (10 * n < unat (hp h))
        \<and> component_of monster_slot ((update_ai_state e ^^ n) cm) e = Some m
        \<and> (\<not> is_alive h' \<longrightarrow> component_of monster_slot ((update_ai_state e ^^ Suc n) cm) e
             = Some (m\<lparr>target_entity := 0\<rparr>)))"
proof (induction n)
  case 0
  then show ?case using assms by (auto simp: health_ok_def word_less_nat_alt)
next
  case (Suc n)
  show ?case
  proof
    assume "10 * (Suc n - 1) < unat (hp h)"
    then have n: "10 * n < unat (hp h)" by simp
    then obtain h' where h': "component_of health_slot ((update_ai_state e ^^ n) cm) t = Some h'"
      "unat (hp h') = unat (hp h) - 10 * n" "is_alive h'"
      "component_of monster_slot ((update_ai_state e ^^ n) cm) e = Some m"
      using Suc.IH by auto
    let ?h = "health_take_damage 10 h'"
    have step: "component_of monster_slot ((update_ai_state e ^^ Suc n) cm) e = Some m"
      "component_of health_slot ((update_ai_state e ^^ Suc n) cm) t = Some ?h"
      using update_ai_state_attack [OF h'(4) assms(2,3) h'(1,3)] by simp_all
    have hp: "unat (hp ?h) = unat (hp h) - 10 * Suc n"
      using h'(2) by (simp add: take_damage_unat)
    have alive: "is_alive ?h = (10 * Suc n < unat (hp h))"
      using h'(2,3) n by (auto simp: health_take_damage_def word_le_nat_alt)
    have "component_of monster_slot ((update_ai_state e ^^ Suc (Suc n)) cm) e = Some (m\<lparr>target_entity := 0\<rparr>)"
      if "\<not> is_alive ?h"
      using update_ai_state_dead [OF step(1) assms(2,3) step(2) that] by simp
    then show "\<exists>h'. component_of health_slot ((update_ai_state e ^^ Suc n) cm) t = Some h'
        \<and> unat (hp h') = unat (hp h) - 10 * Suc n \<and> is_alive h' = (10 * Suc n < unat (hp h))
        \<and> component_of monster_slot ((update_ai_state e ^^ Suc n) cm) e = Some m
        \<and> (\<not> is_alive h' \<longrightarrow> component_of monster_slot ((update_ai_state e ^^ Suc (Suc n)) cm) e
             = Some (m\<lparr>target_entity := 0\<rparr>))"
      using step hp alive by blast
  qed
qed

definition demo_fight :: component_manager where
  "demo_fight = add_component monster_slot 1 (Monster 1 1\<lparr>target_entity := 2\<rparr>)
     (add_component health_slot 2 (Health 25 0) ComponentManager)"

theorem monster_kills_target_witness:
  "\<exists>h'. component_of health_slot ((update_ai_state 1 ^^ 3) demo_fight) 2 = Some h'
     \<and> hp h' = 0 \<and> \<not> is_alive h'
     \<and> component_of monster_slot ((update_ai_state 1 ^^ 3) demo_fight) 1 = Some (Monster 1 1\<lparr>target_entity := 2\<rparr>)
     \<and> component_of monster_slot ((update_ai_state 1 ^^ Suc 3) demo_fight) 1
         = Some (Monster 1 1\<lparr>target_entity := 2\<rparr>\<lparr>target_entity := 0\<rparr>)"
proof -
  have "component_of monster_slot demo_fight 1 = Some (Monster 1 1\<lparr>target_entity := 2\<rparr>)"
    "component_of health_slot demo_fight 2 = Some (Health 25 0)"
    by (simp_all add: demo_fight_def add_component_def get_store_def Let_def slot_defs store_add_def
        ComponentManager_def component_of_def store_get_def)
  note facts = this
  have hp: "unat (hp (Health 25 0)) = 25" "is_alive (Health 25 0)" "health_ok (Health 25 0)"
    by (simp_all add: Health_def health_ok_def)
  have "10 * ((3 :: nat) - 1) < unat (hp (Health 25 0))" by (simp add: hp)
  with monster_kills_target [OF facts(1) refl _ _ hp(3,2), of 3] facts(2)
  obtain h' where "component_of health_slot ((update_ai_state 1 ^^ 3) demo_fight) 2 = Some h'"
     "unat (hp h') = 25 - 10 * 3" "is_alive h' = (10 * 3 < (25 :: nat))"
     "component_of monster_slot ((update_ai_state 1 ^^ 3) demo_fight) 1 = Some (Monster 1 1\<lparr>target_entity := 2\<rparr>)"
     "\<not> is_alive h' \<longrightarrow> component_of monster_slot ((update_ai_state 1 ^^ Suc 3) demo_fight) 1
         = Some (Monster 1 1\<lparr>target_entity := 2\<rparr>\<lparr>target_entity := 0\<rparr>)"
    unfolding hp by (auto simp del: funpow.simps)
  then show ?thesis by (intro exI [of _ h']) (simp add: unsigned_eq_0_iff del: funpow.simps)
qed

end
