(* ===== verification/Map_System.thy ===== *)
theory Map_System
  imports AI_System
begin

text \<open>
  The game world, that is the entity manager and the component manager of \<open>GameService\<close>
  (\<open>server/game/ecs/game_service.cpp\<close>), and the map system
  (\<open>server/game/systems/map_system.cpp\<close>) on it. \<open>std::clamp(v, lo, hi)\<close> with \<open>lo \<le> hi\<close> is
  \<open>v < lo ? lo : hi < v ? hi : v\<close>. The range query of the map system computes in double precision
  and is not modelled.
\<close>

section \<open>The world\<close>

record world =
  w_entities :: entity_manager
  w_components :: component_manager

definition new_world :: world where
  "new_world = \<lparr>w_entities = EntityManager, w_components = ComponentManager\<rparr>"

definition w_create_entity :: "world \<Rightarrow> world \<times> entity" where
  "w_create_entity w = (let (em, e) = create_entity (w_entities w) in (w\<lparr>w_entities := em\<rparr>, e))"

definition w_destroy_entity :: "entity \<Rightarrow> world \<Rightarrow> world" where
  "w_destroy_entity e w =
    (let w = w\<lparr>w_components := remove_all_components e (w_components w)\<rparr>
     in w\<lparr>w_entities := destroy_entity e (w_entities w)\<rparr>)"

definition w_add_component :: "'a slot \<Rightarrow> entity \<Rightarrow> 'a \<Rightarrow> world \<Rightarrow> world" where
  "w_add_component sl e c w = w\<lparr>w_components := add_component sl e c (w_components w)\<rparr>"

definition w_modify_component :: "'a slot \<Rightarrow> entity \<Rightarrow> ('a \<Rightarrow> 'a) \<Rightarrow> world \<Rightarrow> world" where
  "w_modify_component sl e f w = w\<lparr>w_components := modify_component sl e f (w_components w)\<rparr>"

definition w_get_component :: "'a slot \<Rightarrow> world \<Rightarrow> entity \<Rightarrow> 'a option" where
  "w_get_component sl w e = component_of sl (w_components w) e"

definition w_has_component :: "'a slot \<Rightarrow> world \<Rightarrow> entity \<Rightarrow> bool" where
  "w_has_component sl w e = has_component sl e (w_components w)"

section \<open>Operations of the map system\<close>

record map_system =
  map_object_cache :: "(entity \<times> entity list) list"
  cache_dirty :: bool

definition MapSystem :: map_system where
  "MapSystem = \<lparr>map_object_cache = [], cache_dirty = True\<rparr>"

definition create_map :: "int \<Rightarrow> bytes \<Rightarrow> f32 \<Rightarrow> f32 \<Rightarrow> int \<Rightarrow> world \<Rightarrow> world \<times> entity" where
  "create_map mid name w h maxp wd =
    (let (wd, map_entity) = w_create_entity wd;
         wd = w_add_component map_component_slot map_entity (MapComponent mid name w h maxp) wd;
         wd = w_add_component map_objects_component_slot map_entity MapObjectsComponent wd;
         wd = w_add_component map_bounds_component_slot map_entity (MapBoundsComponent 0 0 0 w h 0x447A0000) wd
     in (wd, map_entity))"

definition destroy_map :: "entity \<Rightarrow> world \<Rightarrow> world" where
  "destroy_map map_entity wd =
    (let wd = (case w_get_component map_objects_component_slot wd map_entity of
         None \<Rightarrow> wd
       | Some mo \<Rightarrow>
           let wd = fold w_destroy_entity (mo_players mo) wd;
               wd = fold w_destroy_entity (mo_monsters mo) wd;
               wd = fold w_destroy_entity (mo_npcs mo) wd
           in fold w_destroy_entity (mo_items mo) wd)
     in w_destroy_entity map_entity wd)"

definition add_object_to_map :: "entity \<Rightarrow> entity \<Rightarrow> map_system \<times> world \<Rightarrow> map_system \<times> world" where
  "add_object_to_map map_entity obj = (\<lambda>(ms, wd).
    (case w_get_component map_objects_component_slot wd map_entity of
       None \<Rightarrow> (ms, wd)
     | Some _ \<Rightarrow>
         let f = (if w_has_component player_slot wd obj then mo_add_player obj
                  else if w_has_component monster_slot wd obj then mo_add_monster obj
                  else if w_has_component npc_slot wd obj then mo_add_npc obj
                  else if w_has_component item_slot wd obj then mo_add_item obj
                  else id)
         in (ms\<lparr>cache_dirty := True\<rparr>, w_modify_component map_objects_component_slot map_entity f wd)))"

definition remove_object_from_map :: "entity \<Rightarrow> entity \<Rightarrow> map_system \<times> world \<Rightarrow> map_system \<times> world" where
  "remove_object_from_map map_entity obj = (\<lambda>(ms, wd).
    (case w_get_component map_objects_component_slot wd map_entity of
       None \<Rightarrow> (ms, wd)
     | Some _ \<Rightarrow>
         let f = (if w_has_component player_slot wd obj then mo_remove_player obj
                  else if w_has_component monster_slot wd obj then mo_remove_monster obj
                  else if w_has_component npc_slot wd obj then mo_remove_npc obj
                  else if w_has_component item_slot wd obj then mo_remove_item obj
                  else id)
         in (ms\<lparr>cache_dirty := True\<rparr>, w_modify_component map_objects_component_slot map_entity f wd)))"

definition get_objects_in_map :: "entity \<Rightarrow> world \<Rightarrow> entity list" where
  "get_objects_in_map map_entity wd =
    (case w_get_component map_objects_component_slot wd map_entity of
       None \<Rightarrow> []
     | Some mo \<Rightarrow> mo_players mo @ mo_monsters mo @ mo_npcs mo @ mo_items mo)"

definition is_object_in_bounds :: "entity \<Rightarrow> entity \<Rightarrow> world \<Rightarrow> bool" where
  "is_object_in_bounds map_entity obj wd =
    (case (w_get_component map_bounds_component_slot wd map_entity, w_get_component position_slot wd obj) of
       (Some b, Some p) \<Rightarrow> is_inside b (pos_x p) (pos_y p) (pos_z p)
     | _ \<Rightarrow> False)"

definition f_clamp_to :: "f32 \<Rightarrow> f32 \<Rightarrow> f32 \<Rightarrow> f32" where
  "f_clamp_to v lo hi = (if f_lt v lo then lo else if f_lt hi v then hi else v)"

definition clamp_to_bounds :: "map_bounds_component \<Rightarrow> position \<Rightarrow> position" where
  "clamp_to_bounds b p =
    p\<lparr>pos_x := f_clamp_to (pos_x p) (min_x b) (max_x b),
      pos_y := f_clamp_to (pos_y p) (min_y b) (max_y b),
      pos_z := f_clamp_to (pos_z p) (min_z b) (max_z b)\<rparr>"

definition clamp_object_to_bounds :: "entity \<Rightarrow> entity \<Rightarrow> world \<Rightarrow> world" where
  "clamp_object_to_bounds map_entity obj wd =
    (case (w_get_component map_bounds_component_slot wd map_entity, w_get_component position_slot wd obj) of
       (Some b, Some p) \<Rightarrow> w_modify_component position_slot obj (clamp_to_bounds b) wd
     | _ \<Rightarrow> wd)"

definition ms_get_player_count :: "entity \<Rightarrow> world \<Rightarrow> int" where
  "ms_get_player_count map_entity wd =
    (case w_get_component map_objects_component_slot wd map_entity of
       None \<Rightarrow> 0 | Some mo \<Rightarrow> int (length (mo_players mo)))"

definition ms_get_monster_count :: "entity \<Rightarrow> world \<Rightarrow> int" where
  "ms_get_monster_count map_entity wd =
    (case w_get_component map_objects_component_slot wd map_entity of
       None \<Rightarrow> 0 | Some mo \<Rightarrow> int (length (mo_monsters mo)))"

definition ms_get_total_object_count :: "entity \<Rightarrow> world \<Rightarrow> int" where
  "ms_get_total_object_count map_entity wd =
    (case w_get_component map_objects_component_slot wd map_entity of
       None \<Rightarrow> 0
     | Some mo \<Rightarrow> int (length (mo_players mo) + length (mo_monsters mo) + length (mo_npcs mo)
         + length (mo_items mo)))"

definition update_map_objects :: "entity \<Rightarrow> f32 \<Rightarrow> world \<Rightarrow> world" where
  "update_map_objects map_entity dt wd = wd"

definition check_map_collisions :: "entity \<Rightarrow> world \<Rightarrow> world" where
  "check_map_collisions map_entity wd = fold (\<lambda>obj wd.
     if \<not> is_object_in_bounds map_entity obj wd then clamp_object_to_bounds map_entity obj wd else wd)
     (get_objects_in_map map_entity wd) wd"

definition process_map_events :: "entity \<Rightarrow> f32 \<Rightarrow> world \<Rightarrow> world" where
  "process_map_events map_entity dt wd = wd"

definition update_object_cache :: "world \<Rightarrow> map_system \<Rightarrow> map_system" where
  "update_object_cache wd ms = fold (\<lambda>(map_entity, m) ms.
     ms\<lparr>map_object_cache := AList.update map_entity (get_objects_in_map map_entity wd) (map_object_cache ms)\<rparr>)
     (slot_get map_component_slot (w_components wd)) (ms\<lparr>map_object_cache := []\<rparr>)"

definition map_system_update :: "f32 \<Rightarrow> map_system \<times> world \<Rightarrow> map_system \<times> world" where
  "map_system_update dt = (\<lambda>(ms, wd).
    let wd = fold (\<lambda>(map_entity, m) wd.
               process_map_events map_entity dt (check_map_collisions map_entity
                 (update_map_objects map_entity dt wd)))
               (slot_get map_component_slot (w_components wd)) wd;
        ms = (if cache_dirty ms then (update_object_cache wd ms)\<lparr>cache_dirty := False\<rparr> else ms)
    in (ms, wd))"

section \<open>Clamping to the map bounds\<close>

definition bounds_ok :: "map_bounds_component \<Rightarrow> bool" where
  "bounds_ok b \<longleftrightarrow> f_le (min_x b) (max_x b) \<and> f_le (min_y b) (max_y b) \<and> f_le (min_z b) (max_z b)"

definition has_numbers :: "position \<Rightarrow> bool" where
  "has_numbers p \<longleftrightarrow> \<not> f_isnan (pos_x p) \<and> \<not> f_isnan (pos_y p) \<and> \<not> f_isnan (pos_z p)"

lemma f_clamp_to_between:
  "f_le lo hi \<Longrightarrow> \<not> f_isnan v \<Longrightarrow> f_le lo (f_clamp_to v lo hi) \<and> f_le (f_clamp_to v lo hi) hi"
  by (auto simp: f_clamp_to_def f_lt_def f_le_def)

lemma f_clamp_to_inside: "f_le lo v \<Longrightarrow> f_le v hi \<Longrightarrow> f_clamp_to v lo hi = v"
  by (auto simp: f_clamp_to_def f_lt_def f_le_def)

lemma clamp_to_bounds_inside:
  "bounds_ok b \<Longrightarrow> has_numbers p \<Longrightarrow>
     is_inside b (pos_x (clamp_to_bounds b p)) (pos_y (clamp_to_bounds b p)) (pos_z (clamp_to_bounds b p))"
  by (simp add: bounds_ok_def has_numbers_def clamp_to_bounds_def is_inside_def f_clamp_to_between)

lemma clamp_to_bounds_id:
  "is_inside b (pos_x p) (pos_y p) (pos_z p) \<Longrightarrow> clamp_to_bounds b p = p"
  by (simp add: clamp_to_bounds_def is_inside_def f_clamp_to_inside)

lemma bounds_modify_position [simp]:
  "component_of map_bounds_component_slot (modify_component position_slot e f cm) k
     = component_of map_bounds_component_slot cm k"
  "component_of map_objects_component_slot (modify_component position_slot e f cm) k
     = component_of map_objects_component_slot cm k"
  by (simp_all add: component_of_def modify_component_def case_prod_unfold Let_def get_store_def
      slot_defs)

text \<open>The step for one object is clamping it, whether it was inside or not.\<close>

lemma collision_step:
  assumes "w_get_component map_bounds_component_slot wd me = Some b"
  shows "w_get_component position_slot (if \<not> is_object_in_bounds me obj wd
      then clamp_object_to_bounds me obj wd else wd) k =
    (if k = obj then map_option (clamp_to_bounds b) (w_get_component position_slot wd k)
     else w_get_component position_slot wd k)"
    and "w_get_component map_bounds_component_slot (if \<not> is_object_in_bounds me obj wd
      then clamp_object_to_bounds me obj wd else wd) me = Some b"
  using assms
  by (auto simp: is_object_in_bounds_def clamp_object_to_bounds_def w_get_component_def
      w_modify_component_def position_sl.component_of_modify clamp_to_bounds_id split: option.splits)

lemma clamp_to_bounds_twice:
  "bounds_ok b \<Longrightarrow> clamp_to_bounds b (clamp_to_bounds b p) = clamp_to_bounds b p"
  by (auto simp: clamp_to_bounds_def bounds_ok_def f_clamp_to_def f_lt_def f_le_def)

lemma check_map_collisions_spec:
  assumes "w_get_component map_bounds_component_slot wd me = Some b" "bounds_ok b"
  shows "w_get_component position_slot (fold (\<lambda>obj wd. if \<not> is_object_in_bounds me obj wd
      then clamp_object_to_bounds me obj wd else wd) objs wd) k =
    (if k \<in> set objs then map_option (clamp_to_bounds b) (w_get_component position_slot wd k)
     else w_get_component position_slot wd k)
    \<and> w_get_component map_bounds_component_slot (fold (\<lambda>obj wd. if \<not> is_object_in_bounds me obj wd
      then clamp_object_to_bounds me obj wd else wd) objs wd) me = Some b"
  using assms
proof (induction objs arbitrary: wd)
  case (Cons obj objs)
  note step = collision_step [OF Cons.prems(1), of obj]
  show ?case
    using Cons.IH [OF step(2) Cons.prems(2)] step(1) [of k] clamp_to_bounds_twice [OF Cons.prems(2)]
    by (cases "w_get_component position_slot wd k") (auto simp del: not_None_eq)
qed simp

text \<open>
  C40: After the collision pass of a map, every object of the map whose coordinates are numbers is
  inside the bounds of the map, objects that were inside have not moved, and no other object has.
\<close>

theorem map_objects_stay_in_bounds:
  assumes "w_get_component map_bounds_component_slot wd me = Some b" "bounds_ok b"
    and "w_get_component position_slot wd obj = Some p" "has_numbers p"
  shows "(obj \<in> set (get_objects_in_map me wd) \<longrightarrow>
        is_object_in_bounds me obj (check_map_collisions me wd))
    \<and> (obj \<notin> set (get_objects_in_map me wd) \<or> is_object_in_bounds me obj wd \<longrightarrow>
        w_get_component position_slot (check_map_collisions me wd) obj = Some p)"
  using check_map_collisions_spec [OF assms(1,2), of "get_objects_in_map me wd"] assms(3,4)
    clamp_to_bounds_inside [OF assms(2,4)] assms(1)
  by (auto simp: check_map_collisions_def is_object_in_bounds_def clamp_to_bounds_id)

definition demo_map :: world where
  "demo_map = fst (create_map 1 [] 0x447A0000 0x447A0000 100 new_world)"

lemma demo_map_bounds:
  "w_get_component map_bounds_component_slot demo_map 1 = Some (MapBoundsComponent 0 0 0 0x447A0000 0x447A0000 0x447A0000)"
  by (simp add: demo_map_def create_map_def new_world_def w_create_entity_def create_entity_def
      EntityManager_def w_add_component_def w_get_component_def Let_def map_bounds_component_sl.component_of_add)

lemma position_add_bounds: "bounds_ok (MapBoundsComponent 0 0 0 0x447A0000 0x447A0000 0x447A0000)"
  by (simp add: bounds_ok_def MapBoundsComponent_def f_eval)

lemma bounds_add_position [simp]:
  "component_of map_bounds_component_slot (add_component position_slot e p cm) k
     = component_of map_bounds_component_slot cm k"
  "component_of map_objects_component_slot (add_component position_slot e p cm) k
     = component_of map_objects_component_slot cm k"
  by (simp_all add: component_of_def add_component_def case_prod_unfold Let_def get_store_def slot_defs)

definition demo_stray :: world where
  "demo_stray = w_modify_component map_objects_component_slot 1 (mo_add_monster 7)
     (w_add_component position_slot 7 (Position 0x44FA0000 0 0) demo_map)"

theorem map_objects_stay_in_bounds_witness:
  "is_object_in_bounds 1 7 (check_map_collisions 1 demo_stray) \<and> \<not> is_object_in_bounds 1 7 demo_stray"
proof -
  let ?p = "Position 0x44FA0000 0 0" and ?b = "MapBoundsComponent 0 0 0 0x447A0000 0x447A0000 0x447A0000"
  have objs: "component_of map_objects_component_slot (w_components demo_map) 1 = Some MapObjectsComponent"
    by (simp add: demo_map_def create_map_def new_world_def w_create_entity_def create_entity_def
        EntityManager_def w_add_component_def Let_def component_of_def add_component_def get_store_def
        slot_defs ComponentManager_def store_add_def store_get_def)
  have keep: "component_of position_slot (modify_component map_objects_component_slot e f cm) k
      = component_of position_slot cm k"
    "component_of map_bounds_component_slot (modify_component map_objects_component_slot e f cm) k
      = component_of map_bounds_component_slot cm k" for e f cm k
    by (simp_all add: component_of_def modify_component_def case_prod_unfold Let_def get_store_def slot_defs)
  have b: "w_get_component map_bounds_component_slot demo_stray 1 = Some ?b"
    using demo_map_bounds
    by (simp add: demo_stray_def w_modify_component_def w_add_component_def w_get_component_def keep)
  have pos: "w_get_component position_slot demo_stray 7 = Some ?p"
    by (simp add: demo_stray_def w_modify_component_def w_add_component_def w_get_component_def keep
        position_sl.component_of_add)
  have obj: "7 \<in> set (get_objects_in_map 1 demo_stray)"
    using objs by (simp add: demo_stray_def get_objects_in_map_def w_modify_component_def w_add_component_def
        w_get_component_def map_objects_component_sl.component_of_modify mo_add_monster_def)
  have num: "has_numbers ?p" by (simp add: has_numbers_def Position_def f_eval)
  have "\<not> is_object_in_bounds 1 7 demo_stray"
    unfolding is_object_in_bounds_def b pos by (simp add: is_inside_def Position_def MapBoundsComponent_def f_eval)
  then show ?thesis
    using map_objects_stay_in_bounds [OF b position_add_bounds pos num] obj by blast
qed

section \<open>Destroyed maps\<close>

lemma w_destroy_entity_components [simp]: "w_components (w_destroy_entity e wd) = w_components wd"
  by (simp add: w_destroy_entity_def remove_all_components_id Let_def)

lemma fold_destroy_components [simp]: "w_components (fold w_destroy_entity es wd) = w_components wd"
  by (induction es arbitrary: wd) simp_all

text \<open>
  Destroying a map makes its entity invalid, but removes no component: the map, its object
  sets and its bounds are all still in the stores, so the map system goes on updating the map.
\<close>

lemma destroy_map_leaks_components:
  assumes "em_inv n (w_entities wd)"
  shows "w_components (destroy_map me wd) = w_components wd
    \<and> \<not> is_valid (w_entities (destroy_map me wd)) me"
proof -
  have inv: "em_inv n (w_entities (fold w_destroy_entity es wd))" if "em_inv n (w_entities wd)" for es wd
    using that by (induction es arbitrary: wd) (simp_all add: w_destroy_entity_def Let_def em_inv_destroy)
  have "\<exists>wd'. destroy_map me wd = w_destroy_entity me wd' \<and> em_inv n (w_entities wd')
      \<and> w_components wd' = w_components wd"
    using assms by (auto simp: destroy_map_def Let_def inv split: option.splits)
  then show ?thesis
    by (auto simp: w_destroy_entity_def Let_def is_valid_destroy remove_all_components_id)
qed

lemma destroy_map_leaks_components_witness:
  "w_components (destroy_map 1 new_world) = w_components new_world
    \<and> \<not> is_valid (w_entities (destroy_map 1 new_world)) 1"
  by (rule destroy_map_leaks_components [where n = 0]) (simp add: new_world_def em_inv_init)

section \<open>Membership in a map\<close>

lemma objects_modify:
  assumes "w_get_component map_objects_component_slot wd me = Some mo"
  shows "w_get_component map_objects_component_slot
      (w_modify_component map_objects_component_slot me f wd) me = Some (f mo)"
  using assms by (simp add: w_get_component_def w_modify_component_def
      map_objects_component_sl.component_of_modify)

text \<open>
  An object with a player, monster, NPC or item component that is added to an existing map is
  in the map afterwards, together with the objects that were there, and the cache is marked stale.
\<close>

lemma add_object_to_map_correct:
  assumes "w_get_component map_objects_component_slot wd me = Some mo"
    and "w_has_component player_slot wd obj \<or> w_has_component monster_slot wd obj
      \<or> w_has_component npc_slot wd obj \<or> w_has_component item_slot wd obj"
  shows "set (get_objects_in_map me (snd (add_object_to_map me obj (ms, wd))))
      = insert obj (set (get_objects_in_map me wd))
    \<and> cache_dirty (fst (add_object_to_map me obj (ms, wd)))"
  using assms(2)
  by (auto simp: add_object_to_map_def assms(1) get_objects_in_map_def objects_modify [OF assms(1)]
      mo_add_player_def mo_add_monster_def mo_add_npc_def mo_add_item_def Let_def)

lemma add_object_to_map_correct_witness:
  "set (get_objects_in_map 1 (snd (add_object_to_map 1 5 (MapSystem, w_add_component monster_slot 5 (Monster 1 1) demo_map))))
      = insert 5 (set (get_objects_in_map 1 (w_add_component monster_slot 5 (Monster 1 1) demo_map)))
    \<and> cache_dirty (fst (add_object_to_map 1 5 (MapSystem, w_add_component monster_slot 5 (Monster 1 1) demo_map)))"
  by (rule add_object_to_map_correct [where mo = MapObjectsComponent])
    (simp_all add: demo_map_def create_map_def new_world_def w_create_entity_def create_entity_def
      EntityManager_def w_add_component_def w_get_component_def w_has_component_def Let_def
      monster_sl.has_component_add component_of_def add_component_def get_store_def slot_defs
      ComponentManager_def store_add_def store_get_def has_component_def store_has_def)

end
