(* ===== verification/Game_Service.thy ===== *)
theory Game_Service
  imports Map_System "HOL-Library.Multiset"
begin

text \<open>
  The system manager (\<open>server/game/ecs/system.hpp\<close>, \<open>system.cpp\<close>) and the game service
  (\<open>server/game/ecs/game_service.cpp\<close>). The polymorphic \<open>System*\<close> is the datatype of the four
  systems the service registers. \<open>std::sort\<close> leaves the order of equal priorities open; the model
  keeps them in the order of the map. The managers of the service are owned pointers that are set
  together in \<open>initialize\<close> and reset together in \<open>shutdown\<close>; using them before is a null
  dereference, the result \<open>None\<close>.
\<close>

section \<open>Systems\<close>

datatype system_kind = MovementSystem | AISystem | CombatSystem | MapSystemKind

record system =
  enabled :: bool
  priority :: int

definition new_system :: system where
  "new_system = \<lparr>enabled = True, priority = 0\<rparr>"

definition set_enabled :: "bool \<Rightarrow> system \<Rightarrow> system" where
  "set_enabled b s = s\<lparr>enabled := b\<rparr>"

definition set_priority :: "int \<Rightarrow> system \<Rightarrow> system" where
  "set_priority p s = s\<lparr>priority := p\<rparr>"

record system_manager =
  systems :: "(system_kind \<times> system) list"
  update_order :: "system_kind list"

definition SystemManager :: system_manager where
  "SystemManager = \<lparr>systems = [], update_order = []\<rparr>"

definition priority_of :: "system_manager \<Rightarrow> system_kind \<Rightarrow> int" where
  "priority_of sm k = (case map_of (systems sm) k of None \<Rightarrow> 0 | Some s \<Rightarrow> priority s)"

definition rebuild_update_order :: "system_manager \<Rightarrow> system_manager" where
  "rebuild_update_order sm =
    (let sm = sm\<lparr>update_order := []\<rparr>;
         sm = sm\<lparr>update_order := map fst (systems sm)\<rparr>
     in sm\<lparr>update_order := sort_key (priority_of sm) (update_order sm)\<rparr>)"

definition register_system :: "system_kind \<Rightarrow> system \<Rightarrow> system_manager \<Rightarrow> system_manager" where
  "register_system k s sm =
    (if k \<in> set (map fst (systems sm)) then sm
     else rebuild_update_order (sm\<lparr>systems := AList.update k s (systems sm)\<rparr>))"

definition get_system :: "system_kind \<Rightarrow> system_manager \<Rightarrow> system option" where
  "get_system k sm = map_of (systems sm) k"

definition unregister_system :: "system_kind \<Rightarrow> system_manager \<Rightarrow> system_manager" where
  "unregister_system k sm = rebuild_update_order (sm\<lparr>systems := AList.delete k (systems sm)\<rparr>)"

text \<open>The state that the systems update: the world, the map system's cache, the draws so far.\<close>

record game_state =
  gs_world :: world
  gs_map_system :: map_system
  gs_draws :: nat

fun system_update :: "(nat \<Rightarrow> f32) \<Rightarrow> f32 \<Rightarrow> system_kind \<Rightarrow> game_state \<Rightarrow> game_state" where
  "system_update rnd dt MovementSystem g =
     g\<lparr>gs_world := (gs_world g)\<lparr>w_components := movement_update dt (w_components (gs_world g))\<rparr>\<rparr>"
| "system_update rnd dt AISystem g =
     (let (n, cm) = ai_update rnd (gs_draws g, w_components (gs_world g))
      in g\<lparr>gs_draws := n, gs_world := (gs_world g)\<lparr>w_components := cm\<rparr>\<rparr>)"
| "system_update rnd dt CombatSystem g =
     g\<lparr>gs_world := (gs_world g)\<lparr>w_components := combat_update dt (w_components (gs_world g))\<rparr>\<rparr>"
| "system_update rnd dt MapSystemKind g =
     (let (ms, wd) = map_system_update dt (gs_map_system g, gs_world g)
      in g\<lparr>gs_map_system := ms, gs_world := wd\<rparr>)"

definition update_all :: "(nat \<Rightarrow> f32) \<Rightarrow> f32 \<Rightarrow> system_manager \<Rightarrow> game_state \<Rightarrow> game_state" where
  "update_all rnd dt sm g = fold (\<lambda>k g.
     case map_of (systems sm) k of
       None \<Rightarrow> g
     | Some s \<Rightarrow> if enabled s then system_update rnd dt k g else g) (update_order sm) g"

text \<open>\<open>System::initialize\<close> and \<open>System::shutdown\<close> are empty, and no system overrides them.\<close>

definition initialize_all :: "system_manager \<Rightarrow> game_state \<Rightarrow> game_state" where
  "initialize_all sm g = fold (\<lambda>(k, s) g. g) (systems sm) g"

definition shutdown_all :: "system_manager \<Rightarrow> game_state \<Rightarrow> game_state" where
  "shutdown_all sm g = fold (\<lambda>(k, s) g. g) (systems sm) g"

definition get_system_count :: "system_manager \<Rightarrow> nat" where
  "get_system_count sm = length (systems sm)"

definition get_system_names :: "system_manager \<Rightarrow> system_kind list" where
  "get_system_names sm = map fst (systems sm)"

section \<open>Game service\<close>

record game_service =
  managers :: "(game_state \<times> system_manager) option"
  initialized :: bool

definition GameService :: game_service where
  "GameService = \<lparr>managers = None, initialized = False\<rparr>"

definition gs_initialize :: "game_service \<Rightarrow> game_service \<times> bool" where
  "gs_initialize gs =
    (if initialized gs then (gs, True)
     else let g = \<lparr>gs_world = new_world, gs_map_system = MapSystem, gs_draws = 0\<rparr>;
              sm = SystemManager;
              sm = register_system MovementSystem new_system sm;
              sm = register_system AISystem new_system sm;
              sm = register_system CombatSystem new_system sm;
              sm = register_system MapSystemKind new_system sm;
              g = initialize_all sm g
          in (gs\<lparr>managers := Some (g, sm), initialized := True\<rparr>, True))"

definition gs_shutdown :: "game_service \<Rightarrow> game_service option" where
  "gs_shutdown gs =
    (if \<not> initialized gs then Some gs
     else case managers gs of
       None \<Rightarrow> None
     | Some (g, sm) \<Rightarrow>
         let g = shutdown_all sm g
         in Some (gs\<lparr>managers := None, initialized := False\<rparr>))"

definition gs_update :: "(nat \<Rightarrow> f32) \<Rightarrow> f32 \<Rightarrow> game_service \<Rightarrow> game_service option" where
  "gs_update rnd dt gs =
    (if \<not> initialized gs then Some gs
     else case managers gs of
       None \<Rightarrow> None
     | Some (g, sm) \<Rightarrow> Some (gs\<lparr>managers := Some (update_all rnd dt sm g, sm)\<rparr>))"

definition gs_create_entity :: "game_service \<Rightarrow> (game_service \<times> entity) option" where
  "gs_create_entity gs =
    (case managers gs of
       None \<Rightarrow> None
     | Some (g, sm) \<Rightarrow>
         let (w, e) = w_create_entity (gs_world g)
         in Some (gs\<lparr>managers := Some (g\<lparr>gs_world := w\<rparr>, sm)\<rparr>, e))"

definition gs_destroy_entity :: "entity \<Rightarrow> game_service \<Rightarrow> game_service option" where
  "gs_destroy_entity e gs =
    (case managers gs of
       None \<Rightarrow> None
     | Some (g, sm) \<Rightarrow>
         Some (gs\<lparr>managers := Some (g\<lparr>gs_world := w_destroy_entity e (gs_world g)\<rparr>, sm)\<rparr>))"

definition gs_is_valid :: "entity \<Rightarrow> game_service \<Rightarrow> bool option" where
  "gs_is_valid e gs = map_option (\<lambda>(g, sm). is_valid (w_entities (gs_world g)) e) (managers gs)"

definition gs_get_entity_count :: "game_service \<Rightarrow> u32 option" where
  "gs_get_entity_count gs = map_option (\<lambda>(g, sm). get_entity_count (w_entities (gs_world g))) (managers gs)"

definition gs_get_component_count :: "game_service \<Rightarrow> u32 option" where
  "gs_get_component_count gs =
     map_option (\<lambda>(g, sm). of_nat (get_component_count (w_components (gs_world g)))) (managers gs)"

definition gs_get_system_count :: "game_service \<Rightarrow> u32 option" where
  "gs_get_system_count gs = map_option (\<lambda>(g, sm). of_nat (get_system_count sm)) (managers gs)"

section \<open>The update order\<close>

definition sm_inv :: "system_manager \<Rightarrow> bool" where
  "sm_inv sm \<longleftrightarrow> distinct (map fst (systems sm)) \<and> mset (update_order sm) = mset (map fst (systems sm))
     \<and> sorted (map (priority_of sm) (update_order sm))"

lemma priority_of_update_order [simp]: "priority_of (sm\<lparr>update_order := u\<rparr>) = priority_of sm"
  by (simp add: priority_of_def fun_eq_iff)

lemma sm_inv_rebuild: "distinct (map fst (systems sm)) \<Longrightarrow> sm_inv (rebuild_update_order sm)"
  by (simp add: sm_inv_def rebuild_update_order_def Let_def)

lemma sm_inv_register: "sm_inv sm \<Longrightarrow> sm_inv (register_system k s sm)"
  by (auto simp: register_system_def sm_inv_def [of sm] intro!: sm_inv_rebuild distinct_update)

lemma sm_inv_unregister: "sm_inv sm \<Longrightarrow> sm_inv (unregister_system k sm)"
  by (auto simp: unregister_system_def sm_inv_def [of sm] intro!: sm_inv_rebuild distinct_delete)

lemma sm_inv_keys:
  assumes "sm_inv sm"
  shows "set (update_order sm) = fst ` set (systems sm)" "distinct (update_order sm)"
proof -
  have eq: "mset (update_order sm) = mset (map fst (systems sm))" and "distinct (map fst (systems sm))"
    using assms by (simp_all add: sm_inv_def)
  then show "distinct (update_order sm)" by (metis mset_eq_imp_distinct_iff)
  show "set (update_order sm) = fst ` set (systems sm)" using mset_eq_setD [OF eq] by simp
qed

text \<open>
  The update order always lists every registered system exactly once, sorted by priority:
  registering and unregistering keep this, registering a system twice changes nothing, and a system
  that was unregistered is updated no more.
\<close>

lemma update_order_correct:
  assumes "sm_inv sm"
  shows "sm_inv (register_system k s sm) \<and> sm_inv (unregister_system k sm)
    \<and> register_system k s' (register_system k s sm) = register_system k s sm
    \<and> set (update_order (register_system k s sm)) = insert k (set (update_order sm))
    \<and> set (update_order (unregister_system k sm)) = set (update_order sm) - {k}
    \<and> distinct (update_order (register_system k s sm))"
proof -
  note keys = sm_inv_keys
  note reg = sm_inv_register [OF assms, of k s] and unreg = sm_inv_unregister [OF assms, of k]
  have "fst ` set (systems (register_system k s sm)) = insert k (fst ` set (systems sm))"
    by (auto simp: register_system_def rebuild_update_order_def Let_def update_keys simp flip: set_map)
  moreover have "fst ` set (systems (unregister_system k sm)) = fst ` set (systems sm) - {k}"
    by (simp add: unregister_system_def rebuild_update_order_def Let_def delete_keys flip: set_map)
  moreover have "register_system k s' (register_system k s sm) = register_system k s sm"
    using calculation(1) by (simp add: register_system_def [of k s'])
  ultimately show ?thesis using reg unreg keys [OF reg] keys [OF unreg] keys [OF assms] by simp
qed

lemma sm_inv_empty: "sm_inv SystemManager"
  by (simp add: sm_inv_def SystemManager_def)

lemma update_order_correct_witness:
  "sm_inv (register_system AISystem new_system SystemManager) \<and> sm_inv (unregister_system AISystem SystemManager)
    \<and> register_system AISystem (set_priority 3 new_system) (register_system AISystem new_system SystemManager)
        = register_system AISystem new_system SystemManager
    \<and> set (update_order (register_system AISystem new_system SystemManager)) = insert AISystem (set (update_order SystemManager))
    \<and> set (update_order (unregister_system AISystem SystemManager)) = set (update_order SystemManager) - {AISystem}
    \<and> distinct (update_order (register_system AISystem new_system SystemManager))"
  by (rule update_order_correct [OF sm_inv_empty])

section \<open>Life cycle\<close>

definition gs_ok :: "game_service \<Rightarrow> bool" where
  "gs_ok gs \<longleftrightarrow> (initialized gs = (case managers gs of None \<Rightarrow> False | Some _ \<Rightarrow> True))"

text \<open>
  The life cycle of the service. \<open>initialize\<close> is idempotent and leaves the four systems
  registered. While it is initialised, updating, creating and destroying entities never dereference
  a null manager; after \<open>shutdown\<close>, as before \<open>initialize\<close>, an update changes nothing, and creating
  an entity dereferences null.
\<close>

lemma game_service_life_cycle:
  assumes "gs_ok gs"
  shows "gs_initialize (fst (gs_initialize gs)) = (fst (gs_initialize gs), True)
    \<and> gs_ok (fst (gs_initialize gs)) \<and> initialized (fst (gs_initialize gs))
    \<and> gs_get_system_count (fst (gs_initialize GameService)) = Some 4
    \<and> (\<exists>gs'. gs_update rnd dt gs = Some gs' \<and> gs_ok gs' \<and> (initialized gs \<or> gs' = gs))
    \<and> (\<exists>gs'. gs_shutdown gs = Some gs' \<and> gs_ok gs' \<and> \<not> initialized gs'
          \<and> gs_update rnd dt gs' = Some gs' \<and> gs_create_entity gs' = None)
    \<and> (initialized gs = (gs_create_entity gs \<noteq> None)) \<and> (initialized gs = (gs_destroy_entity e gs \<noteq> None))"
proof -
  have "gs_get_system_count (fst (gs_initialize GameService)) = Some 4"
    by (simp add: gs_initialize_def GameService_def gs_get_system_count_def get_system_count_def
        register_system_def rebuild_update_order_def SystemManager_def Let_def)
  moreover have "gs_initialize (fst (gs_initialize gs)) = (fst (gs_initialize gs), True)"
    "gs_ok (fst (gs_initialize gs))" "initialized (fst (gs_initialize gs))"
    using assms by (simp_all add: gs_initialize_def gs_ok_def Let_def)
  moreover have "\<exists>gs'. gs_update rnd dt gs = Some gs' \<and> gs_ok gs' \<and> (initialized gs \<or> gs' = gs)"
    using assms by (cases "managers gs") (auto simp: gs_update_def gs_ok_def)
  moreover have "\<exists>gs'. gs_shutdown gs = Some gs' \<and> gs_ok gs' \<and> \<not> initialized gs'
      \<and> gs_update rnd dt gs' = Some gs' \<and> gs_create_entity gs' = None"
    using assms by (cases "managers gs")
      (auto simp: gs_shutdown_def gs_update_def gs_create_entity_def gs_ok_def Let_def)
  moreover have "initialized gs = (gs_create_entity gs \<noteq> None)" "initialized gs = (gs_destroy_entity e gs \<noteq> None)"
    using assms by (auto simp: gs_create_entity_def gs_destroy_entity_def gs_ok_def Let_def
        split: option.splits prod.splits)
  ultimately show ?thesis by blast
qed

lemma game_service_life_cycle_witness:
  "gs_initialize (fst (gs_initialize GameService)) = (fst (gs_initialize GameService), True)
    \<and> gs_ok (fst (gs_initialize GameService)) \<and> initialized (fst (gs_initialize GameService))
    \<and> gs_get_system_count (fst (gs_initialize GameService)) = Some 4
    \<and> (\<exists>gs'. gs_update (\<lambda>_. 0) 0 GameService = Some gs' \<and> gs_ok gs' \<and> (initialized GameService \<or> gs' = GameService))
    \<and> (\<exists>gs'. gs_shutdown GameService = Some gs' \<and> gs_ok gs' \<and> \<not> initialized gs'
          \<and> gs_update (\<lambda>_. 0) 0 gs' = Some gs' \<and> gs_create_entity gs' = None)
    \<and> (initialized GameService = (gs_create_entity GameService \<noteq> None))
    \<and> (initialized GameService = (gs_destroy_entity 1 GameService \<noteq> None))"
  by (rule game_service_life_cycle) (simp add: gs_ok_def GameService_def)

end
