(* ===== verification/Task_Queue.thy ===== *)
theory Task_Queue
  imports Prelude "HOL-Library.Multiset"
begin

text \<open>
  The priority queues of the map threads and of the main thread manager:
  \<open>std::priority_queue\<close> over \<open>MapTask\<close> and \<open>MainThreadTask\<close>, whose \<open>operator<\<close> compares the
  priorities the other way round, so that \<open>top\<close> is a task with the smallest priority value. The
  standard leaves open which of several such tasks is on top; the model takes the oldest.
\<close>

section \<open>Operations\<close>

type_synonym 't task_queue = "(int \<times> 't) list"

definition task_less :: "int \<times> 't \<Rightarrow> int \<times> 't \<Rightarrow> bool" where
  "task_less a b = (fst a > fst b)"

definition tq_emplace :: "'t \<Rightarrow> int \<Rightarrow> 't task_queue \<Rightarrow> 't task_queue" where
  "tq_emplace t p q = q @ [(p, t)]"

text \<open>The oldest task that is below no other task.\<close>

fun tq_top :: "'t task_queue \<Rightarrow> int \<times> 't" where
  "tq_top [x] = x"
| "tq_top (x # y # q) = (if task_less x (tq_top (y # q)) then tq_top (y # q) else x)"

definition tq_pop :: "'t task_queue \<Rightarrow> 't task_queue" where
  "tq_pop q = remove1 (tq_top q) q"

section \<open>The contract of a priority queue\<close>

locale priority_queue =
  fixes push :: "'t \<Rightarrow> int \<Rightarrow> 'q \<Rightarrow> 'q"
    and top :: "'q \<Rightarrow> int \<times> 't"
    and pop :: "'q \<Rightarrow> 'q"
    and items :: "'q \<Rightarrow> (int \<times> 't) multiset"
  assumes items_push: "items (push t p q) = add_mset (p, t) (items q)"
    and top_in: "items q \<noteq> {#} \<Longrightarrow> top q \<in># items q"
    and top_least: "x \<in># items q \<Longrightarrow> fst (top q) \<le> fst x"
    and items_pop: "items q \<noteq> {#} \<Longrightarrow> items (pop q) = items q - {#top q#}"
begin

lemma items_split: "items q \<noteq> {#} \<Longrightarrow> items q = add_mset (top q) (items (pop q))"
  by (simp add: items_pop top_in)

lemma pop_later: "items q \<noteq> {#} \<Longrightarrow> x \<in># items (pop q) \<Longrightarrow> fst (top q) \<le> fst x"
  by (auto simp: items_pop dest: in_diffD intro: top_least)

lemma size_pop: "items q \<noteq> {#} \<Longrightarrow> size (items (pop q)) < size (items q)"
  by (metis items_split lessI size_add_mset)

lemma urgent_first:
  "\<forall>x \<in># items q. p < fst x \<Longrightarrow> top (push t p q) = (p, t)"
proof -
  assume later: "\<forall>x \<in># items q. p < fst x"
  have "top (push t p q) \<in># items (push t p q)" by (rule top_in) (simp add: items_push)
  moreover have "fst (top (push t p q)) \<le> p" using top_least [of "(p, t)" "push t p q"] by (simp add: items_push)
  ultimately show ?thesis using later by (auto simp: items_push)
qed

end

lemma tq_top_in: "q \<noteq> [] \<Longrightarrow> tq_top q \<in> set q"
  by (induction q rule: tq_top.induct) auto

lemma tq_top_least: "x \<in> set q \<Longrightarrow> fst (tq_top q) \<le> fst x"
  by (induction q rule: tq_top.induct) (auto simp: task_less_def)

interpretation task_pq: priority_queue tq_emplace tq_top tq_pop mset
  by unfold_locales (auto simp: tq_emplace_def tq_pop_def tq_top_in tq_top_least)

section \<open>Running the queue empty\<close>

text \<open>
  The loop of \<open>process_tasks\<close> and \<open>process_task_queue\<close> when no task is added meanwhile: the order
  in which the tasks run.
\<close>

function run_order :: "'t task_queue \<Rightarrow> (int \<times> 't) list" where
  "run_order q = (if q = [] then [] else tq_top q # run_order (tq_pop q))"
  by pat_completeness auto
termination
  by (relation "measure length") (auto simp: tq_pop_def length_remove1 tq_top_in)

declare run_order.simps [simp del]

lemma mset_run_order: "mset (run_order q) = mset q"
proof (induction q rule: run_order.induct)
  case (1 q)
  show ?case
  proof (cases "q = []")
    case False
    then show ?thesis
      using 1 task_pq.items_split [of q] by (subst run_order.simps) simp
  qed (simp add: run_order.simps)
qed

lemma set_run_order [simp]: "set (run_order q) = set q"
  by (metis mset_run_order set_mset_mset)

lemma sorted_run_order: "sorted (map fst (run_order q))"
proof (induction q rule: run_order.induct)
  case (1 q)
  show ?case
  proof (cases "q = []")
    case False
    moreover have "fst (tq_top q) \<le> fst x" if "x \<in> set (tq_pop q)" for x
      using task_pq.pop_later [of q x] that False by simp
    ultimately show ?thesis using 1 by (subst run_order.simps) auto
  qed (simp add: run_order.simps)
qed

section \<open>The loop that empties a queue\<close>

text \<open>
  \<open>MapThread::process_tasks\<close> and \<open>MainThreadManager::process_task_queue\<close> are the same loop on two
  state types: take the top task off the queue, run it, until the queue is empty. A task is neutral
  when it neither reads nor changes the queue.
\<close>

definition queue_neutral :: "('t task_queue \<Rightarrow> 's \<Rightarrow> 's) \<Rightarrow> ('t \<Rightarrow> 's \<Rightarrow> 's) \<Rightarrow> 't set \<Rightarrow> bool" where
  "queue_neutral set_queue run ts \<longleftrightarrow> (\<forall>t \<in> ts. \<forall>q st. run t (set_queue q st) = set_queue q (run t st))"

locale task_loop =
  fixes queue :: "'s \<Rightarrow> 't task_queue"
    and set_queue :: "'t task_queue \<Rightarrow> 's \<Rightarrow> 's"
    and loop :: "('t \<Rightarrow> 's \<Rightarrow> 's) \<Rightarrow> 's \<Rightarrow> 's option"
  assumes loop_empty: "queue st = [] \<Longrightarrow> loop run st = Some st"
    and loop_step: "queue st \<noteq> [] \<Longrightarrow>
      loop run st = loop run (run (snd (tq_top (queue st))) (set_queue (tq_pop (queue st)) st))"
    and queue_set: "queue (set_queue q st) = q"
    and set_queue_again: "set_queue q (set_queue q' st) = set_queue q st"
    and set_queue_same: "set_queue (queue st) st = st"
begin

lemma loop_runs_all:
  assumes "queue_neutral set_queue run (snd ` set q)" "queue st = q"
  shows "loop run st = Some (fold (\<lambda>task. run (snd task)) (run_order q) (set_queue [] st))"
  using assms
proof (induction q arbitrary: st rule: run_order.induct)
  case (1 q)
  show ?case
  proof (cases "q = []")
    case True
    then show ?thesis
      using loop_empty [of st run] set_queue_same [of st] "1.prems" by (simp add: run_order.simps)
  next
    case False
    define t where "t = snd (tq_top q)"
    have "set (tq_pop q) \<subseteq> set q" by (simp add: tq_pop_def set_remove1_subset)
    then have rest: "queue_neutral set_queue run (snd ` set (tq_pop q))"
      using "1.prems"(1) by (auto simp: queue_neutral_def)
    have run: "run t (set_queue q' st) = set_queue q' (run t st)" for q'
      using "1.prems"(1) tq_top_in [OF False] by (auto simp: queue_neutral_def t_def)
    have "loop run st = loop run (set_queue (tq_pop q) (run t st))"
      using loop_step [of st run] False "1.prems"(2) by (simp add: t_def [symmetric] run)
    also have "\<dots> = Some (fold (\<lambda>task. run (snd task)) (run_order (tq_pop q)) (run t (set_queue [] st)))"
      using "1.IH" [OF False rest queue_set] by (simp add: run set_queue_again)
    finally show ?thesis using False by (subst run_order.simps) (simp add: t_def)
  qed
qed

lemma loop_in_priority_order:
  assumes "queue_neutral set_queue run (snd ` set (queue st))"
  shows "\<exists>order. mset order = mset (queue st) \<and> sorted (map fst order)
    \<and> loop run st = Some (fold (\<lambda>task. run (snd task)) order (set_queue [] st))"
  using loop_runs_all [OF assms refl] mset_run_order sorted_run_order by blast

end

end
