(* ===== verification/Map_Thread.thy ===== *)
theory Map_Thread
  imports Game_Service Task_Queue Wire
begin

text \<open>
  One map thread (\<open>server/game/threading/map_thread.hpp\<close>, \<open>map_thread.cpp\<close>): its packet queue, its
  task queue, the players and monsters of the map, and one iteration of \<open>thread_loop\<close>. The game
  service is initialised while map threads exist, so its world is part of the environment; so is
  the function-local \<open>static\<close> seed of \<open>spawn_monsters\<close>, which all map threads share. The three
  component pointers that the constructor stores are looked up through the map's entity. A task is a
  closure of the caller: a type parameter with its effect as the parameter \<open>run\<close>. Handlers that only
  log return the log record. Each definition is one critical section of the source.
\<close>

section \<open>State\<close>

record map_packet =
  mpk_channel_id :: int
  mpk_cmd :: u16
  mpk_data :: bytes

record 't map_thread =
  mt_map_id :: int
  mt_map_name :: bytes
  mt_map_entity :: entity
  mt_width :: f32
  mt_height :: f32
  mt_max_players :: int
  mt_running :: bool
  mt_packet_queue :: "map_packet list"
  mt_task_queue :: "'t task_queue"
  mt_local_players :: "int list"
  mt_local_monsters :: "entity list"
  mt_local_npcs :: "entity list"
  mt_local_items :: "entity list"
  mt_player_count :: int
  mt_monster_count :: int
  mt_npc_count :: int
  mt_item_count :: int
  mt_spawn_timer :: f32

record map_env =
  env_world :: world
  env_seed :: u32

datatype map_log =
    MoveLog int f32 f32 f32
  | CombatLog int
  | InteractionLog int
  | ChatLog int
  | UnknownCmd u16

type_synonym 't mt_state = "'t map_thread \<times> map_env"

section \<open>Life cycle and queues\<close>

definition MapThread :: "int \<Rightarrow> bytes \<Rightarrow> f32 \<Rightarrow> f32 \<Rightarrow> int \<Rightarrow> map_env \<Rightarrow> 't mt_state" where
  "MapThread mid name w h maxp env =
    (let (wd, me) = w_create_entity (env_world env);
         wd = w_add_component map_component_slot me (MapComponent mid name w h maxp) wd;
         wd = w_add_component map_objects_component_slot me MapObjectsComponent wd;
         wd = w_add_component map_bounds_component_slot me (MapBoundsComponent 0 0 0 w h 0x447A0000) wd
     in (\<lparr>mt_map_id = mid, mt_map_name = name, mt_map_entity = me, mt_width = w, mt_height = h,
          mt_max_players = maxp, mt_running = False, mt_packet_queue = [], mt_task_queue = [],
          mt_local_players = [], mt_local_monsters = [], mt_local_npcs = [], mt_local_items = [],
          mt_player_count = 0, mt_monster_count = 0, mt_npc_count = 0, mt_item_count = 0,
          mt_spawn_timer = 0\<rparr>, env\<lparr>env_world := wd\<rparr>))"

definition mt_start :: "'t map_thread \<Rightarrow> 't map_thread" where
  "mt_start mt = (if mt_running mt then mt else mt\<lparr>mt_running := True\<rparr>)"

definition mt_stop :: "'t map_thread \<Rightarrow> 't map_thread" where
  "mt_stop mt = (if \<not> mt_running mt then mt else mt\<lparr>mt_running := False\<rparr>)"

definition add_packet :: "int \<Rightarrow> u16 \<Rightarrow> bytes \<Rightarrow> 't map_thread \<Rightarrow> 't map_thread" where
  "add_packet ch cmd data mt = mt\<lparr>mt_packet_queue :=
     mt_packet_queue mt @ [\<lparr>mpk_channel_id = ch, mpk_cmd = cmd, mpk_data = data\<rparr>]\<rparr>"

definition mt_add_task :: "'t \<Rightarrow> int \<Rightarrow> 't map_thread \<Rightarrow> 't map_thread" where
  "mt_add_task t p mt = mt\<lparr>mt_task_queue := tq_emplace t p (mt_task_queue mt)\<rparr>"

section \<open>Packets\<close>

definition handle_movement_packet :: "int \<Rightarrow> bytes \<Rightarrow> map_log list" where
  "handle_movement_packet ch data =
    (if length data < 12 then []
     else [MoveLog ch (read_float_le data) (read_float_le (drop 4 data)) (read_float_le (drop 8 data))])"

definition handle_combat_packet :: "int \<Rightarrow> bytes \<Rightarrow> map_log list" where
  "handle_combat_packet ch data = [CombatLog ch]"

definition handle_interaction_packet :: "int \<Rightarrow> bytes \<Rightarrow> map_log list" where
  "handle_interaction_packet ch data = [InteractionLog ch]"

definition handle_chat_packet :: "int \<Rightarrow> bytes \<Rightarrow> map_log list" where
  "handle_chat_packet ch data = [ChatLog ch]"

definition process_single_packet :: "map_packet \<Rightarrow> map_log list" where
  "process_single_packet pk =
    (if mpk_cmd pk = 0x1001 then handle_movement_packet (mpk_channel_id pk) (mpk_data pk)
     else if mpk_cmd pk = 0x1002 then handle_combat_packet (mpk_channel_id pk) (mpk_data pk)
     else if mpk_cmd pk = 0x1003 then handle_interaction_packet (mpk_channel_id pk) (mpk_data pk)
     else if mpk_cmd pk = 0x1004 then handle_chat_packet (mpk_channel_id pk) (mpk_data pk)
     else [UnknownCmd (mpk_cmd pk)])"

function process_packets :: "'t map_thread \<Rightarrow> 't map_thread \<times> map_log list" where
  "process_packets mt =
    (case mt_packet_queue mt of
       [] \<Rightarrow> (mt, [])
     | pk # rest \<Rightarrow>
         let mt = mt\<lparr>mt_packet_queue := rest\<rparr>;
             out = process_single_packet pk;
             (mt, out') = process_packets mt
         in (mt, out @ out'))"
  by pat_completeness auto
termination
  by (relation "measure (\<lambda>mt. length (mt_packet_queue mt))") auto

declare process_packets.simps [simp del]

section \<open>Tasks\<close>

text \<open>A task may add tasks, so the loop need not end: \<open>None\<close> is an endless loop.\<close>

partial_function (option) process_tasks ::
  "('t \<Rightarrow> 't mt_state \<Rightarrow> 't mt_state) \<Rightarrow> 't mt_state \<Rightarrow> 't mt_state option" where
  "process_tasks run st =
    (if mt_task_queue (fst st) = [] then Some st
     else let q = mt_task_queue (fst st); task = tq_top q
          in process_tasks run (run (snd task) ((fst st)\<lparr>mt_task_queue := tq_pop q\<rparr>, snd st)))"

section \<open>Players\<close>

definition add_player :: "int \<Rightarrow> entity \<Rightarrow> 't mt_state \<Rightarrow> 't mt_state" where
  "add_player ch e = (\<lambda>(mt, env).
    let mt = mt\<lparr>mt_local_players := uset_insert ch (mt_local_players mt)\<rparr>;
        mt = mt\<lparr>mt_player_count := int (length (mt_local_players mt))\<rparr>
    in (mt, env\<lparr>env_world := w_modify_component map_objects_component_slot (mt_map_entity mt)
         (mo_add_player e) (env_world env)\<rparr>))"

definition remove_player :: "int \<Rightarrow> 't mt_state \<Rightarrow> 't mt_state" where
  "remove_player ch = (\<lambda>(mt, env).
    let mt = mt\<lparr>mt_local_players := remove1 ch (mt_local_players mt)\<rparr>
    in (mt\<lparr>mt_player_count := int (length (mt_local_players mt))\<rparr>, env))"

section \<open>Updates of the objects\<close>

definition mt_is_object_in_bounds :: "'t map_thread \<Rightarrow> entity \<Rightarrow> world \<Rightarrow> bool" where
  "mt_is_object_in_bounds mt e wd =
    (case w_get_component map_bounds_component_slot wd (mt_map_entity mt) of
       None \<Rightarrow> True
     | Some b \<Rightarrow>
         (case w_get_component position_slot wd e of
            None \<Rightarrow> True
          | Some p \<Rightarrow> is_inside b (pos_x p) (pos_y p) (pos_z p)))"

definition mt_clamp_object_to_bounds :: "'t map_thread \<Rightarrow> entity \<Rightarrow> world \<Rightarrow> world" where
  "mt_clamp_object_to_bounds mt e wd =
    (case w_get_component map_bounds_component_slot wd (mt_map_entity mt) of
       None \<Rightarrow> wd
     | Some b \<Rightarrow>
         (case w_get_component position_slot wd e of
            None \<Rightarrow> wd
          | Some p \<Rightarrow> w_modify_component position_slot e (clamp_to_bounds b) wd))"

definition advance :: "f32 \<Rightarrow> velocity \<Rightarrow> position \<Rightarrow> position" where
  "advance dt v p =
    p\<lparr>pos_x := f_add (pos_x p) (f_mul (vel_x v) dt),
      pos_y := f_add (pos_y p) (f_mul (vel_y v) dt),
      pos_z := f_add (pos_z p) (f_mul (vel_z v) dt)\<rparr>"

definition update_object_position :: "'t map_thread \<Rightarrow> f32 \<Rightarrow> entity \<Rightarrow> world \<Rightarrow> world" where
  "update_object_position mt dt e wd =
    (case (w_get_component position_slot wd e, w_get_component velocity_slot wd e) of
       (Some p, Some v) \<Rightarrow>
         let wd = w_modify_component position_slot e (advance dt v) wd
         in if \<not> mt_is_object_in_bounds mt e wd then mt_clamp_object_to_bounds mt e wd else wd
     | _ \<Rightarrow> wd)"

text \<open>These helpers have empty bodies in the source.\<close>

definition update_object_ai :: "'t map_thread \<Rightarrow> f32 \<Rightarrow> entity \<Rightarrow> world \<Rightarrow> world" where
  "update_object_ai mt dt e wd = wd"

definition check_object_collisions :: "'t map_thread \<Rightarrow> entity \<Rightarrow> world \<Rightarrow> world" where
  "check_object_collisions mt e wd = wd"

definition handle_object_interactions :: "'t map_thread \<Rightarrow> entity \<Rightarrow> world \<Rightarrow> world" where
  "handle_object_interactions mt e wd = wd"

definition update_players :: "f32 \<Rightarrow> 't mt_state \<Rightarrow> 't mt_state" where
  "update_players dt = (\<lambda>(mt, env). fold (\<lambda>ch st. st) (mt_local_players mt) (mt, env))"

definition update_monsters :: "f32 \<Rightarrow> 't mt_state \<Rightarrow> 't mt_state" where
  "update_monsters dt = (\<lambda>(mt, env).
    (mt, env\<lparr>env_world := fold (\<lambda>e wd. check_object_collisions mt e
         (update_object_position mt dt e (update_object_ai mt dt e wd)))
       (mt_local_monsters mt) (env_world env)\<rparr>))"

definition update_npcs :: "f32 \<Rightarrow> 't mt_state \<Rightarrow> 't mt_state" where
  "update_npcs dt = (\<lambda>(mt, env).
    (mt, env\<lparr>env_world := fold (\<lambda>e wd. handle_object_interactions mt e
         (update_object_position mt dt e (update_object_ai mt dt e wd)))
       (mt_local_npcs mt) (env_world env)\<rparr>))"

definition update_items :: "f32 \<Rightarrow> 't mt_state \<Rightarrow> 't mt_state" where
  "update_items dt = (\<lambda>(mt, env). fold (\<lambda>e st. st) (mt_local_items mt) (mt, env))"

section \<open>Spawning\<close>

definition SPAWN_INTERVAL :: f32 where
  "SPAWN_INTERVAL = 0x41F00000"

definition MAX_MONSTERS :: int where
  "MAX_MONSTERS = 10"

definition next_rand :: "f32 \<Rightarrow> u32 \<Rightarrow> u32 \<times> f32" where
  "next_rand mx seed =
    (let seed = seed * 1664525 + 1013904223
     in (seed, f_mul (f_div (f_of_u32 (seed mod 10000)) 0x461C4000) mx))"

definition spawn_one :: "'t mt_state \<Rightarrow> 't mt_state" where
  "spawn_one = (\<lambda>(mt, env).
    let (wd, e) = w_create_entity (env_world env);
        (seed, x) = next_rand (mt_width mt) (env_seed env);
        y = 0;
        (seed, z) = next_rand (mt_height mt) seed;
        wd = w_add_component position_slot e (Position x y z) wd;
        wd = w_add_component velocity_slot e (Velocity 0 0 0) wd;
        wd = w_add_component health_slot e (Health 100 0) wd;
        wd = w_add_component monster_slot e (Monster 1 1) wd;
        wd = w_add_component game_object_slot e (GameObject MONSTER (str ''Goblin'') e) wd;
        mt = mt\<lparr>mt_local_monsters := uset_insert e (mt_local_monsters mt)\<rparr>;
        mt = mt\<lparr>mt_monster_count := int (length (mt_local_monsters mt))\<rparr>;
        wd = w_modify_component map_objects_component_slot (mt_map_entity mt) (mo_add_monster e) wd
    in (mt, env\<lparr>env_world := wd, env_seed := seed\<rparr>))"

definition spawn_monsters :: "f32 \<Rightarrow> 't mt_state \<Rightarrow> 't mt_state" where
  "spawn_monsters dt = (\<lambda>(mt, env).
    let mt = mt\<lparr>mt_spawn_timer := f_add (mt_spawn_timer mt) dt\<rparr>
    in if f_lt (mt_spawn_timer mt) SPAWN_INTERVAL then (mt, env)
       else let mt = mt\<lparr>mt_spawn_timer := 0\<rparr>
            in if int (length (mt_local_monsters mt)) \<ge> MAX_MONSTERS then (mt, env)
               else let spawn_count = min 3 (MAX_MONSTERS - int (length (mt_local_monsters mt)))
                    in (spawn_one ^^ nat spawn_count) (mt, env))"

definition spawn_items :: "f32 \<Rightarrow> 't mt_state \<Rightarrow> 't mt_state" where
  "spawn_items dt st = st"

definition handle_spawn_events :: "f32 \<Rightarrow> 't mt_state \<Rightarrow> 't mt_state" where
  "handle_spawn_events dt st = spawn_items dt (spawn_monsters dt st)"

definition handle_combat_events :: "f32 \<Rightarrow> 't mt_state \<Rightarrow> 't mt_state" where
  "handle_combat_events dt st = st"

definition handle_interaction_events :: "f32 \<Rightarrow> 't mt_state \<Rightarrow> 't mt_state" where
  "handle_interaction_events dt st = st"

definition update_map :: "f32 \<Rightarrow> 't mt_state \<Rightarrow> 't mt_state" where
  "update_map dt st =
    (let st = update_players dt st;
         st = update_monsters dt st;
         st = update_npcs dt st;
         st = update_items dt st;
         st = handle_spawn_events dt st;
         st = handle_combat_events dt st
     in handle_interaction_events dt st)"

text \<open>One iteration of \<open>thread_loop\<close>; \<open>dt\<close> is the time since the last one.\<close>

definition thread_iteration ::
  "('t \<Rightarrow> 't mt_state \<Rightarrow> 't mt_state) \<Rightarrow> f32 \<Rightarrow> 't mt_state \<Rightarrow> ('t mt_state \<times> map_log list) option" where
  "thread_iteration run dt = (\<lambda>(mt, env).
    if \<not> mt_running mt then Some ((mt, env), [])
    else let (mt, logs) = process_packets mt
         in case process_tasks run (mt, env) of
              None \<Rightarrow> None
            | Some st \<Rightarrow> Some (update_map dt st, logs))"

definition mt_get_total_object_count :: "'t map_thread \<Rightarrow> int" where
  "mt_get_total_object_count mt =
     mt_player_count mt + mt_monster_count mt + mt_npc_count mt + mt_item_count mt"

section \<open>Components of different types do not interfere\<close>

definition slots_apart :: "'a slot \<Rightarrow> 'b slot \<Rightarrow> bool" where
  "slots_apart a b \<longleftrightarrow> (\<forall>s cm. slot_get a (slot_put b s cm) = slot_get a cm)
     \<and> (\<forall>ks cm. slot_get a (cm\<lparr>store_keys := ks\<rparr>) = slot_get a cm)"

lemma slots_apart [simp]:
  "slots_apart position_slot velocity_slot" "slots_apart position_slot health_slot" "slots_apart position_slot monster_slot"
  "slots_apart position_slot game_object_slot" "slots_apart position_slot player_slot" "slots_apart position_slot map_component_slot"
  "slots_apart position_slot map_objects_component_slot" "slots_apart position_slot map_bounds_component_slot" "slots_apart velocity_slot position_slot"
  "slots_apart velocity_slot health_slot" "slots_apart velocity_slot monster_slot" "slots_apart velocity_slot game_object_slot"
  "slots_apart velocity_slot player_slot" "slots_apart velocity_slot map_component_slot" "slots_apart velocity_slot map_objects_component_slot"
  "slots_apart velocity_slot map_bounds_component_slot" "slots_apart health_slot position_slot" "slots_apart health_slot velocity_slot"
  "slots_apart health_slot monster_slot" "slots_apart health_slot game_object_slot" "slots_apart health_slot player_slot"
  "slots_apart health_slot map_component_slot" "slots_apart health_slot map_objects_component_slot" "slots_apart health_slot map_bounds_component_slot"
  "slots_apart monster_slot position_slot" "slots_apart monster_slot velocity_slot" "slots_apart monster_slot health_slot"
  "slots_apart monster_slot game_object_slot" "slots_apart monster_slot player_slot" "slots_apart monster_slot map_component_slot"
  "slots_apart monster_slot map_objects_component_slot" "slots_apart monster_slot map_bounds_component_slot" "slots_apart game_object_slot position_slot"
  "slots_apart game_object_slot velocity_slot" "slots_apart game_object_slot health_slot" "slots_apart game_object_slot monster_slot"
  "slots_apart game_object_slot player_slot" "slots_apart game_object_slot map_component_slot" "slots_apart game_object_slot map_objects_component_slot"
  "slots_apart game_object_slot map_bounds_component_slot" "slots_apart player_slot position_slot" "slots_apart player_slot velocity_slot"
  "slots_apart player_slot health_slot" "slots_apart player_slot monster_slot" "slots_apart player_slot game_object_slot"
  "slots_apart player_slot map_component_slot" "slots_apart player_slot map_objects_component_slot" "slots_apart player_slot map_bounds_component_slot"
  "slots_apart map_component_slot position_slot" "slots_apart map_component_slot velocity_slot" "slots_apart map_component_slot health_slot"
  "slots_apart map_component_slot monster_slot" "slots_apart map_component_slot game_object_slot" "slots_apart map_component_slot player_slot"
  "slots_apart map_component_slot map_objects_component_slot" "slots_apart map_component_slot map_bounds_component_slot" "slots_apart map_objects_component_slot position_slot"
  "slots_apart map_objects_component_slot velocity_slot" "slots_apart map_objects_component_slot health_slot" "slots_apart map_objects_component_slot monster_slot"
  "slots_apart map_objects_component_slot game_object_slot" "slots_apart map_objects_component_slot player_slot" "slots_apart map_objects_component_slot map_component_slot"
  "slots_apart map_objects_component_slot map_bounds_component_slot" "slots_apart map_bounds_component_slot position_slot" "slots_apart map_bounds_component_slot velocity_slot"
  "slots_apart map_bounds_component_slot health_slot" "slots_apart map_bounds_component_slot monster_slot" "slots_apart map_bounds_component_slot game_object_slot"
  "slots_apart map_bounds_component_slot player_slot" "slots_apart map_bounds_component_slot map_component_slot" "slots_apart map_bounds_component_slot map_objects_component_slot"
  by (simp_all add: slots_apart_def slot_defs)

lemma w_get_apart [simp]:
  "slots_apart a b \<Longrightarrow> w_get_component a (w_add_component b e c wd) k = w_get_component a wd k"
  "slots_apart a b \<Longrightarrow> w_get_component a (w_modify_component b e f wd) k = w_get_component a wd k"
  by (simp_all add: slots_apart_def w_get_component_def w_add_component_def w_modify_component_def
      component_of_def add_component_def modify_component_def get_store_def Let_def)

lemma w_get_create [simp]: "w_get_component sl (fst (w_create_entity wd)) k = w_get_component sl wd k"
  by (simp add: w_create_entity_def w_get_component_def case_prod_unfold Let_def)

lemma w_entities_components [simp]:
  "w_entities (w_add_component sl e c wd) = w_entities wd"
  "w_entities (w_modify_component sl e f wd) = w_entities wd"
  by (simp_all add: w_add_component_def w_modify_component_def)

lemma w_get_same [simp]:
  "w_get_component position_slot (w_add_component position_slot e c1 wd) k
     = (if k = e then Some c1 else w_get_component position_slot wd k)"
  "w_get_component velocity_slot (w_add_component velocity_slot e c2 wd) k
     = (if k = e then Some c2 else w_get_component velocity_slot wd k)"
  "w_get_component health_slot (w_add_component health_slot e c3 wd) k
     = (if k = e then Some c3 else w_get_component health_slot wd k)"
  "w_get_component monster_slot (w_add_component monster_slot e c4 wd) k
     = (if k = e then Some c4 else w_get_component monster_slot wd k)"
  "w_get_component map_objects_component_slot (w_add_component map_objects_component_slot e c5 wd) k
     = (if k = e then Some c5 else w_get_component map_objects_component_slot wd k)"
  "w_get_component map_bounds_component_slot (w_add_component map_bounds_component_slot e c6 wd) k
     = (if k = e then Some c6 else w_get_component map_bounds_component_slot wd k)"
  "w_get_component map_objects_component_slot (w_modify_component map_objects_component_slot e f wd) k
     = (if k = e then map_option f (w_get_component map_objects_component_slot wd k)
        else w_get_component map_objects_component_slot wd k)"
  "w_get_component position_slot (w_modify_component position_slot e g wd) k
     = (if k = e then map_option g (w_get_component position_slot wd k)
        else w_get_component position_slot wd k)"
  by (simp_all add: w_get_component_def w_add_component_def w_modify_component_def
      position_sl.component_of_add velocity_sl.component_of_add health_sl.component_of_add
      monster_sl.component_of_add map_objects_component_sl.component_of_add
      map_bounds_component_sl.component_of_add map_objects_component_sl.component_of_modify
      position_sl.component_of_modify)

section \<open>Packets and tasks in order\<close>

lemma process_packets_eq:
  "process_packets mt = (mt\<lparr>mt_packet_queue := []\<rparr>, concat (map process_single_packet (mt_packet_queue mt)))"
proof (induction mt rule: process_packets.induct)
  case (1 mt)
  then show ?case
    by (subst process_packets.simps) (auto simp: Let_def split: list.split)
qed

text \<open>
  A map thread handles its packets in the order of their arrival, each exactly once: what was
  added later is handled later, and the queue is empty at the end.
\<close>

lemma packets_are_fifo:
  "process_packets (add_packet ch cmd data mt) =
     (let (mt', logs) = process_packets mt
      in (mt', logs @ process_single_packet \<lparr>mpk_channel_id = ch, mpk_cmd = cmd, mpk_data = data\<rparr>))
   \<and> mt_packet_queue (fst (process_packets mt)) = []"
  by (simp add: process_packets_eq add_packet_def)

abbreviation set_tasks :: "'t task_queue \<Rightarrow> 't mt_state \<Rightarrow> 't mt_state" where
  "set_tasks q st \<equiv> ((fst st)\<lparr>mt_task_queue := q\<rparr>, snd st)"

interpretation map_tasks: task_loop "\<lambda>st. mt_task_queue (fst st)" set_tasks process_tasks
proof
  fix st :: "'t mt_state" and run
  show "process_tasks run st = Some st" if "mt_task_queue (fst st) = []"
    using that by (subst process_tasks.simps) simp
  show "process_tasks run st = process_tasks run (run (snd (tq_top (mt_task_queue (fst st))))
      (set_tasks (tq_pop (mt_task_queue (fst st))) st))" if "mt_task_queue (fst st) \<noteq> []"
    using that by (subst process_tasks.simps) (simp add: Let_def)
qed simp_all

text \<open>
  When no task touches the task queue, \<open>process_tasks\<close> returns: it has run every queued task
  exactly once, the ones with a smaller priority value first, and the queue is empty.
\<close>

lemma process_tasks_in_priority_order:
  assumes "queue_neutral set_tasks run (snd ` set (mt_task_queue mt))"
  shows "\<exists>order. mset order = mset (mt_task_queue mt) \<and> sorted (map fst order)
    \<and> process_tasks run (mt, env) =
        Some (fold (\<lambda>task. run (snd task)) order (mt\<lparr>mt_task_queue := []\<rparr>, env))"
  using map_tasks.loop_in_priority_order [of run "(mt, env)"] assms by simp

definition demo_env :: map_env where
  "demo_env = \<lparr>env_world = new_world, env_seed = 42\<rparr>"

definition demo_thread :: "int mt_state" where
  "demo_thread = add_player 7 9 (MapThread 1 (str ''field'') 0x447A0000 0x447A0000 100 demo_env)"

lemma process_tasks_in_priority_order_witness:
  "\<exists>order. mset order = mset (mt_task_queue (mt_add_task 7 2 (fst demo_thread))) \<and> sorted (map fst order)
    \<and> process_tasks remove_player (mt_add_task 7 2 (fst demo_thread), snd demo_thread) =
        Some (fold (\<lambda>task. remove_player (snd task)) order
          ((mt_add_task 7 2 (fst demo_thread))\<lparr>mt_task_queue := []\<rparr>, snd demo_thread))"
  by (rule process_tasks_in_priority_order)
    (simp add: queue_neutral_def remove_player_def Let_def case_prod_unfold)

section \<open>Random positions\<close>

lemma mag_of_bits_mono:
  assumes "b \<le> b'" "b' \<le> f_inf_bits"
  shows "mag_of_bits b \<le> mag_of_bits b'"
proof (rule ccontr)
  assume not: "\<not> mag_of_bits b \<le> mag_of_bits b'"
  then have "round_mag (mag_of_bits b') 1 \<le> b" using assms by (intro round_mag_le) simp_all
  then show False using round_mag_exact [OF assms(2)] assms(1) not by simp
qed

definition nonneg :: "f32 \<Rightarrow> bool" where
  "nonneg x \<longleftrightarrow> \<not> f_sign x \<and> f_abs_bits x < f_inf_bits"

lemma nonneg_int: "nonneg x \<Longrightarrow> f_int x = int (f_mag x)"
  by (simp add: nonneg_def f_int_def)

lemma mag_10000: "f_mag 0x461C4000 = 10000 * 2 ^ 149"
  by (simp add: f_eval)

lemma mag_1: "mag_of_bits 0x3F800000 = 2 ^ 149" "0x3F800000 \<le> f_inf_bits"
  by (simp_all add: mag_of_bits_def f_inf_bits_def)

lemma small_number:
  assumes "n < 10000"
  shows "\<exists>b. f_of_nat n = f_pack False b \<and> b < f_inf_bits \<and> mag_of_bits b \<le> 10000 * 2 ^ 149"
proof -
  have bits: "f_abs_bits 0x461C4000 = 0x461C4000" by (simp add: f_abs_bits_def)
  have mag: "mag_of_bits 0x461C4000 = 10000 * 2 ^ 149" using mag_10000 by (simp only: f_mag_def bits)
  have le: "round_mag (n * 2 ^ 149) 1 \<le> 0x461C4000"
    by (rule round_mag_le) (use assms mag in \<open>simp_all add: f_inf_bits_def\<close>)
  then have "mag_of_bits (round_mag (n * 2 ^ 149) 1) \<le> mag_of_bits 0x461C4000"
    by (rule mag_of_bits_mono) (simp add: f_inf_bits_def)
  with le mag show ?thesis by (auto simp: f_of_nat_def f_inf_bits_def)
qed

lemma unit_fraction:
  assumes "n < 10000"
  shows "\<exists>b. f_div (f_of_nat n) 0x461C4000 = f_pack False b \<and> b < f_inf_bits \<and> mag_of_bits b \<le> 2 ^ 149"
proof -
  obtain b where b: "f_of_nat n = f_pack False b" "b < f_inf_bits" "mag_of_bits b \<le> 10000 * 2 ^ 149"
    using small_number [OF assms] by blast
  define c where "c = round_mag (mag_of_bits b * 2 ^ 149) (10000 * 2 ^ 149)"
  have "f_div (f_of_nat n) 0x461C4000 = f_pack False c"
    using b pack_positive [of b] mag_10000
    by (simp add: f_div_def c_def f_mag_def f_isnan_def f_isinf_def Let_def f_sign_def f_abs_bits_def
        f_inf_bits_def)
  moreover have le: "c \<le> 0x3F800000"
    unfolding c_def by (rule round_mag_le) (use b(3) mag_1 in simp_all)
  moreover have "mag_of_bits c \<le> 2 ^ 149" using mag_of_bits_mono [OF le mag_1(2)] mag_1(1) by simp
  ultimately show ?thesis by (auto simp: f_inf_bits_def)
qed

lemma next_rand_range:
  assumes "nonneg mx"
  shows "f_le 0 (snd (next_rand mx seed)) \<and> f_le (snd (next_rand mx seed)) mx"
proof -
  define n where "n = unat ((seed * 1664525 + 1013904223) mod 10000)"
  have "n < 10000" by (simp add: n_def unat_mod)
  then obtain b where b: "f_div (f_of_nat n) 0x461C4000 = f_pack False b" "b < f_inf_bits"
      "mag_of_bits b \<le> 2 ^ 149"
    using unit_fraction by blast
  define c where "c = round_mag (mag_of_bits b * f_mag mx) (2 ^ 149)"
  have res: "snd (next_rand mx seed) = f_pack False c"
    using b pack_positive [of b] assms
    by (simp add: next_rand_def f_of_u32_def n_def [symmetric] Let_def f_mul_def c_def nonneg_def
        f_isnan_def f_isinf_def f_mag_def)
  have mx: "f_abs_bits mx \<le> f_inf_bits" using assms by (simp add: nonneg_def)
  have "c \<le> f_abs_bits mx"
    unfolding c_def
  proof (rule round_mag_le [OF _ _ mx])
    show "mag_of_bits b * f_mag mx \<le> mag_of_bits (f_abs_bits mx) * 2 ^ 149"
      using mult_le_mono1 [OF b(3), of "f_mag mx"] by (simp add: f_mag_def mult.commute)
  qed simp
  then have "mag_of_bits c \<le> f_mag mx" "c \<le> f_inf_bits"
    using mag_of_bits_mono mx by (auto simp: f_mag_def)
  then show ?thesis
    using f_pack_num [of c] assms nonneg_int [OF assms]
    by (auto simp: res f_le_def nonneg_def f_isnan_def f_int_def f_abs_bits_def f_mag_def mag_of_bits_def f_sign_def)
qed

section \<open>The invariant of a map thread\<close>

definition has_monster_parts :: "world \<Rightarrow> entity \<Rightarrow> bool" where
  "has_monster_parts wd e \<longleftrightarrow> w_get_component position_slot wd e \<noteq> None
     \<and> w_get_component velocity_slot wd e \<noteq> None \<and> w_get_component health_slot wd e \<noteq> None
     \<and> w_get_component monster_slot wd e \<noteq> None"

definition mt_ok :: "nat \<Rightarrow> 't mt_state \<Rightarrow> bool" where
  "mt_ok n = (\<lambda>(mt, env). em_inv n (w_entities (env_world env))
     \<and> distinct (mt_local_players mt) \<and> mt_player_count mt = int (length (mt_local_players mt))
     \<and> distinct (mt_local_monsters mt) \<and> mt_monster_count mt = int (length (mt_local_monsters mt))
     \<and> int (length (mt_local_monsters mt)) \<le> MAX_MONSTERS
     \<and> (\<exists>mo. w_get_component map_objects_component_slot (env_world env) (mt_map_entity mt) = Some mo
          \<and> set (mt_local_monsters mt) \<subseteq> set (mo_monsters mo))
     \<and> w_get_component map_bounds_component_slot (env_world env) (mt_map_entity mt) =
         Some (MapBoundsComponent 0 0 0 (mt_width mt) (mt_height mt) 0x447A0000)
     \<and> (\<forall>e \<in> set (mt_local_monsters mt). unat e \<le> n \<and> has_monster_parts (env_world env) e))"

lemma mo_monsters_add [simp]: "set (mo_monsters (mo_add_monster e mo)) = insert e (set (mo_monsters mo))"
  by (simp add: mo_add_monster_def)

lemma mo_monsters_add_player [simp]: "mo_monsters (mo_add_player e mo) = mo_monsters mo"
  by (simp add: mo_add_player_def)

lemma create_entity_id:
  "em_inv n (w_entities wd) \<Longrightarrow> snd (w_create_entity wd) = of_nat (Suc n)"
  by (simp add: w_create_entity_def create_entity_def em_inv_def Let_def)

lemma create_entity_inv:
  "em_inv n (w_entities wd) \<Longrightarrow> Suc n < 2 ^ 32 - 1 \<Longrightarrow> em_inv (Suc n) (w_entities (fst (w_create_entity wd)))"
  using em_inv_create [of n "w_entities wd"] by (simp add: w_create_entity_def case_prod_unfold Let_def)

lemma spawn_one_monsters:
  assumes ok: "mt_ok n (mt, env)" and n: "Suc n < 2 ^ 32 - 1"
  shows "mt_local_monsters (fst (spawn_one (mt, env))) = mt_local_monsters mt @ [of_nat (Suc n)]"
proof -
  have "of_nat (Suc n) \<notin> set (mt_local_monsters mt)"
    using ok n by (auto simp: mt_ok_def unat_of_nat_u32 simp del: of_nat_Suc)
  then show ?thesis
    using ok create_entity_id [of n "env_world env"]
    by (simp add: spawn_one_def case_prod_unfold Let_def uset_insert_def mt_ok_def)
qed

lemma spawn_one_ok:
  assumes ok: "mt_ok n (mt, env)" and n: "Suc n < 2 ^ 32 - 1"
    and room: "int (length (mt_local_monsters mt)) < MAX_MONSTERS"
  shows "mt_ok (Suc n) (spawn_one (mt, env))"
proof -
  have em: "em_inv n (w_entities (env_world env))" using ok by (simp add: mt_ok_def)
  have fresh: "of_nat (Suc n) \<notin> set (mt_local_monsters mt)"
    using ok n by (auto simp: mt_ok_def unat_of_nat_u32 simp del: of_nat_Suc)
  show ?thesis
    using ok fresh room n create_entity_id [OF em] create_entity_inv [OF em n]
    by (auto simp: spawn_one_def case_prod_unfold Let_def uset_insert_def mt_ok_def
        has_monster_parts_def unat_of_nat_u32 simp del: of_nat_Suc)
qed

lemma spawn_one_sizes [simp]:
  "mt_width (fst (spawn_one st)) = mt_width (fst st)" "mt_height (fst (spawn_one st)) = mt_height (fst st)"
  by (simp_all add: spawn_one_def case_prod_unfold Let_def)

definition placed :: "'t map_thread \<Rightarrow> world \<Rightarrow> entity \<Rightarrow> bool" where
  "placed mt wd e \<longleftrightarrow> (\<exists>p. w_get_component position_slot wd e = Some p
     \<and> f_le 0 (pos_x p) \<and> f_le (pos_x p) (mt_width mt) \<and> pos_y p = 0
     \<and> f_le 0 (pos_z p) \<and> f_le (pos_z p) (mt_height mt))"

lemma spawn_one_placed:
  assumes "mt_ok n (mt, env)" "nonneg (mt_width mt)" "nonneg (mt_height mt)"
    and "e = of_nat (Suc n) \<or> placed mt (env_world env) e"
  shows "placed (fst (spawn_one (mt, env))) (env_world (snd (spawn_one (mt, env)))) e"
  using assms create_entity_id [of n "env_world env"]
  by (auto simp: spawn_one_def case_prod_unfold Let_def placed_def mt_ok_def next_rand_range
      Position_def
      simp del: of_nat_Suc)

lemma spawn_many:
  assumes "mt_ok n st" "n + k < 2 ^ 32 - 1" "int (length (mt_local_monsters (fst st)) + k) \<le> MAX_MONSTERS"
    and "nonneg (mt_width (fst st))" "nonneg (mt_height (fst st))"
  shows "mt_ok (n + k) ((spawn_one ^^ k) st)
    \<and> mt_local_monsters (fst ((spawn_one ^^ k) st)) = mt_local_monsters (fst st) @ map of_nat [Suc n..<Suc (n + k)]
    \<and> (\<forall>e \<in> of_nat ` {Suc n..<Suc (n + k)}.
         placed (fst ((spawn_one ^^ k) st)) (env_world (snd ((spawn_one ^^ k) st))) e)
    \<and> mt_width (fst ((spawn_one ^^ k) st)) = mt_width (fst st)
    \<and> mt_height (fst ((spawn_one ^^ k) st)) = mt_height (fst st)"
  using assms
proof (induction k)
  case (Suc k)
  obtain mt env where st: "(spawn_one ^^ k) st = (mt, env)" by (rule prod.exhaust)
  have IH: "mt_ok (n + k) (mt, env)"
    "mt_local_monsters mt = mt_local_monsters (fst st) @ map of_nat [Suc n..<Suc (n + k)]"
    "\<forall>e \<in> of_nat ` {Suc n..<Suc (n + k)}. placed mt (env_world env) e"
    "mt_width mt = mt_width (fst st)" "mt_height mt = mt_height (fst st)"
    using Suc st by simp_all
  have n: "Suc (n + k) < 2 ^ 32 - 1" using Suc.prems(2) by simp
  have "{Suc n..<Suc (n + Suc k)} = insert (Suc (n + k)) {Suc n..<Suc (n + k)}" by auto
  then show ?case
    using spawn_one_ok [OF IH(1) n] spawn_one_monsters [OF IH(1) n] spawn_one_placed [OF IH(1)] IH Suc.prems
    by (simp add: st del: of_nat_Suc)
qed simp

lemma spawn_monsters_correct_aux:
  assumes "mt_ok n (mt, env)" "n + 3 < 2 ^ 32 - 1" "nonneg (mt_width mt)" "nonneg (mt_height mt)"
    and "spawn_monsters dt (mt, env) = (mt', env')"
  shows "\<exists>k. mt_ok (n + k) (mt', env')
    \<and> k = (if f_lt (f_add (mt_spawn_timer mt) dt) SPAWN_INTERVAL then 0 else min 3 (10 - length (mt_local_monsters mt)))
    \<and> length (mt_local_monsters mt') \<le> 10
    \<and> mt_local_monsters mt' = mt_local_monsters mt @ map of_nat [Suc n..<Suc (n + k)]
    \<and> (\<forall>e \<in> of_nat ` {Suc n..<Suc (n + k)}. placed mt' (env_world env') e)"
proof (cases "f_lt (f_add (mt_spawn_timer mt) dt) SPAWN_INTERVAL")
  case True
  then show ?thesis
    using assms by (intro exI [of _ 0]) (auto simp: spawn_monsters_def Let_def mt_ok_def MAX_MONSTERS_def)
next
  case False
  define k where "k = min 3 (10 - length (mt_local_monsters mt))"
  define mt\<^sub>0 where "mt\<^sub>0 = mt\<lparr>mt_spawn_timer := 0\<rparr>"
  have ok: "mt_ok n (mt\<^sub>0, env)" and le: "length (mt_local_monsters mt) \<le> 10"
    using assms(1) by (auto simp: mt_ok_def mt\<^sub>0_def MAX_MONSTERS_def)
  have n: "n + k < 2 ^ 32 - 1" using assms(2) by (simp add: k_def)
  have room: "int (length (mt_local_monsters (fst (mt\<^sub>0, env))) + k) \<le> MAX_MONSTERS"
    using le by (simp add: mt\<^sub>0_def MAX_MONSTERS_def k_def)
  have "nat (min 3 (MAX_MONSTERS - int (length (mt_local_monsters mt)))) = k"
    using le unfolding k_def MAX_MONSTERS_def by linarith
  then have "spawn_monsters dt (mt, env) = (spawn_one ^^ k) (mt\<^sub>0, env)"
    using False by (auto simp: spawn_monsters_def Let_def mt\<^sub>0_def MAX_MONSTERS_def k_def)
  then have res: "(spawn_one ^^ k) (mt\<^sub>0, env) = (mt', env')" using assms(5) by simp
  have "mt_ok (n + k) (mt', env')
    \<and> mt_local_monsters mt' = mt_local_monsters mt @ map of_nat [Suc n..<Suc (n + k)]
    \<and> (\<forall>e \<in> of_nat ` {Suc n..<Suc (n + k)}. placed mt' (env_world env') e)"
    using spawn_many [OF ok n room] assms(3,4) unfolding res by (simp add: mt\<^sub>0_def del: upt_Suc)
  moreover from this have "length (mt_local_monsters mt') \<le> 10" by (auto simp: mt_ok_def MAX_MONSTERS_def)
  ultimately show ?thesis using False by (intro exI [of _ k]) (simp add: k_def)
qed


lemma nonneg_1000: "nonneg 0x447A0000"
  by (simp add: nonneg_def f_eval)

lemma MapThread_ok:
  assumes "em_inv n (w_entities (env_world env))" "Suc n < 2 ^ 32 - 1"
  shows "mt_ok (Suc n) (MapThread mid name w h maxp env)"
  using assms create_entity_inv [OF assms]
  by (auto simp: MapThread_def mt_ok_def case_prod_unfold Let_def MAX_MONSTERS_def)

lemma add_player_ok: "mt_ok n st \<Longrightarrow> mt_ok n (add_player ch e st)"
  by (auto simp: mt_ok_def add_player_def Let_def has_monster_parts_def split: prod.splits)

lemma demo_env_inv: "em_inv 0 (w_entities (env_world demo_env))"
  by (simp add: demo_env_def new_world_def em_inv_init)

lemma demo_thread_ok: "mt_ok 1 demo_thread"
  unfolding demo_thread_def using MapThread_ok [OF demo_env_inv] by (intro add_player_ok) simp

lemma demo_thread_sizes:
  "mt_width (fst demo_thread) = 0x447A0000" "mt_height (fst demo_thread) = 0x447A0000"
  by (simp_all add: demo_thread_def add_player_def MapThread_def case_prod_unfold Let_def)


section \<open>Moving the monsters\<close>

lemma update_object_position_eq:
  assumes "w_get_component map_bounds_component_slot wd (mt_map_entity mt) = Some b"
  shows "w_get_component position_slot (update_object_position mt dt e wd) k =
    (case (w_get_component position_slot wd k, w_get_component velocity_slot wd k) of
       (Some p, Some v) \<Rightarrow> if k = e then Some (clamp_to_bounds b (advance dt v p)) else Some p
     | (p, _) \<Rightarrow> p)"
  using assms
  by (auto simp: update_object_position_def Let_def mt_is_object_in_bounds_def
      mt_clamp_object_to_bounds_def clamp_to_bounds_id split: option.splits)

lemma update_object_position_other:
  assumes "slots_apart sl position_slot"
  shows "w_get_component sl (update_object_position mt dt e wd) k = w_get_component sl wd k"
    and "w_entities (update_object_position mt dt e wd) = w_entities wd"
  using assms
  by (auto simp: update_object_position_def Let_def mt_clamp_object_to_bounds_def split: option.splits)

lemma update_objects_fold:
  assumes "w_get_component map_bounds_component_slot wd (mt_map_entity mt) = Some b" "distinct es"
  shows "w_get_component position_slot (fold (update_object_position mt dt) es wd) k =
    (case (w_get_component position_slot wd k, w_get_component velocity_slot wd k) of
       (Some p, Some v) \<Rightarrow> if k \<in> set es then Some (clamp_to_bounds b (advance dt v p)) else Some p
     | (p, _) \<Rightarrow> p)"
  using assms
proof (induction es arbitrary: wd)
  case (Cons e es)
  have "w_get_component map_bounds_component_slot (update_object_position mt dt e wd) (mt_map_entity mt) = Some b"
    using Cons.prems(1) by (simp add: update_object_position_other)
  from Cons.IH [OF this] Cons.prems show ?case
    by (auto simp: update_object_position_other update_object_position_eq split: option.splits)
qed (auto split: option.splits)

lemma update_objects_other:
  assumes "slots_apart sl position_slot"
  shows "w_get_component sl (fold (update_object_position mt dt) es wd) k = w_get_component sl wd k
    \<and> w_entities (fold (update_object_position mt dt) es wd) = w_entities wd"
  using assms
  by (induction es arbitrary: wd) (simp_all add: update_object_position_other)

lemma update_monsters_fold:
  "update_monsters dt (mt, env) =
     (mt, env\<lparr>env_world := fold (update_object_position mt dt) (mt_local_monsters mt) (env_world env)\<rparr>)"
  "update_npcs dt (mt, env) =
     (mt, env\<lparr>env_world := fold (update_object_position mt dt) (mt_local_npcs mt) (env_world env)\<rparr>)"
  by (simp_all add: update_monsters_def update_npcs_def check_object_collisions_def update_object_ai_def
      handle_object_interactions_def)

text \<open>
  C32: In one update every monster of the map moves exactly once, by velocity times time, and is then
  inside the bounds of the map when its new coordinates are numbers; nothing else moves.
\<close>

theorem update_monsters_correct:
  assumes "mt_ok n (mt, env)" "nonneg (mt_width mt)" "nonneg (mt_height mt)"
    and "w_get_component position_slot (env_world env) e = Some p"
    and "w_get_component velocity_slot (env_world env) e = Some v"
  shows "\<exists>q. w_get_component position_slot (env_world (snd (update_monsters dt (mt, env)))) e = Some q
    \<and> (e \<notin> set (mt_local_monsters mt) \<longrightarrow> q = p)
    \<and> (e \<in> set (mt_local_monsters mt) \<and> has_numbers (advance dt v p) \<longrightarrow>
         mt_is_object_in_bounds mt e (env_world (snd (update_monsters dt (mt, env))))
         \<and> (is_inside (MapBoundsComponent 0 0 0 (mt_width mt) (mt_height mt) 0x447A0000)
               (pos_x (advance dt v p)) (pos_y (advance dt v p)) (pos_z (advance dt v p))
             \<longrightarrow> q = advance dt v p))"
proof -
  let ?b = "MapBoundsComponent 0 0 0 (mt_width mt) (mt_height mt) 0x447A0000"
  have b: "w_get_component map_bounds_component_slot (env_world env) (mt_map_entity mt) = Some ?b"
    and d: "distinct (mt_local_monsters mt)" using assms(1) by (simp_all add: mt_ok_def)
  have nn: "f_le 0 x" if "nonneg x" for x
    using that nonneg_int [OF that] by (auto simp: f_le_def nonneg_def f_isnan_def f_eval)
  then have "bounds_ok ?b"
    using assms(2,3) nonneg_1000 by (simp add: bounds_ok_def MapBoundsComponent_def)
  then show ?thesis
    using update_objects_fold [OF b d, of dt e] assms(4,5) b
    by (auto simp: update_monsters_fold mt_is_object_in_bounds_def update_objects_other
        clamp_to_bounds_inside clamp_to_bounds_id)
qed

definition demo_spawned :: "int mt_state" where
  "demo_spawned = spawn_one demo_thread"

theorem update_monsters_correct_witness:
  "\<exists>mt env n e p v q. demo_spawned = (mt, env) \<and> mt_ok n (mt, env) \<and> e \<in> set (mt_local_monsters mt)
    \<and> w_get_component position_slot (env_world env) e = Some p
    \<and> w_get_component velocity_slot (env_world env) e = Some v
    \<and> w_get_component position_slot (env_world (snd (update_monsters 0x3F800000 (mt, env)))) e = Some q
    \<and> (has_numbers (advance 0x3F800000 v p) \<longrightarrow>
        mt_is_object_in_bounds mt e (env_world (snd (update_monsters 0x3F800000 (mt, env)))))"
proof -
  obtain mt env where d: "demo_spawned = (mt, env)" by (rule prod.exhaust)
  obtain mt\<^sub>0 env\<^sub>0 where d0: "demo_thread = (mt\<^sub>0, env\<^sub>0)" by (rule prod.exhaust)
  have none: "mt_local_monsters mt\<^sub>0 = []"
    using d0 by (auto simp: demo_thread_def add_player_def MapThread_def case_prod_unfold Let_def)
  have ok0: "mt_ok 1 (mt\<^sub>0, env\<^sub>0)" using demo_thread_ok d0 by simp
  have n: "Suc 1 < 2 ^ 32 - 1" by simp
  have ok: "mt_ok (Suc 1) (mt, env)" and e: "2 \<in> set (mt_local_monsters mt)"
    using spawn_one_ok [OF ok0 n] spawn_one_monsters [OF ok0 n] d none
    by (simp_all add: demo_spawned_def d0 MAX_MONSTERS_def)
  have sz: "nonneg (mt_width mt)" "nonneg (mt_height mt)"
    using demo_thread_sizes nonneg_1000 d by (metis spawn_one_sizes fst_conv demo_spawned_def)+
  have "has_monster_parts (env_world env) 2" using ok e by (simp add: mt_ok_def)
  then obtain p v where "w_get_component position_slot (env_world env) 2 = Some p"
    "w_get_component velocity_slot (env_world env) 2 = Some v" by (auto simp: has_monster_parts_def)
  with update_monsters_correct [OF ok sz this] ok e d show ?thesis by blast
qed

section \<open>Every operation keeps the invariant\<close>

lemma update_object_position_has [simp]:
  "w_get_component position_slot (update_object_position mt dt e wd) k = None
     \<longleftrightarrow> w_get_component position_slot wd k = None"
  by (auto simp: update_object_position_def Let_def mt_clamp_object_to_bounds_def split: option.splits)

lemma update_objects_has [simp]:
  "w_get_component position_slot (fold (update_object_position mt dt) es wd) k = None
     \<longleftrightarrow> w_get_component position_slot wd k = None"
  by (induction es arbitrary: wd) simp_all

lemma objects_update_ok:
  assumes "mt_ok n (mt, env)"
  shows "mt_ok n (mt, env\<lparr>env_world := fold (update_object_position mt dt) es (env_world env)\<rparr>)"
  using assms update_objects_other [of position_slot mt dt es "env_world env"]
    update_objects_other [of velocity_slot mt dt es "env_world env"]
  by (simp add: mt_ok_def has_monster_parts_def update_objects_other del: not_None_eq)

lemma remove_player_ok: "mt_ok n st \<Longrightarrow> mt_ok n (remove_player ch st)"
  by (auto simp: mt_ok_def remove_player_def Let_def split: prod.splits)

lemma queues_ok:
  "mt_ok n (mt, env) \<Longrightarrow> mt_ok n (add_packet ch cmd data mt, env)"
  "mt_ok n (mt, env) \<Longrightarrow> mt_ok n (mt_add_task t p mt, env)"
  "mt_ok n (mt, env) \<Longrightarrow> mt_ok n (mt_start mt, env)"
  "mt_ok n (mt, env) \<Longrightarrow> mt_ok n (mt_stop mt, env)"
  "mt_ok n (mt, env) \<Longrightarrow> mt_ok n (fst (process_packets mt), env)"
  by (simp_all add: mt_ok_def add_packet_def mt_add_task_def mt_start_def mt_stop_def process_packets_eq)

lemma update_map_eq:
  "update_map dt st = spawn_monsters dt (update_npcs dt (update_monsters dt st))"
  by (simp add: update_map_def Let_def update_players_def update_items_def handle_spawn_events_def
      spawn_items_def handle_combat_events_def handle_interaction_events_def fold_skip case_prod_unfold)

lemma update_map_ok:
  assumes "mt_ok n (mt, env)" "n + 3 < 2 ^ 32 - 1" "nonneg (mt_width mt)" "nonneg (mt_height mt)"
  shows "\<exists>k. k \<le> 3 \<and> mt_ok (n + k) (update_map dt (mt, env))"
proof -
  obtain env' where e: "update_npcs dt (update_monsters dt (mt, env)) = (mt, env')" "mt_ok n (mt, env')"
    using objects_update_ok [OF objects_update_ok [OF assms(1)]] by (simp add: update_monsters_fold)
  obtain mt' env'' where s: "spawn_monsters dt (mt, env') = (mt', env'')" by (rule prod.exhaust)
  obtain k where "mt_ok (n + k) (mt', env'')" "k = (if f_lt (f_add (mt_spawn_timer mt) dt) SPAWN_INTERVAL
      then 0 else min 3 (10 - length (mt_local_monsters mt)))"
    using spawn_monsters_correct_aux [OF e(2) assms(2-4) s] by blast
  then show ?thesis by (intro exI [of _ k]) (simp add: update_map_eq e(1) s)
qed

text \<open>
  The invariant of a map thread holds when it is constructed and every operation keeps it:
  the counters are the sizes of the sets, at most ten monsters are alive, all of them are in the
  object set of the map and have the components of a monster, and the bounds of the map are in place.
  One update creates at most three entities.
\<close>

lemma map_thread_invariant:
  assumes "mt_ok n (mt, env)" "n + 3 < 2 ^ 32 - 1" "nonneg (mt_width mt)" "nonneg (mt_height mt)"
  shows "mt_ok (Suc n) (MapThread mid name w h maxp env)
    \<and> mt_ok n (add_player ch e (mt, env)) \<and> mt_ok n (remove_player ch (mt, env))
    \<and> mt_ok n (add_packet ch cmd data mt, env) \<and> mt_ok n (mt_add_task t p mt, env)
    \<and> mt_ok n (fst (process_packets mt), env)
    \<and> (\<exists>k \<le> 3. mt_ok (n + k) (update_map dt (mt, env)))"
proof -
  have "em_inv n (w_entities (env_world env))" "Suc n < 2 ^ 32 - 1" using assms(1,2) by (simp_all add: mt_ok_def)
  then show ?thesis
    using assms(1) update_map_ok [OF assms] by (simp add: MapThread_ok add_player_ok remove_player_ok queues_ok)
qed

lemma map_thread_invariant_witness:
  "\<exists>mt env. demo_thread = (mt, env) \<and> mt_ok 2 (MapThread 3 [] 0 0 100 env :: int mt_state)
    \<and> mt_ok 1 (add_player 8 4 (mt, env)) \<and> mt_ok 1 (remove_player 7 (mt, env))
    \<and> (\<exists>k \<le> 3. mt_ok (1 + k) (update_map 0x42000000 (mt, env)))"
proof -
  obtain mt env where d: "demo_thread = (mt, env)" by (rule prod.exhaust)
  have "mt_ok 1 (mt, env)" "1 + 3 < (2 :: nat) ^ 32 - 1" "nonneg (mt_width mt)" "nonneg (mt_height mt)"
    using demo_thread_ok demo_thread_sizes nonneg_1000 by (simp_all add: d)
  note inv = map_thread_invariant [OF this, unfolded Suc_1]
  have "mt_ok 2 (MapThread 3 [] 0 0 100 env :: int mt_state)" by (rule inv [THEN conjunct1])
  moreover have "mt_ok 1 (add_player 8 4 (mt, env))" by (rule inv [THEN conjunct2, THEN conjunct1])
  moreover have "mt_ok 1 (remove_player 7 (mt, env))"
    by (rule inv [THEN conjunct2, THEN conjunct2, THEN conjunct1])
  moreover have "\<exists>k \<le> 3. mt_ok (1 + k) (update_map 0x42000000 (mt, env))"
    by (intro inv [THEN conjunct2, THEN conjunct2, THEN conjunct2, THEN conjunct2, THEN conjunct2, THEN conjunct2])
  ultimately show ?thesis using d by blast
qed

text \<open>
  A player who is removed from a map thread is not among its players any more, but their entity
  stays in the object set of the map, so that the map system still counts and clamps it.
\<close>

lemma removed_player_stays_in_map:
  assumes "mt_ok n (mt, env)"
  shows "ch \<notin> set (mt_local_players (fst (remove_player ch (add_player ch e (mt, env)))))
    \<and> e \<in> set (get_objects_in_map (mt_map_entity mt)
         (env_world (snd (remove_player ch (add_player ch e (mt, env))))))"
  using assms
  by (auto simp: mt_ok_def remove_player_def add_player_def Let_def get_objects_in_map_def mo_add_player_def)

lemma removed_player_stays_in_map_witness:
  "\<exists>mt env. demo_thread = (mt, env) \<and> 5 \<notin> set (mt_local_players (fst (remove_player 5 (add_player 5 6 (mt, env)))))
    \<and> 6 \<in> set (get_objects_in_map (mt_map_entity mt)
         (env_world (snd (remove_player 5 (add_player 5 6 (mt, env))))))"
proof -
  obtain mt env where d: "demo_thread = (mt, env)" by (rule prod.exhaust)
  then have "mt_ok 1 (mt, env)" using demo_thread_ok by simp
  from removed_player_stays_in_map [OF this, of 5 6] d show ?thesis by blast
qed

end
