(* ===== verification/Thread_Managers.thy ===== *)
theory Thread_Managers
  imports Map_Thread
begin

text \<open>
  The map thread manager and the main thread manager
  (\<open>server/game/threading/map_thread_manager.cpp\<close>, \<open>main_thread_manager.cpp\<close>). Every definition is
  one critical section of the source, so an interleaving of the threads is a sequence of these
  operations and of the critical sections of the map threads. A closure that a caller hands to
  \<open>add_task\<close> or \<open>add_network_task\<close> is a value of the type parameter \<open>'u\<close>; the closures that the
  managers build themselves are constructors of \<open>main_task\<close> and \<open>global_task\<close>.
\<close>

section \<open>Map thread manager\<close>

record 't map_thread_manager =
  map_threads :: "(int \<times> 't map_thread) list"
  player_map_mapping :: "(int \<times> int) list"

type_synonym 't mm_state = "'t map_thread_manager \<times> map_env"

definition MapThreadManager :: "'t map_thread_manager" where
  "MapThreadManager = \<lparr>map_threads = [], player_map_mapping = []\<rparr>"

text \<open>\<open>auto it = map_threads_.find(map_id); if (it != map_threads_.end()) it->second->f(...)\<close>\<close>

definition with_thread :: "int \<Rightarrow> ('t mt_state \<Rightarrow> 't mt_state) \<Rightarrow> 't mm_state \<Rightarrow> 't mm_state" where
  "with_thread mid f = (\<lambda>(mm, env).
    (case map_of (map_threads mm) mid of
       None \<Rightarrow> (mm, env)
     | Some mt \<Rightarrow>
         let (mt, env) = f (mt, env)
         in (mm\<lparr>map_threads := AList.update mid mt (map_threads mm)\<rparr>, env)))"

definition create_map_thread ::
  "int \<Rightarrow> bytes \<Rightarrow> f32 \<Rightarrow> f32 \<Rightarrow> int \<Rightarrow> 't mm_state \<Rightarrow> 't mm_state" where
  "create_map_thread mid name w h maxp = (\<lambda>(mm, env).
    if mid \<in> set (map fst (map_threads mm)) then (mm, env)
    else let (mt, env) = MapThread mid name w h maxp env;
             mt = mt_start mt
         in (mm\<lparr>map_threads := AList.update mid mt (map_threads mm)\<rparr>, env))"

definition destroy_map_thread :: "int \<Rightarrow> 't mm_state \<Rightarrow> 't mm_state" where
  "destroy_map_thread mid = (\<lambda>(mm, env).
    if mid \<in> set (map fst (map_threads mm))
    then let (mm, env) = with_thread mid (\<lambda>(mt, env). (mt_stop mt, env)) (mm, env)
         in (mm\<lparr>map_threads := AList.delete mid (map_threads mm)\<rparr>, env)
    else (mm, env))"

definition send_packet_to_map :: "int \<Rightarrow> int \<Rightarrow> u16 \<Rightarrow> bytes \<Rightarrow> 't mm_state \<Rightarrow> 't mm_state" where
  "send_packet_to_map mid ch cmd data = with_thread mid (\<lambda>(mt, env). (add_packet ch cmd data mt, env))"

definition update_player_map :: "int \<Rightarrow> int \<Rightarrow> 't mm_state \<Rightarrow> 't mm_state" where
  "update_player_map ch mid = (\<lambda>(mm, env).
    (mm\<lparr>player_map_mapping := AList.update ch mid (player_map_mapping mm)\<rparr>, env))"

definition get_player_map :: "int \<Rightarrow> 't map_thread_manager \<Rightarrow> int" where
  "get_player_map ch mm = (case map_of (player_map_mapping mm) ch of None \<Rightarrow> - 1 | Some mid \<Rightarrow> mid)"

definition add_player_to_map :: "int \<Rightarrow> int \<Rightarrow> entity \<Rightarrow> 't mm_state \<Rightarrow> 't mm_state" where
  "add_player_to_map mid ch e = (\<lambda>(mm, env).
    if mid \<in> set (map fst (map_threads mm))
    then update_player_map ch mid (with_thread mid (add_player ch e) (mm, env))
    else (mm, env))"

definition remove_player_from_map :: "int \<Rightarrow> int \<Rightarrow> 't mm_state \<Rightarrow> 't mm_state" where
  "remove_player_from_map mid ch = (\<lambda>(mm, env).
    if mid \<in> set (map fst (map_threads mm))
    then let (mm, env) = with_thread mid (remove_player ch) (mm, env)
         in (mm\<lparr>player_map_mapping := AList.delete ch (player_map_mapping mm)\<rparr>, env)
    else (mm, env))"

definition move_player_to_map :: "int \<Rightarrow> int \<Rightarrow> int \<Rightarrow> 't mm_state \<Rightarrow> 't mm_state" where
  "move_player_to_map ch from_map to_map st =
    (let (mm, env) = with_thread from_map (remove_player ch) st
     in if to_map \<in> set (map fst (map_threads mm))
        then let (wd, e) = w_create_entity (env_world env)
             in update_player_map ch to_map
                  (with_thread to_map (add_player ch e) (mm, env\<lparr>env_world := wd\<rparr>))
        else (mm, env))"

definition is_map_thread_running :: "int \<Rightarrow> 't map_thread_manager \<Rightarrow> bool" where
  "is_map_thread_running mid mm =
    (case map_of (map_threads mm) mid of None \<Rightarrow> False | Some mt \<Rightarrow> mt_running mt)"

definition get_map_player_count :: "int \<Rightarrow> 't map_thread_manager \<Rightarrow> int" where
  "get_map_player_count mid mm =
    (case map_of (map_threads mm) mid of None \<Rightarrow> 0 | Some mt \<Rightarrow> mt_player_count mt)"

definition get_active_map_ids :: "'t map_thread_manager \<Rightarrow> int list" where
  "get_active_map_ids mm = map fst (filter (\<lambda>(mid, mt). mt_running mt) (map_threads mm))"

definition stop_all_map_threads :: "'t mm_state \<Rightarrow> 't mm_state" where
  "stop_all_map_threads = (\<lambda>(mm, env).
    let mm = mm\<lparr>map_threads := map (\<lambda>(mid, mt). (mid, mt_stop mt)) (map_threads mm)\<rparr>
    in (mm\<lparr>map_threads := []\<rparr>, env))"

definition update_all_map_threads :: "f32 \<Rightarrow> 't mm_state \<Rightarrow> 't mm_state" where
  "update_all_map_threads dt = (\<lambda>(mm, env).
    fold (\<lambda>mid. with_thread mid (\<lambda>(mt, env). if mt_running mt then update_map dt (mt, env) else (mt, env)))
      (map fst (map_threads mm)) (mm, env))"

section \<open>Main thread manager\<close>

datatype 'u main_task = MapTransfer int int int | CallerTask 'u

datatype global_task = GlobalChat int bytes | GuildMessage int bytes | FriendMessage int bytes

record ('t, 'u) main_manager =
  mn_task_queue :: "'u main_task task_queue"
  mn_network_tasks :: "'u list"
  mn_global_tasks :: "global_task list"
  mn_maps :: "'t map_thread_manager"
  mn_running :: bool
  mn_env :: map_env
  mn_map_system :: map_system
  mn_draws :: nat
  mn_systems :: system_manager

definition mn_start :: "('t, 'u) main_manager \<Rightarrow> ('t, 'u) main_manager" where
  "mn_start m = (if mn_running m then m else m\<lparr>mn_running := True\<rparr>)"

definition mn_on_maps :: "('t mm_state \<Rightarrow> 't mm_state) \<Rightarrow> ('t, 'u) main_manager \<Rightarrow> ('t, 'u) main_manager" where
  "mn_on_maps f m = (let (mm, env) = f (mn_maps m, mn_env m) in m\<lparr>mn_maps := mm, mn_env := env\<rparr>)"

definition mn_stop :: "('t, 'u) main_manager \<Rightarrow> ('t, 'u) main_manager" where
  "mn_stop m = (if \<not> mn_running m then m else mn_on_maps stop_all_map_threads (m\<lparr>mn_running := False\<rparr>))"

definition mn_add_task :: "'u main_task \<Rightarrow> int \<Rightarrow> ('t, 'u) main_manager \<Rightarrow> ('t, 'u) main_manager" where
  "mn_add_task t p m = m\<lparr>mn_task_queue := tq_emplace t p (mn_task_queue m)\<rparr>"

definition add_network_task :: "'u \<Rightarrow> ('t, 'u) main_manager \<Rightarrow> ('t, 'u) main_manager" where
  "add_network_task t m = m\<lparr>mn_network_tasks := mn_network_tasks m @ [t]\<rparr>"

definition add_global_task :: "global_task \<Rightarrow> ('t, 'u) main_manager \<Rightarrow> ('t, 'u) main_manager" where
  "add_global_task t m = m\<lparr>mn_global_tasks := mn_global_tasks m @ [t]\<rparr>"

definition mn_create_map_thread :: "int \<Rightarrow> bytes \<Rightarrow> ('t, 'u) main_manager \<Rightarrow> ('t, 'u) main_manager" where
  "mn_create_map_thread mid name = mn_on_maps (create_map_thread mid name 0x447A0000 0x447A0000 100)"

definition mn_destroy_map_thread :: "int \<Rightarrow> ('t, 'u) main_manager \<Rightarrow> ('t, 'u) main_manager" where
  "mn_destroy_map_thread mid = mn_on_maps (destroy_map_thread mid)"

definition mn_send_packet_to_map ::
  "int \<Rightarrow> int \<Rightarrow> u16 \<Rightarrow> bytes \<Rightarrow> ('t, 'u) main_manager \<Rightarrow> ('t, 'u) main_manager" where
  "mn_send_packet_to_map mid ch cmd data = mn_on_maps (send_packet_to_map mid ch cmd data)"

definition handle_global_chat :: "int \<Rightarrow> bytes \<Rightarrow> ('t, 'u) main_manager \<Rightarrow> ('t, 'u) main_manager" where
  "handle_global_chat ch msg = add_global_task (GlobalChat ch msg)"

definition handle_guild_system :: "int \<Rightarrow> bytes \<Rightarrow> ('t, 'u) main_manager \<Rightarrow> ('t, 'u) main_manager" where
  "handle_guild_system ch msg = add_global_task (GuildMessage ch msg)"

definition handle_friend_system :: "int \<Rightarrow> bytes \<Rightarrow> ('t, 'u) main_manager \<Rightarrow> ('t, 'u) main_manager" where
  "handle_friend_system ch msg = add_global_task (FriendMessage ch msg)"

definition handle_map_transfer :: "int \<Rightarrow> int \<Rightarrow> int \<Rightarrow> ('t, 'u) main_manager \<Rightarrow> ('t, 'u) main_manager" where
  "handle_map_transfer ch from_map to_map = mn_add_task (MapTransfer ch from_map to_map) 1"

text \<open>The bodies of the closures; the guild and friend closures only log.\<close>

fun run_global_task :: "global_task \<Rightarrow> 't mm_state \<Rightarrow> 't mm_state" where
  "run_global_task (GlobalChat ch msg) st =
     fold (\<lambda>mid. send_packet_to_map mid ch 0x1004 msg) (get_active_map_ids (fst st)) st"
| "run_global_task (GuildMessage ch msg) st = st"
| "run_global_task (FriendMessage ch msg) st = st"

fun run_main_task ::
  "('u \<Rightarrow> ('t, 'u) main_manager \<Rightarrow> ('t, 'u) main_manager) \<Rightarrow> 'u main_task
     \<Rightarrow> ('t, 'u) main_manager \<Rightarrow> ('t, 'u) main_manager" where
  "run_main_task caller (MapTransfer ch from_map to_map) m = mn_on_maps (move_player_to_map ch from_map to_map) m"
| "run_main_task caller (CallerTask u) m = caller u m"

text \<open>
  \<open>process_network_events\<close> runs the tasks with \<open>network_mutex_\<close> held. A task that adds a network
  task locks the mutex a second time and blocks for ever: \<open>None\<close>.
\<close>

fun run_network_tasks ::
  "('u \<Rightarrow> ('t, 'u) main_manager \<Rightarrow> ('t, 'u) main_manager) \<Rightarrow> 'u list
     \<Rightarrow> ('t, 'u) main_manager \<Rightarrow> ('t, 'u) main_manager option" where
  "run_network_tasks caller [] m = Some m"
| "run_network_tasks caller (t # ts) m =
     (let m' = caller t (m\<lparr>mn_network_tasks := ts\<rparr>)
      in if mn_network_tasks m' \<noteq> ts then None else run_network_tasks caller ts m')"

definition process_network_events ::
  "('u \<Rightarrow> ('t, 'u) main_manager \<Rightarrow> ('t, 'u) main_manager)
     \<Rightarrow> ('t, 'u) main_manager \<Rightarrow> ('t, 'u) main_manager option" where
  "process_network_events caller m = run_network_tasks caller (mn_network_tasks m) m"

fun run_global_tasks :: "global_task list \<Rightarrow> ('t, 'u) main_manager \<Rightarrow> ('t, 'u) main_manager" where
  "run_global_tasks [] m = m"
| "run_global_tasks (t # ts) m =
     run_global_tasks ts (mn_on_maps (run_global_task t) (m\<lparr>mn_global_tasks := ts\<rparr>))"

definition process_global_systems :: "('t, 'u) main_manager \<Rightarrow> ('t, 'u) main_manager" where
  "process_global_systems m = run_global_tasks (mn_global_tasks m) m"

definition process_map_transfers :: "('t, 'u) main_manager \<Rightarrow> ('t, 'u) main_manager" where
  "process_map_transfers m = m"

definition update_ecs :: "(nat \<Rightarrow> f32) \<Rightarrow> f32 \<Rightarrow> ('t, 'u) main_manager \<Rightarrow> ('t, 'u) main_manager" where
  "update_ecs rnd dt m =
    (let g = update_all rnd dt (mn_systems m)
               \<lparr>gs_world = env_world (mn_env m), gs_map_system = mn_map_system m, gs_draws = mn_draws m\<rparr>
     in m\<lparr>mn_env := (mn_env m)\<lparr>env_world := gs_world g\<rparr>, mn_map_system := gs_map_system g,
          mn_draws := gs_draws g\<rparr>)"

partial_function (option) process_task_queue ::
  "('u main_task \<Rightarrow> ('t, 'u) main_manager \<Rightarrow> ('t, 'u) main_manager)
     \<Rightarrow> ('t, 'u) main_manager \<Rightarrow> ('t, 'u) main_manager option" where
  "process_task_queue run m =
    (if mn_task_queue m = [] then Some m
     else let task = tq_top (mn_task_queue m)
          in process_task_queue run (run (snd task) (m\<lparr>mn_task_queue := tq_pop (mn_task_queue m)\<rparr>)))"

text \<open>One iteration of \<open>main_loop\<close>.\<close>

definition main_iteration ::
  "('u \<Rightarrow> ('t, 'u) main_manager \<Rightarrow> ('t, 'u) main_manager) \<Rightarrow> (nat \<Rightarrow> f32) \<Rightarrow> f32
     \<Rightarrow> ('t, 'u) main_manager \<Rightarrow> ('t, 'u) main_manager option" where
  "main_iteration caller rnd dt m =
    (if \<not> mn_running m then Some m
     else case process_network_events caller m of
       None \<Rightarrow> None
     | Some m \<Rightarrow>
         let m = process_global_systems m;
             m = process_map_transfers m;
             m = update_ecs rnd dt m
         in case process_task_queue (run_main_task caller) m of
              None \<Rightarrow> None
            | Some m \<Rightarrow> Some (mn_on_maps (update_all_map_threads dt) m))"

definition get_map_thread_count :: "('t, 'u) main_manager \<Rightarrow> nat" where
  "get_map_thread_count m = length (get_active_map_ids (mn_maps m))"

section \<open>Looking up the threads of a map\<close>

lemma keys_update: "k \<in> set (map fst al) \<Longrightarrow> map fst (AList.update k v al) = map fst al"
  by (simp add: update_keys)

lemma map_of_Some_key: "map_of al k = Some v \<Longrightarrow> k \<in> set (map fst al)"
  by (force dest: map_of_SomeD)

lemma with_thread_lookup:
  "map_of (map_threads (fst (with_thread mid f (mm, env)))) k =
     (if k = mid then map_option (\<lambda>mt. fst (f (mt, env))) (map_of (map_threads mm) mid)
      else map_of (map_threads mm) k)"
  by (auto simp: with_thread_def case_prod_unfold Let_def update_conv' split: option.split)

lemma with_thread_keys [simp]:
  "map fst (map_threads (fst (with_thread mid f st))) = map fst (map_threads (fst st))"
  using keys_update [OF map_of_Some_key]
  by (auto simp: with_thread_def case_prod_unfold Let_def split: option.split)

lemma with_thread_set [simp]:
  "fst ` set (map_threads (fst (with_thread mid f st))) = fst ` set (map_threads (fst st))"
  by (metis list.set_map with_thread_keys)

lemma with_thread_mapping [simp]:
  "player_map_mapping (fst (with_thread mid f st)) = player_map_mapping (fst st)"
  by (simp add: with_thread_def case_prod_unfold Let_def split: option.split)

section \<open>What one thread may do to the others\<close>

text \<open>
  An operation of the thread with map entity \<open>me\<close> may create entities and components, but keeps the
  components of the monsters, and the object sets and bounds of the other maps.
\<close>

definition env_keeps :: "entity \<Rightarrow> map_env \<Rightarrow> map_env \<Rightarrow> bool" where
  "env_keeps me env env' \<longleftrightarrow>
     (\<forall>e. has_monster_parts (env_world env) e \<longrightarrow> has_monster_parts (env_world env') e)
     \<and> (\<forall>k. k \<noteq> me \<longrightarrow>
          w_get_component map_objects_component_slot (env_world env') k
            = w_get_component map_objects_component_slot (env_world env) k
        \<and> w_get_component map_bounds_component_slot (env_world env') k
            = w_get_component map_bounds_component_slot (env_world env) k)"

definition env_frame :: "entity \<Rightarrow> nat \<Rightarrow> map_env \<Rightarrow> nat \<Rightarrow> map_env \<Rightarrow> bool" where
  "env_frame me n env n' env' \<longleftrightarrow> n \<le> n' \<and> em_inv n' (w_entities (env_world env')) \<and> env_keeps me env env'"

lemma env_keeps_refl [simp]: "env_keeps me env env"
  by (simp add: env_keeps_def)

lemma env_keeps_trans: "env_keeps me env env' \<Longrightarrow> env_keeps me env' env'' \<Longrightarrow> env_keeps me env env''"
  by (simp add: env_keeps_def)

lemma env_frame_keeps:
  assumes "mt_ok n (mt, env)" "env_frame me n env n' env'" "mt_map_entity mt \<noteq> me"
  shows "mt_ok n' (mt, env')"
  using assms unfolding mt_ok_def env_frame_def env_keeps_def by (auto intro: le_trans)

definition same_map :: "'t map_thread \<Rightarrow> 't map_thread \<Rightarrow> bool" where
  "same_map mt mt' \<longleftrightarrow> mt_map_entity mt' = mt_map_entity mt \<and> mt_width mt' = mt_width mt
     \<and> mt_height mt' = mt_height mt"

definition mt_good :: "nat \<Rightarrow> 't mt_state \<Rightarrow> bool" where
  "mt_good n = (\<lambda>(mt, env). mt_ok n (mt, env) \<and> unat (mt_map_entity mt) \<le> n
     \<and> nonneg (mt_width mt) \<and> nonneg (mt_height mt))"

text \<open>The contract of an operation of a map thread.\<close>

definition thread_safe :: "('t mt_state \<Rightarrow> 't mt_state) \<Rightarrow> bool" where
  "thread_safe f \<longleftrightarrow> (\<forall>n mt env. mt_good n (mt, env) \<and> n + 3 < 2 ^ 32 - 1 \<longrightarrow>
     (\<exists>n'. n' \<le> n + 3 \<and> mt_good n' (f (mt, env)) \<and> same_map mt (fst (f (mt, env)))
        \<and> env_frame (mt_map_entity mt) n env n' (snd (f (mt, env)))
        \<and> set (mt_local_monsters (fst (f (mt, env)))) \<subseteq> set (mt_local_monsters mt) \<union> {e. n < unat e}))"

text \<open>
  The invariant of the manager: the invariant of every thread, threads with different map entities,
  and no monster in two maps.
\<close>

definition mm_ok :: "nat \<Rightarrow> 't mm_state \<Rightarrow> bool" where
  "mm_ok n = (\<lambda>(mm, env). em_inv n (w_entities (env_world env)) \<and> distinct (map fst (map_threads mm))
     \<and> (\<forall>k mt. map_of (map_threads mm) k = Some mt \<longrightarrow> mt_good n (mt, env))
     \<and> (\<forall>k mt k' mt'. map_of (map_threads mm) k = Some mt \<longrightarrow> map_of (map_threads mm) k' = Some mt' \<longrightarrow> k \<noteq> k' \<longrightarrow>
          mt_map_entity mt \<noteq> mt_map_entity mt' \<and> set (mt_local_monsters mt) \<inter> set (mt_local_monsters mt') = {}))"

lemma mm_okI:
  assumes "em_inv n (w_entities (env_world env))" "distinct (map fst (map_threads mm))"
    and "\<And>k mt. map_of (map_threads mm) k = Some mt \<Longrightarrow> mt_good n (mt, env)"
    and "\<And>k mt k' mt'. map_of (map_threads mm) k = Some mt \<Longrightarrow> map_of (map_threads mm) k' = Some mt' \<Longrightarrow> k \<noteq> k' \<Longrightarrow>
          mt_map_entity mt \<noteq> mt_map_entity mt' \<and> set (mt_local_monsters mt) \<inter> set (mt_local_monsters mt') = {}"
  shows "mm_ok n (mm, env)"
  using assms by (auto simp: mm_ok_def)

lemma mm_okD:
  assumes "mm_ok n (mm, env)"
  shows "em_inv n (w_entities (env_world env))" "distinct (map fst (map_threads mm))"
    and "map_of (map_threads mm) k = Some mt \<Longrightarrow> mt_good n (mt, env)"
    and "map_of (map_threads mm) k = Some mt \<Longrightarrow> map_of (map_threads mm) k' = Some mt' \<Longrightarrow> k \<noteq> k' \<Longrightarrow>
          mt_map_entity mt \<noteq> mt_map_entity mt' \<and> set (mt_local_monsters mt) \<inter> set (mt_local_monsters mt') = {}"
  using assms unfolding mm_ok_def by blast+

lemma mt_good_frame:
  assumes "mt_good n (mt, env)" "env_frame me n env n' env'" "mt_map_entity mt \<noteq> me"
  shows "mt_good n' (mt, env')"
proof -
  have "n \<le> n'" using assms(2) by (simp add: env_frame_def)
  then show ?thesis using assms env_frame_keeps [of n mt env me n' env'] by (auto simp: mt_good_def)
qed

lemma mt_good_monster: "mt_good n (mt, env) \<Longrightarrow> e \<in> set (mt_local_monsters mt) \<Longrightarrow> unat e \<le> n"
  by (auto simp: mt_good_def mt_ok_def)

lemma thread_safeD:
  assumes "thread_safe f" "mt_good n (mt, env)" "n + 3 < 2 ^ 32 - 1"
  obtains n' mt' env' where "f (mt, env) = (mt', env')" "n' \<le> n + 3" "mt_good n' (mt', env')"
    "same_map mt mt'" "env_frame (mt_map_entity mt) n env n' env'"
    "set (mt_local_monsters mt') \<subseteq> set (mt_local_monsters mt) \<union> {e. n < unat e}"
proof -
  obtain mt' env' where f: "f (mt, env) = (mt', env')" by (rule prod.exhaust)
  have "\<exists>n'. n' \<le> n + 3 \<and> mt_good n' (f (mt, env)) \<and> same_map mt (fst (f (mt, env)))
        \<and> env_frame (mt_map_entity mt) n env n' (snd (f (mt, env)))
        \<and> set (mt_local_monsters (fst (f (mt, env)))) \<subseteq> set (mt_local_monsters mt) \<union> {e. n < unat e}"
    using assms unfolding thread_safe_def by blast
  then show ?thesis unfolding f fst_conv snd_conv using that [OF f] by blast
qed

locale thread_operation =
  fixes f :: "'t mt_state \<Rightarrow> 't mt_state"
  assumes safe: "thread_safe f"
begin

lemma with_thread_ok:
  assumes ok: "mm_ok n (mm, env)" and n: "n + 3 < 2 ^ 32 - 1"
  shows "\<exists>n'. n' \<le> n + 3 \<and> mm_ok n' (with_thread mid f (mm, env))"
proof (cases "map_of (map_threads mm) mid")
  case None
  then show ?thesis using ok by (intro exI [of _ n]) (simp add: with_thread_def)
next
  case (Some mt)
  note good = mm_okD(3) [OF ok Some]
  obtain n' mt' env' where r: "f (mt, env) = (mt', env')" "n' \<le> n + 3" "mt_good n' (mt', env')"
      "same_map mt mt'" "env_frame (mt_map_entity mt) n env n' env'"
      "set (mt_local_monsters mt') \<subseteq> set (mt_local_monsters mt) \<union> {e. n < unat e}"
    by (rule thread_safeD [OF safe good n])
  define mm' where "mm' = fst (with_thread mid f (mm, env))"
  have res: "with_thread mid f (mm, env) = (mm', env')"
    using Some r(1) by (simp add: mm'_def with_thread_def Let_def)
  have look: "map_of (map_threads mm') k = (if k = mid then Some mt' else map_of (map_threads mm) k)" for k
    using Some r(1) by (simp add: mm'_def with_thread_lookup)
  have other: "mt_good n' (mtk, env')" "mt_map_entity mtk \<noteq> mt_map_entity mt'"
      "set (mt_local_monsters mtk) \<inter> set (mt_local_monsters mt') = {}"
    if "map_of (map_threads mm) k = Some mtk" "k \<noteq> mid" for k mtk
  proof -
    note apart = mm_okD(4) [OF ok that(1) Some that(2)]
    note goodk = mm_okD(3) [OF ok that(1)]
    show "mt_good n' (mtk, env')" using mt_good_frame [OF goodk r(5)] apart by blast
    show "mt_map_entity mtk \<noteq> mt_map_entity mt'" using apart r(4) by (simp add: same_map_def)
    show "set (mt_local_monsters mtk) \<inter> set (mt_local_monsters mt') = {}"
    proof (rule equals0I, elim IntE)
      fix e assume e: "e \<in> set (mt_local_monsters mtk)" "e \<in> set (mt_local_monsters mt')"
      then have "e \<in> set (mt_local_monsters mt) \<or> n < unat e" using r(6) by blast
      with mt_good_monster [OF goodk e(1)] have "e \<in> set (mt_local_monsters mt)" by simp
      then show False using apart e(1) by blast
    qed
  qed
  have "mm_ok n' (mm', env')"
  proof (rule mm_okI)
    show "em_inv n' (w_entities (env_world env'))" using r(5) by (simp add: env_frame_def)
    show "distinct (map fst (map_threads mm'))" using mm_okD(2) [OF ok] by (simp add: mm'_def)
    show "mt_good n' (mtk, env')" if "map_of (map_threads mm') k = Some mtk" for k mtk
      using that r(3) other(1) by (auto simp: look split: if_splits)
    show "mt_map_entity a \<noteq> mt_map_entity b \<and> set (mt_local_monsters a) \<inter> set (mt_local_monsters b) = {}"
      if ab: "map_of (map_threads mm') k = Some a" "map_of (map_threads mm') k' = Some b" and ne: "k \<noteq> k'" for k a k' b
    proof -
      consider "k = mid" "k' \<noteq> mid" | "k' = mid" "k \<noteq> mid" | "k \<noteq> mid" "k' \<noteq> mid" using ne by blast
      then show ?thesis
      proof cases
        case 1
        then show ?thesis using other(2,3) [of k' b] ab by (simp add: look) blast
      next
        case 2
        then show ?thesis using other(2,3) [of k a] ab by (simp add: look)
      next
        case 3
        then show ?thesis using mm_okD(4) [OF ok _ _ ne] ab by (simp add: look)
      qed
    qed
  qed
  then show ?thesis using r(2) unfolding res by blast
qed

end

section \<open>The operations of a map thread keep the contract\<close>

lemma mt_ok_entities: "mt_ok n (mt, env) \<Longrightarrow> em_inv n (w_entities (env_world env))"
  by (simp add: mt_ok_def)

lemma thread_safeI:
  fixes f :: "'t mt_state \<Rightarrow> 't mt_state"
  assumes "\<And>n mt env mt' env'. mt_good n (mt, env) \<Longrightarrow> n + 3 < 2 ^ 32 - 1 \<Longrightarrow> f (mt, env) = (mt', env') \<Longrightarrow>
     \<exists>k. k \<le> 3 \<and> mt_ok (n + k) (mt', env') \<and> same_map mt mt' \<and> env_keeps (mt_map_entity mt) env env'
       \<and> set (mt_local_monsters mt') \<subseteq> set (mt_local_monsters mt) \<union> {e. n < unat e}"
  shows "thread_safe f"
  unfolding thread_safe_def
proof (intro allI impI, elim conjE)
  fix n env and mt :: "'t map_thread" assume good: "mt_good n (mt, env)" and n: "n + 3 < 2 ^ 32 - 1"
  obtain mt' env' where f: "f (mt, env) = (mt', env')" by (rule prod.exhaust)
  obtain k where k: "k \<le> 3" "mt_ok (n + k) (mt', env')" "same_map mt mt'" "env_keeps (mt_map_entity mt) env env'"
      "set (mt_local_monsters mt') \<subseteq> set (mt_local_monsters mt) \<union> {e. n < unat e}"
    using assms [OF good n f] by blast
  have "mt_good (n + k) (mt', env')" using good k(2,3) by (simp add: mt_good_def same_map_def)
  then show "\<exists>n'. n' \<le> n + 3 \<and> mt_good n' (f (mt, env)) \<and> same_map mt (fst (f (mt, env)))
      \<and> env_frame (mt_map_entity mt) n env n' (snd (f (mt, env)))
      \<and> set (mt_local_monsters (fst (f (mt, env)))) \<subseteq> set (mt_local_monsters mt) \<union> {e. n < unat e}"
    using k mt_ok_entities [OF k(2)] by (intro exI [of _ "n + k"]) (simp add: f env_frame_def)
qed

lemma mt_good_ok: "mt_good n (mt, env) \<Longrightarrow> mt_ok n (mt, env)"
  by (simp add: mt_good_def)

lemma add_player_safe: "thread_safe (add_player ch e)"
proof (rule thread_safeI)
  fix n mt env mt' env'
  assume "mt_good n (mt, env)" and f: "add_player ch e (mt, env) = (mt', env')"
  then have "mt_ok n (mt', env')" using add_player_ok [OF mt_good_ok] by metis
  then show "\<exists>k. k \<le> 3 \<and> mt_ok (n + k) (mt', env') \<and> same_map mt mt' \<and> env_keeps (mt_map_entity mt) env env'
       \<and> set (mt_local_monsters mt') \<subseteq> set (mt_local_monsters mt) \<union> {e. n < unat e}"
    using f by (intro exI [of _ 0])
      (auto simp: add_player_def Let_def same_map_def env_keeps_def has_monster_parts_def)
qed

lemma local_safe:
  assumes "\<And>n mt env. mt_ok n (mt, env) \<Longrightarrow> mt_ok n (g mt, env)"
    and "\<And>mt. same_map mt (g mt)" "\<And>mt. mt_local_monsters (g mt) = mt_local_monsters mt"
  shows "thread_safe (\<lambda>(mt, env). (g mt, env))"
  by (rule thread_safeI, rule exI [of _ 0]) (auto simp: assms mt_good_ok)

lemma remove_player_safe: "thread_safe (remove_player ch)"
proof -
  have "remove_player ch = (\<lambda>(mt, env). (fst (remove_player ch (mt, env)), env))"
    by (auto simp: remove_player_def Let_def)
  moreover have "thread_safe (\<lambda>(mt, env). (fst (remove_player ch (mt, undefined)), env))"
    using remove_player_ok
    by (intro local_safe) (auto simp: remove_player_def Let_def same_map_def mt_ok_def)
  ultimately show ?thesis by (simp add: remove_player_def Let_def)
qed

lemma add_packet_safe: "thread_safe (\<lambda>(mt, env). (add_packet ch cmd data mt, env))"
  by (rule local_safe) (simp_all add: mt_ok_def add_packet_def same_map_def)

lemma process_packets_safe: "thread_safe (\<lambda>(mt, env). (fst (process_packets mt), env))"
  by (rule local_safe) (simp_all add: mt_ok_def process_packets_eq same_map_def)

lemma spawn_one_keeps: "env_keeps (mt_map_entity (fst st)) (snd st) (snd (spawn_one st))
    \<and> mt_map_entity (fst (spawn_one st)) = mt_map_entity (fst st)"
  by (auto simp: spawn_one_def case_prod_unfold Let_def env_keeps_def has_monster_parts_def)

lemma spawn_many_keeps: "env_keeps (mt_map_entity (fst st)) (snd st) (snd ((spawn_one ^^ k) st))
    \<and> mt_map_entity (fst ((spawn_one ^^ k) st)) = mt_map_entity (fst st)
    \<and> mt_width (fst ((spawn_one ^^ k) st)) = mt_width (fst st)
    \<and> mt_height (fst ((spawn_one ^^ k) st)) = mt_height (fst st)"
proof (induction k)
  case (Suc k)
  then show ?case
    using spawn_one_keeps [of "(spawn_one ^^ k) st"] env_keeps_trans [of "mt_map_entity (fst st)" "snd st"]
    by auto
qed simp

lemma spawn_monsters_iter:
  "\<exists>k t. spawn_monsters dt (mt, env) = (spawn_one ^^ k) (mt\<lparr>mt_spawn_timer := t\<rparr>, env)"
proof -
  have "spawn_monsters dt (mt, env) = (spawn_one ^^ 0) (mt\<lparr>mt_spawn_timer := t\<rparr>, env)
      \<or> (\<exists>k. spawn_monsters dt (mt, env) = (spawn_one ^^ k) (mt\<lparr>mt_spawn_timer := 0\<rparr>, env))"
    if "t = f_add (mt_spawn_timer mt) dt" for t
    unfolding spawn_monsters_def by (auto simp: Let_def that intro: exI [of _ 0])
  then show ?thesis by blast
qed

lemma objects_update_keeps:
  "env_keeps me env (env\<lparr>env_world := fold (update_object_position mt dt) es (env_world env)\<rparr>)"
  by (simp add: env_keeps_def has_monster_parts_def update_objects_other del: not_None_eq)

lemma new_ids: "n + k < 2 ^ 32 - 1 \<Longrightarrow> e \<in> set (map (of_nat :: nat \<Rightarrow> entity) [Suc n..<Suc (n + k)]) \<Longrightarrow> n < unat e"
  by (auto simp: unat_of_nat_u32 simp del: upt_Suc of_nat_Suc)

lemma update_map_safe: "thread_safe (update_map dt)"
proof (rule thread_safeI)
  fix n mt env mt' env'
  assume good: "mt_good n (mt, env)" and n: "n + 3 < 2 ^ 32 - 1" and f: "update_map dt (mt, env) = (mt', env')"
  have "\<exists>env2. update_npcs dt (update_monsters dt (mt, env)) = (mt, env2) \<and> mt_ok n (mt, env2)
      \<and> env_keeps (mt_map_entity mt) env env2"
    using objects_update_ok [OF objects_update_ok [OF mt_good_ok [OF good]]] objects_update_keeps env_keeps_trans
    by (fastforce simp: update_monsters_fold)
  then obtain env2 where e: "update_npcs dt (update_monsters dt (mt, env)) = (mt, env2)" "mt_ok n (mt, env2)"
      "env_keeps (mt_map_entity mt) env env2"
    by blast
  have s: "spawn_monsters dt (mt, env2) = (mt', env')" using f by (simp add: update_map_eq e(1))
  have sz: "nonneg (mt_width mt)" "nonneg (mt_height mt)" using good by (simp_all add: mt_good_def)
  obtain k where k: "mt_ok (n + k) (mt', env')" "k = (if f_lt (f_add (mt_spawn_timer mt) dt) SPAWN_INTERVAL
      then 0 else min 3 (10 - length (mt_local_monsters mt)))"
      "mt_local_monsters mt' = mt_local_monsters mt @ map of_nat [Suc n..<Suc (n + k)]"
    using spawn_monsters_correct_aux [OF e(2) n sz s] by blast
  have k3: "k \<le> 3" using k(2) by simp
  then have "set (mt_local_monsters mt') \<subseteq> set (mt_local_monsters mt) \<union> {e. n < unat e}"
    using new_ids [of n k] n unfolding k(3) by auto
  moreover obtain j t where "(spawn_one ^^ j) (mt\<lparr>mt_spawn_timer := t\<rparr>, env2) = (mt', env')"
    using spawn_monsters_iter [of dt mt env2] s by auto
  then have "env_keeps (mt_map_entity mt) env2 env'" "same_map mt mt'"
    using spawn_many_keeps [of "(mt\<lparr>mt_spawn_timer := t\<rparr>, env2)" j] by (simp_all add: same_map_def)
  ultimately show "\<exists>k. k \<le> 3 \<and> mt_ok (n + k) (mt', env') \<and> same_map mt mt' \<and> env_keeps (mt_map_entity mt) env env'
       \<and> set (mt_local_monsters mt') \<subseteq> set (mt_local_monsters mt) \<union> {e. n < unat e}"
    using k(1) k3 env_keeps_trans [OF e(3)] by blast
qed

lemma if_safe:
  assumes "thread_safe f" "thread_safe g"
  shows "thread_safe (\<lambda>st. if P (fst st) then f st else g st)"
  unfolding thread_safe_def
proof (intro allI impI)
  fix n mt env
  show "\<exists>n'. n' \<le> n + 3 \<and> mt_good n' (if P (fst (mt, env)) then f (mt, env) else g (mt, env))
      \<and> same_map mt (fst (if P (fst (mt, env)) then f (mt, env) else g (mt, env)))
      \<and> env_frame (mt_map_entity mt) n env n' (snd (if P (fst (mt, env)) then f (mt, env) else g (mt, env)))
      \<and> set (mt_local_monsters (fst (if P (fst (mt, env)) then f (mt, env) else g (mt, env))))
          \<subseteq> set (mt_local_monsters mt) \<union> {e. n < unat e}"
    if "mt_good n (mt, env) \<and> n + 3 < 2 ^ 32 - 1"
    using assms that by (cases "P mt") (simp_all only: thread_safe_def fst_conv if_True if_False)
qed

lemma running_update_safe:
  "thread_safe (\<lambda>(mt, env). if mt_running mt then update_map dt (mt, env) else (mt, env))"
proof -
  have "thread_safe (\<lambda>(mt, env). (mt, env))"
    by (rule local_safe) (simp_all add: same_map_def)
  from if_safe [OF update_map_safe this, of mt_running dt] show ?thesis
    by (simp add: case_prod_unfold if_distrib cong: if_cong)
qed

interpretation add_player_op: thread_operation "add_player ch e" for ch e
  by unfold_locales (rule add_player_safe)

interpretation remove_player_op: thread_operation "remove_player ch" for ch
  by unfold_locales (rule remove_player_safe)

interpretation add_packet_op: thread_operation "\<lambda>(mt, env). (add_packet ch cmd data mt, env)" for ch cmd data
  by unfold_locales (rule add_packet_safe)

interpretation process_packets_op: thread_operation "\<lambda>(mt, env). (fst (process_packets mt), env)"
  by unfold_locales (rule process_packets_safe)

interpretation update_map_op: thread_operation "update_map dt" for dt
  by unfold_locales (rule update_map_safe)

interpretation running_update_op: thread_operation
  "\<lambda>(mt, env). if mt_running mt then update_map dt (mt, env) else (mt, env)" for dt
  by unfold_locales (rule running_update_safe)

section \<open>The operations of the manager keep its invariant\<close>

lemma mm_ok_sub:
  assumes "mm_ok n (mm, env)" "distinct (map fst (map_threads mm'))"
    and "\<And>k mt. map_of (map_threads mm') k = Some mt \<Longrightarrow> map_of (map_threads mm) k = Some mt"
  shows "mm_ok n (mm', env)"
  using mm_okD [OF assms(1)] assms(2,3) by (intro mm_okI) blast+

lemma mm_ok_mapping [simp]: "mm_ok n (mm\<lparr>player_map_mapping := x\<rparr>, env) = mm_ok n (mm, env)"
  by (simp add: mm_ok_def)

lemma mm_ok_env:
  assumes ok: "mm_ok n (mm, env)" and fr: "env_frame me n env n' env'" and me: "n < unat me"
  shows "mm_ok n' (mm, env')"
proof (rule mm_okI)
  show "em_inv n' (w_entities (env_world env'))" using fr by (simp add: env_frame_def)
  show "mt_good n' (mt, env')" if "map_of (map_threads mm) k = Some mt" for k mt
  proof (rule mt_good_frame [OF mm_okD(3) [OF ok that] fr])
    have "unat (mt_map_entity mt) \<le> n" using mm_okD(3) [OF ok that] by (simp add: mt_good_def)
    then show "mt_map_entity mt \<noteq> me" using me by auto
  qed
qed (rule mm_okD(2) [OF ok], rule mm_okD(4) [OF ok])

lemma create_entity_frame:
  assumes "mm_ok n (mm, env)" "Suc n < 2 ^ 32 - 1"
  shows "mm_ok (Suc n) (mm, env\<lparr>env_world := fst (w_create_entity (env_world env))\<rparr>)"
proof (rule mm_ok_env [OF assms(1), where me = "of_nat (Suc n)"])
  show "n < unat (of_nat (Suc n) :: u32)" using assms(2) by (simp add: unat_of_nat_u32 del: of_nat_Suc)
qed (use create_entity_inv [OF mm_okD(1) [OF assms(1)] assms(2)] in
    \<open>simp add: env_frame_def env_keeps_def has_monster_parts_def\<close>)

lemma create_map_thread_ok:
  assumes ok: "mm_ok n (mm, env)" and n: "n + 3 < 2 ^ 32 - 1" and sz: "nonneg w" "nonneg h"
  shows "\<exists>n'. n' \<le> n + 3 \<and> mm_ok n' (create_map_thread mid name w h maxp (mm, env))"
proof (cases "mid \<in> set (map fst (map_threads mm))")
  case True
  then show ?thesis using ok by (intro exI [of _ n]) (simp add: create_map_thread_def)
next
  case False
  obtain mt env' where c: "MapThread mid name w h maxp env = (mt :: 'a map_thread, env')" by (rule prod.exhaust)
  have n1: "Suc n < 2 ^ 32 - 1" using n by simp
  have id: "unat (of_nat (Suc n) :: u32) = Suc n" using n by (simp add: unat_of_nat_u32 del: of_nat_Suc)
  note em = mm_okD(1) [OF ok]
  have mt: "mt_map_entity mt = of_nat (Suc n)" "mt_width mt = w" "mt_height mt = h" "mt_local_monsters mt = []"
    and keeps: "env_keeps (of_nat (Suc n)) env env'"
    using c create_entity_id [OF em]
    by (auto simp: MapThread_def case_prod_unfold Let_def env_keeps_def has_monster_parts_def)
  have mtok: "mt_ok (Suc n) (mt, env')" using MapThread_ok [OF em n1, of mid name w h maxp] c by metis
  then have fr: "env_frame (of_nat (Suc n)) n env (Suc n) env'"
    using keeps mt_ok_entities by (auto simp: env_frame_def)
  have ok': "mm_ok (Suc n) (mm, env')" using mm_ok_env [OF ok fr] id by simp
  have good: "mt_good (Suc n) (mt_start mt, env')"
    using mtok queues_ok(3) [OF mtok] mt sz id by (simp add: mt_good_def mt_start_def)
  have apart: "mt_map_entity mtk \<noteq> mt_map_entity mt" if "map_of (map_threads mm) k = Some mtk" for k mtk
    using mm_okD(3) [OF ok that] id by (auto simp: mt_good_def mt simp del: of_nat_Suc)
  have started: "mt_map_entity (mt_start mt) = mt_map_entity mt" "mt_local_monsters (mt_start mt) = []"
    using mt(4) by (simp_all add: mt_start_def)
  define mm' where "mm' = mm\<lparr>map_threads := AList.update mid (mt_start mt) (map_threads mm)\<rparr>"
  have look: "map_of (map_threads mm') k = (if k = mid then Some (mt_start mt) else map_of (map_threads mm) k)" for k
    by (simp add: mm'_def update_conv')
  have "mm_ok (Suc n) (mm', env')"
  proof (rule mm_okI)
    show "distinct (map fst (map_threads mm'))"
      using mm_okD(2) [OF ok] by (simp add: mm'_def distinct_update)
    show "mt_map_entity a \<noteq> mt_map_entity b \<and> set (mt_local_monsters a) \<inter> set (mt_local_monsters b) = {}"
      if "map_of (map_threads mm') k = Some a" "map_of (map_threads mm') k' = Some b" "k \<noteq> k'" for k a k' b
      using that apart [of k a] apart [of k' b] mm_okD(4) [OF ok, of k a k' b]
      by (auto simp: look started split: if_splits)
  qed (use mm_okD(1,3) [OF ok'] good in \<open>auto simp: look split: if_splits\<close>)
  then show ?thesis
    using False c by (intro exI [of _ "Suc n"]) (simp add: create_map_thread_def mm'_def)
qed

lemma destroy_map_thread_ok:
  assumes "mm_ok n (mm, env)"
  shows "mm_ok n (destroy_map_thread mid (mm, env))"
proof (cases "map_of (map_threads mm) mid")
  case None
  then have "mid \<notin> set (map fst (map_threads mm))" by (simp add: map_of_eq_None_iff)
  then show ?thesis using assms by (simp add: destroy_map_thread_def)
next
  case (Some mt)
  have "destroy_map_thread mid (mm, env) =
      (mm\<lparr>map_threads := AList.delete mid (AList.update mid (mt_stop mt) (map_threads mm))\<rparr>, env)"
    using Some map_of_Some_key [OF Some] by (simp add: destroy_map_thread_def with_thread_def Let_def)
  moreover have "mm_ok n \<dots>"
    using mm_okD(2) [OF assms]
    by (intro mm_ok_sub [OF assms]) (auto simp: delete_conv' update_conv' distinct_delete distinct_update split: if_splits)
  ultimately show ?thesis by simp
qed

lemma remove_player_from_map_ok:
  assumes "mm_ok n (mm, env)" "n + 3 < 2 ^ 32 - 1"
  shows "\<exists>n'. n' \<le> n + 3 \<and> mm_ok n' (remove_player_from_map mid ch (mm, env))"
  using assms(1) remove_player_op.with_thread_ok [OF assms, of mid ch]
  by (auto simp: remove_player_from_map_def case_prod_unfold Let_def intro: exI [of _ n])

lemma update_player_map_ok [simp]: "mm_ok n (update_player_map ch mid st) = mm_ok n st"
  by (simp add: update_player_map_def case_prod_unfold)

lemma add_player_to_map_ok:
  assumes "mm_ok n (mm, env)" "n + 3 < 2 ^ 32 - 1"
  shows "\<exists>n'. n' \<le> n + 3 \<and> mm_ok n' (add_player_to_map mid ch e (mm, env))"
  using assms(1) add_player_op.with_thread_ok [OF assms, of mid ch e]
  by (auto simp: add_player_to_map_def intro: exI [of _ n])

lemma move_player_to_map_ok:
  assumes ok: "mm_ok n (mm, env)" and n: "n + 7 < 2 ^ 32 - 1"
  shows "\<exists>n'. n' \<le> n + 7 \<and> mm_ok n' (move_player_to_map ch from_map to_map (mm, env))"
proof -
  obtain mm1 env1 where s1: "with_thread from_map (remove_player ch) (mm, env) = (mm1, env1)" by (rule prod.exhaust)
  obtain n1 where n1: "n1 \<le> n + 3" "mm_ok n1 (mm1, env1)"
    using remove_player_op.with_thread_ok [OF ok, of from_map ch] n s1 by auto
  have n2: "mm_ok (Suc n1) (mm1, env1\<lparr>env_world := fst (w_create_entity (env_world env1))\<rparr>)"
    using create_entity_frame [OF n1(2)] n1(1) n by simp
  have lt: "Suc n1 + 3 < 2 ^ 32 - 1" using n1(1) n by simp
  show ?thesis
  proof (cases "to_map \<in> set (map fst (map_threads mm1))")
    case True
    obtain n3 where "n3 \<le> Suc n1 + 3" "mm_ok n3 (with_thread to_map (add_player ch (snd (w_create_entity (env_world env1))))
        (mm1, env1\<lparr>env_world := fst (w_create_entity (env_world env1))\<rparr>))"
      using add_player_op.with_thread_ok [OF n2 lt] by blast
    then show ?thesis
      using True n1(1) by (intro exI [of _ n3]) (simp add: move_player_to_map_def s1 case_prod_unfold Let_def)
  next
    case False
    then show ?thesis
      using n1 by (intro exI [of _ n1]) (simp add: move_player_to_map_def s1 case_prod_unfold Let_def)
  qed
qed

lemma update_threads_ok:
  assumes "mm_ok n st" "n + 3 * length mids < 2 ^ 32 - 1"
  shows "\<exists>n'. n' \<le> n + 3 * length mids \<and> mm_ok n' (fold (\<lambda>mid. with_thread mid
     (\<lambda>(mt, env). if mt_running mt then update_map dt (mt, env) else (mt, env))) mids st)"
  using assms
proof (induction mids arbitrary: n st)
  case (Cons mid mids)
  obtain mm env where st: "st = (mm, env)" by (rule prod.exhaust)
  have "n + 3 < 2 ^ 32 - 1" using Cons.prems(2) by simp
  then obtain n1 where n1: "n1 \<le> n + 3" "mm_ok n1 (with_thread mid
      (\<lambda>(mt, env). if mt_running mt then update_map dt (mt, env) else (mt, env)) st)"
    using running_update_op.with_thread_ok [of n mm env mid dt] Cons.prems(1) st by blast
  have "n1 + 3 * length mids < 2 ^ 32 - 1" using n1(1) Cons.prems(2) by simp
  from Cons.IH [OF n1(2) this] obtain n2 where "n2 \<le> n1 + 3 * length mids"
      "mm_ok n2 (fold (\<lambda>mid. with_thread mid (\<lambda>(mt, env). if mt_running mt then update_map dt (mt, env)
        else (mt, env))) mids (with_thread mid
        (\<lambda>(mt, env). if mt_running mt then update_map dt (mt, env) else (mt, env)) st))"
    by blast
  then show ?case using n1(1) by (intro exI [of _ n2]) simp
qed auto

section \<open>Interleavings\<close>

text \<open>
  The states that the server can reach: the operations of the manager, called from any thread, and
  the critical sections of the map threads, in any order. Entity ids must not run out: \<open>ids_left k\<close>
  says that at least \<open>k\<close> are left.
\<close>

definition ids_left :: "nat \<Rightarrow> 't mm_state \<Rightarrow> bool" where
  "ids_left k st \<longleftrightarrow> unat (next_entity_id (w_entities (env_world (snd st)))) + k < 2 ^ 32"

inductive mm_reach :: "'t mm_state \<Rightarrow> bool" where
  init: "mm_reach (MapThreadManager, \<lparr>env_world = new_world, env_seed = 42\<rparr>)"
| create: "mm_reach st \<Longrightarrow> ids_left 8 st \<Longrightarrow> nonneg w \<Longrightarrow> nonneg h \<Longrightarrow> mm_reach (create_map_thread mid name w h maxp st)"
| destroy: "mm_reach st \<Longrightarrow> mm_reach (destroy_map_thread mid st)"
| packet: "mm_reach st \<Longrightarrow> ids_left 8 st \<Longrightarrow> mm_reach (send_packet_to_map mid ch cmd data st)"
| add: "mm_reach st \<Longrightarrow> ids_left 8 st \<Longrightarrow> mm_reach (add_player_to_map mid ch e st)"
| remove: "mm_reach st \<Longrightarrow> ids_left 8 st \<Longrightarrow> mm_reach (remove_player_from_map mid ch st)"
| move: "mm_reach st \<Longrightarrow> ids_left 8 st \<Longrightarrow> mm_reach (move_player_to_map ch from_map to_map st)"
| stop_all: "mm_reach st \<Longrightarrow> mm_reach (stop_all_map_threads st)"
| update_all: "mm_reach st \<Longrightarrow> ids_left (3 * length (map_threads (fst st)) + 2) st \<Longrightarrow> mm_reach (update_all_map_threads dt st)"
| thread_packets: "mm_reach st \<Longrightarrow> ids_left 8 st \<Longrightarrow>
    mm_reach (with_thread mid (\<lambda>(mt, env). (fst (process_packets mt), env)) st)"
| thread_update: "mm_reach st \<Longrightarrow> ids_left 8 st \<Longrightarrow> mm_reach (with_thread mid (update_map dt) st)"

lemma ids_left_bound: "mm_ok n (mm, env) \<Longrightarrow> ids_left k (mm, env) \<Longrightarrow> n + k < 2 ^ 32 - 1"
  using em_inv_next [OF mm_okD(1)] by (fastforce simp: ids_left_def)

lemma step_ok:
  assumes "\<exists>n. mm_ok n st" "ids_left 8 st"
    and "\<And>n mm env. mm_ok n (mm, env) \<Longrightarrow> n + 8 < 2 ^ 32 - 1 \<Longrightarrow> \<exists>n'. mm_ok n' (op (mm, env))"
  shows "\<exists>n. mm_ok n (op st)"
proof -
  obtain mm env where st: "st = (mm, env)" by (rule prod.exhaust)
  obtain n where n: "mm_ok n (mm, env)" using assms(1) st by blast
  show ?thesis using assms(3) [OF n ids_left_bound [OF n]] assms(2) st by blast
qed

lemma thread_step_ok:
  fixes st :: "'a mm_state"
  assumes "\<exists>n. mm_ok n st" "ids_left 8 st" "thread_safe f"
  shows "\<exists>n. mm_ok n (with_thread mid f st)"
proof (rule step_ok [OF assms(1,2)])
  fix n env and mm :: "'a map_thread_manager" assume "mm_ok n (mm, env)" "n + 8 < 2 ^ 32 - 1"
  then show "\<exists>n'. mm_ok n' (with_thread mid f (mm, env))"
    using thread_operation.with_thread_ok [OF thread_operation.intro [OF assms(3)], of n mm env mid] by auto
qed

lemma mm_reach_ok: "mm_reach st \<Longrightarrow> \<exists>n. mm_ok n st"
proof (induction rule: mm_reach.induct)
  case init
  show ?case by (rule exI [of _ 0]) (simp add: mm_ok_def MapThreadManager_def new_world_def em_inv_init)
next
  case (stop_all st)
  then show ?case by (auto simp: stop_all_map_threads_def Let_def mm_ok_def case_prod_unfold)
next
  case (destroy st mid)
  then show ?case by (metis destroy_map_thread_ok prod.exhaust)
next
  case (update_all st dt)
  obtain mm env where st: "st = (mm, env)" by (rule prod.exhaust)
  obtain n where n: "mm_ok n (mm, env)" using update_all.IH st by blast
  have "ids_left (3 * length (map_threads mm) + 2) (mm, env)" using update_all.hyps(2) by (simp add: st)
  then have "n + 3 * length (map fst (map_threads mm)) < 2 ^ 32 - 1" using ids_left_bound [OF n] by fastforce
  from update_threads_ok [OF n this, of dt] show ?case by (auto simp: st update_all_map_threads_def)
next
  case (create st w h mid name maxp)
  show ?case by (rule step_ok [OF create.IH create.hyps(2)])
    (use create_map_thread_ok create.hyps(3,4) in \<open>fastforce\<close>)
next
  case (packet st mid ch cmd data)
  then show ?case unfolding send_packet_to_map_def by (intro thread_step_ok add_packet_safe)
next
  case (add st mid ch e)
  show ?case by (rule step_ok [OF add.IH add.hyps(2)]) (use add_player_to_map_ok in \<open>fastforce\<close>)
next
  case (remove st mid ch)
  show ?case by (rule step_ok [OF remove.IH remove.hyps(2)]) (use remove_player_from_map_ok in \<open>fastforce\<close>)
next
  case (move st ch from_map to_map)
  show ?case by (rule step_ok [OF move.IH move.hyps(2)]) (use move_player_to_map_ok in \<open>fastforce\<close>)
next
  case (thread_packets st mid)
  then show ?case by (intro thread_step_ok process_packets_safe)
next
  case (thread_update st mid dt)
  then show ?case by (intro thread_step_ok update_map_safe)
qed


text \<open>Two maps, and a player in the first.\<close>

definition demo_maps :: "unit mm_state" where
  "demo_maps = add_player_to_map 1 7 9
     (create_map_thread 2 (str ''cave'') 0x447A0000 0x447A0000 100
       (create_map_thread 1 (str ''field'') 0x447A0000 0x447A0000 100
         (MapThreadManager, \<lparr>env_world = new_world, env_seed = 42\<rparr>)))"

lemmas demo_eval = create_map_thread_def MapThread_def MapThreadManager_def add_player_to_map_def
  with_thread_def update_player_map_def add_player_def mt_start_def case_prod_unfold Let_def

lemma next_id_eval: "next_entity_id (w_entities (fst (w_create_entity wd))) = next_entity_id (w_entities wd) + 1"
  by (simp add: w_create_entity_def create_entity_def Let_def)

lemma demo_maps_reach: "mm_reach demo_maps"
  unfolding demo_maps_def
  by (intro mm_reach.intros nonneg_1000)
    (simp_all add: ids_left_def demo_eval next_id_eval new_world_def EntityManager_def)

lemma demo_maps_threads:
  "map_of (map_threads (fst demo_maps)) k = Some mt \<Longrightarrow> k = 1 \<or> k = 2"
  "\<exists>mt. map_of (map_threads (fst demo_maps)) 1 = Some mt \<and> mt_local_players mt = [7] \<and> mt_running mt"
  "\<exists>mt. map_of (map_threads (fst demo_maps)) 2 = Some mt \<and> mt_local_players mt = [] \<and> mt_running mt"
  "player_map_mapping (fst demo_maps) = [(7, 1)]"
  by (auto simp: demo_maps_def demo_eval uset_insert_def split: if_splits)


section \<open>Moving a player between maps\<close>

lemma with_thread_env:
  assumes "\<And>mt. snd (f (mt, env)) = env"
  shows "snd (with_thread mid f (mm, env)) = env"
  by (auto simp: with_thread_def Let_def case_prod_unfold assms split: option.split)

lemma remove_player_fields:
  "mt_local_players (fst (remove_player ch (mt, env))) = remove1 ch (mt_local_players mt)"
  "mt_player_count (fst (remove_player ch (mt, env))) = int (length (remove1 ch (mt_local_players mt)))"
  "snd (remove_player ch (mt, env)) = env"
  by (simp_all add: remove_player_def Let_def)

lemma add_player_fields:
  "mt_local_players (fst (add_player ch e (mt, env))) = uset_insert ch (mt_local_players mt)"
  "mt_player_count (fst (add_player ch e (mt, env))) = int (length (uset_insert ch (mt_local_players mt)))"
  by (simp_all add: add_player_def Let_def)

lemma move_player_lookup:
  assumes "map_of (map_threads mm) from_map = Some mf" "map_of (map_threads mm) to_map = Some mto" "from_map \<noteq> to_map"
  shows "map_of (map_threads (fst (move_player_to_map ch from_map to_map (mm, env)))) k =
      (if k = from_map then Some (fst (remove_player ch (mf, env)))
       else if k = to_map then Some (fst (add_player ch (snd (w_create_entity (env_world env)))
         (mto, env\<lparr>env_world := fst (w_create_entity (env_world env))\<rparr>)))
       else map_of (map_threads mm) k)"
    and "player_map_mapping (fst (move_player_to_map ch from_map to_map (mm, env)))
      = AList.update ch to_map (player_map_mapping mm)"
proof -
  obtain mm1 where s: "with_thread from_map (remove_player ch) (mm, env) = (mm1, env)"
    using with_thread_env [of "remove_player ch" env from_map mm]
    by (metis remove_player_fields(3) prod.collapse)
  have look: "map_of (map_threads mm1) k = (if k = from_map then Some (fst (remove_player ch (mf, env)))
      else map_of (map_threads mm) k)" for k
    using with_thread_lookup [of from_map "remove_player ch" mm env k] assms(1) by (simp add: s)
  have "to_map \<in> set (map fst (map_threads mm1))" using look [of to_map] assms by (intro map_of_Some_key) simp
  then have mv: "move_player_to_map ch from_map to_map (mm, env) = update_player_map ch to_map
      (with_thread to_map (add_player ch (snd (w_create_entity (env_world env))))
        (mm1, env\<lparr>env_world := fst (w_create_entity (env_world env))\<rparr>))"
    by (simp add: move_player_to_map_def s case_prod_unfold Let_def)
  show "map_of (map_threads (fst (move_player_to_map ch from_map to_map (mm, env)))) k =
      (if k = from_map then Some (fst (remove_player ch (mf, env)))
       else if k = to_map then Some (fst (add_player ch (snd (w_create_entity (env_world env)))
         (mto, env\<lparr>env_world := fst (w_create_entity (env_world env))\<rparr>)))
       else map_of (map_threads mm) k)"
    using assms by (auto simp: mv update_player_map_def case_prod_unfold with_thread_lookup look)
  have "player_map_mapping mm1 = player_map_mapping mm"
    using with_thread_mapping [of from_map "remove_player ch" "(mm, env)"] by (simp add: s)
  then show "player_map_mapping (fst (move_player_to_map ch from_map to_map (mm, env)))
      = AList.update ch to_map (player_map_mapping mm)"
    by (simp add: mv update_player_map_def case_prod_unfold)
qed

text \<open>
  Moving a player between two existing maps takes them out of the first, puts them into the
  second, records the new map, keeps both player counts right, and leaves every other map alone.
\<close>

lemma move_player_correct:
  assumes "mm_reach (mm, env)" "from_map \<noteq> to_map"
    and "map_of (map_threads mm) from_map = Some mf" "map_of (map_threads mm) to_map = Some mto"
    and "ch \<in> set (mt_local_players mf)" "ch \<notin> set (mt_local_players mto)"
    and "move_player_to_map ch from_map to_map (mm, env) = (mm', env')"
  shows "\<exists>mf' mto'. map_of (map_threads mm') from_map = Some mf' \<and> map_of (map_threads mm') to_map = Some mto'
    \<and> set (mt_local_players mf') = set (mt_local_players mf) - {ch}
    \<and> set (mt_local_players mto') = insert ch (set (mt_local_players mto))
    \<and> get_map_player_count from_map mm' = get_map_player_count from_map mm - 1
    \<and> get_map_player_count to_map mm' = get_map_player_count to_map mm + 1
    \<and> get_player_map ch mm' = to_map
    \<and> (\<forall>k. k \<noteq> from_map \<and> k \<noteq> to_map \<longrightarrow> map_of (map_threads mm') k = map_of (map_threads mm) k)"
proof -
  obtain n where ok: "mm_ok n (mm, env)" using mm_reach_ok [OF assms(1)] by blast
  have ok2: "mt_ok n (mf, env)" "mt_ok n (mto, env)" using mm_okD(3) [OF ok] assms(3,4) mt_good_ok by blast+
  then have cnt: "distinct (mt_local_players mf)" "mt_player_count mf = int (length (mt_local_players mf))"
      "mt_player_count mto = int (length (mt_local_players mto))"
    by (simp_all add: mt_ok_def)
  have len: "length (mt_local_players mf) = Suc (length (remove1 ch (mt_local_players mf)))"
    using assms(5) length_pos_if_in_set [OF assms(5)] by (simp add: length_remove1)
  show ?thesis
    using move_player_lookup [OF assms(3,4,2), of ch env] assms(2-) cnt len
    by (simp add: remove_player_fields add_player_fields get_map_player_count_def get_player_map_def
        update_conv' uset_insert_def)
qed

lemma move_player_correct_witness:
  "\<exists>mm env mm' env' mf' mto'. demo_maps = (mm, env) \<and> move_player_to_map 7 1 2 (mm, env) = (mm', env')
    \<and> map_of (map_threads mm') 1 = Some mf' \<and> map_of (map_threads mm') 2 = Some mto'
    \<and> 7 \<notin> set (mt_local_players mf') \<and> 7 \<in> set (mt_local_players mto') \<and> get_player_map 7 mm' = 2"
proof -
  obtain mm env where d: "demo_maps = (mm, env)" by (rule prod.exhaust)
  obtain mm' env' where mv: "move_player_to_map 7 1 2 (mm, env) = (mm', env')" by (rule prod.exhaust)
  obtain mf where mf: "map_of (map_threads mm) 1 = Some mf" "mt_local_players mf = [7]"
    using demo_maps_threads(2) unfolding d fst_conv by blast
  obtain mto where mto: "map_of (map_threads mm) 2 = Some mto" "mt_local_players mto = []"
    using demo_maps_threads(3) unfolding d fst_conv by blast
  have "mm_reach (mm, env)" using demo_maps_reach d by simp
  from move_player_correct [OF this _ mf(1) mto(1) _ _ mv] mf(2) mto(2) d mv show ?thesis by fastforce
qed

text \<open>
  Moving a player to a map that does not exist still takes them out of the old one, while the
  recorded map stays the old one: the player is in no map, and nothing reports an error.
\<close>

lemma move_to_missing_map_loses_player:
  assumes "mm_reach (mm, env)" "map_of (map_threads mm) from_map = Some mf"
    and "map_of (map_threads mm) to_map = None"
    and "move_player_to_map ch from_map to_map (mm, env) = (mm', env')"
  shows "\<exists>mf'. map_of (map_threads mm') from_map = Some mf' \<and> ch \<notin> set (mt_local_players mf')
    \<and> map_of (map_threads mm') to_map = None \<and> get_player_map ch mm' = get_player_map ch mm \<and> env' = env"
proof -
  obtain n where ok: "mm_ok n (mm, env)" using mm_reach_ok [OF assms(1)] by blast
  have "mt_ok n (mf, env)" using mm_okD(3) [OF ok assms(2)] by (rule mt_good_ok)
  then have gone: "ch \<notin> set (remove1 ch (mt_local_players mf))" by (simp add: mt_ok_def)
  have ne: "to_map \<noteq> from_map" using assms(2,3) by auto
  have none: "to_map \<notin> set (map fst (map_threads (fst (with_thread from_map (remove_player ch) (mm, env)))))"
    using assms(3) by (simp add: map_of_eq_None_iff)
  then have "with_thread from_map (remove_player ch) (mm, env) = (mm', env')"
    using assms(4) by (simp add: move_player_to_map_def case_prod_unfold Let_def)
  then show ?thesis
    using with_thread_lookup [of from_map "remove_player ch" mm env] assms(2,3) gone ne
      with_thread_mapping [of from_map "remove_player ch" "(mm, env)"]
      with_thread_env [of "remove_player ch" env from_map mm]
    by (simp add: remove_player_fields get_player_map_def)
qed

lemma move_to_missing_map_loses_player_witness:
  "\<exists>mm env mm' env' mf'. demo_maps = (mm, env) \<and> move_player_to_map 7 1 5 (mm, env) = (mm', env')
    \<and> map_of (map_threads mm') 1 = Some mf' \<and> 7 \<notin> set (mt_local_players mf') \<and> get_player_map 7 mm' = 1"
proof -
  obtain mm env where d: "demo_maps = (mm, env)" by (rule prod.exhaust)
  obtain mm' env' where mv: "move_player_to_map 7 1 5 (mm, env) = (mm', env')" by (rule prod.exhaust)
  obtain mf where mf: "map_of (map_threads mm) 1 = Some mf" "mt_local_players mf = [7]"
    using demo_maps_threads(2) unfolding d fst_conv by blast
  have none: "map_of (map_threads mm) 5 = None"
    using demo_maps_threads(1) [of 5] by (cases "map_of (map_threads mm) 5") (auto simp: d)
  have "get_player_map 7 mm = 1" using demo_maps_threads(4) by (simp add: d get_player_map_def)
  moreover have "mm_reach (mm, env)" using demo_maps_reach d by simp
  from move_to_missing_map_loses_player [OF this mf(1) none mv]
  have "\<exists>mf'. map_of (map_threads mm') 1 = Some mf' \<and> 7 \<notin> set (mt_local_players mf')
    \<and> get_player_map 7 mm' = get_player_map 7 mm"
    by blast
  ultimately have "\<exists>mf'. map_of (map_threads mm') 1 = Some mf' \<and> 7 \<notin> set (mt_local_players mf')
    \<and> get_player_map 7 mm' = 1"
    by simp
  then show ?thesis using d mv by blast
qed

section \<open>Global chat\<close>

fun packets_of :: "global_task \<Rightarrow> map_packet list" where
  "packets_of (GlobalChat ch msg) = [\<lparr>mpk_channel_id = ch, mpk_cmd = 0x1004, mpk_data = msg\<rparr>]"
| "packets_of t = []"

definition deliver :: "map_packet list \<Rightarrow> 't map_thread \<Rightarrow> 't map_thread" where
  "deliver pks mt = (if mt_running mt then mt\<lparr>mt_packet_queue := mt_packet_queue mt @ pks\<rparr> else mt)"

lemma send_fold_lookup:
  assumes "distinct mids"
  shows "map_of (map_threads (fst (fold (\<lambda>mid. send_packet_to_map mid ch cmd data) mids st))) k =
    map_option (if k \<in> set mids then add_packet ch cmd data else id) (map_of (map_threads (fst st)) k)"
  using assms
proof (induction mids arbitrary: st)
  case (Cons mid mids)
  obtain mm env where st: "st = (mm, env)" by (rule prod.exhaust)
  have step: "map_of (map_threads (fst (send_packet_to_map mid ch cmd data st))) k =
      map_option (if k = mid then add_packet ch cmd data else id) (map_of (map_threads (fst st)) k)"
    by (simp add: send_packet_to_map_def st with_thread_lookup option.map_id)
  show ?case
    using Cons.prems Cons.IH [of "send_packet_to_map mid ch cmd data st"] step
    by (cases "map_of (map_threads (fst st)) k") auto
qed (simp add: option.map_id)

lemma active_iff:
  "distinct (map fst (map_threads mm)) \<Longrightarrow> map_of (map_threads mm) k = Some mt \<Longrightarrow>
     k \<in> set (get_active_map_ids mm) \<longleftrightarrow> mt_running mt"
proof -
  assume "distinct (map fst (map_threads mm))" "map_of (map_threads mm) k = Some mt"
  then have "(k, mt') \<in> set (map_threads mm) \<longleftrightarrow> mt' = mt" for mt'
    by (metis map_of_eq_Some_iff option.inject)
  then show ?thesis by (auto simp: get_active_map_ids_def image_iff case_prod_unfold)
qed

lemma run_global_task_lookup:
  assumes "distinct (map fst (map_threads (fst st)))"
  shows "map_of (map_threads (fst (run_global_task t st))) k =
    map_option (deliver (packets_of t)) (map_of (map_threads (fst st)) k)"
proof (cases "map_of (map_threads (fst st)) k")
  case (Some mt)
  have "distinct (get_active_map_ids (fst st))"
    using assms by (simp add: get_active_map_ids_def distinct_map_filter case_prod_unfold)
  then show ?thesis
    using active_iff [OF assms Some] Some
    by (cases t) (auto simp: send_fold_lookup deliver_def add_packet_def)
next
  case None
  have "distinct (get_active_map_ids (fst st))"
    using assms by (simp add: get_active_map_ids_def distinct_map_filter case_prod_unfold)
  then show ?thesis using None by (cases t) (simp_all add: send_fold_lookup)
qed

lemma run_global_task_keys:
  "map fst (map_threads (fst (run_global_task t st))) = map fst (map_threads (fst st))"
proof (cases t)
  case (GlobalChat ch msg)
  have "map fst (map_threads (fst (fold (\<lambda>mid. send_packet_to_map mid ch 0x1004 msg) mids st)))
      = map fst (map_threads (fst st))" for mids
    by (induction mids arbitrary: st) (simp_all add: send_packet_to_map_def)
  then show ?thesis using GlobalChat by simp
qed simp_all

lemma deliver_deliver: "deliver ps (deliver qs mt) = deliver (qs @ ps) mt"
  by (simp add: deliver_def)

lemma run_global_tasks_lookup:
  assumes "distinct (map fst (map_threads (mn_maps m)))"
  shows "map_of (map_threads (mn_maps (run_global_tasks ts m))) k =
    map_option (deliver (concat (map packets_of ts))) (map_of (map_threads (mn_maps m)) k)"
  using assms
proof (induction ts arbitrary: m)
  case (Cons t ts)
  let ?m = "mn_on_maps (run_global_task t) (m\<lparr>mn_global_tasks := ts\<rparr>)"
  have keys: "distinct (map fst (map_threads (mn_maps ?m)))"
    using Cons.prems run_global_task_keys [of t "(mn_maps m, mn_env m)"]
    by (simp add: mn_on_maps_def case_prod_unfold Let_def)
  show ?case
    using Cons.IH [OF keys] run_global_task_lookup [of "(mn_maps m, mn_env m)" t k] Cons.prems
    by (cases "map_of (map_threads (mn_maps m)) k")
      (simp_all add: mn_on_maps_def case_prod_unfold Let_def deliver_deliver)
qed (simp add: deliver_def option.map_ident_strong)

text \<open>
  One pass over the global tasks puts every queued global chat message into the packet queue of
  every running map, in the order in which the messages were queued, and changes nothing else about
  the maps; guild and friend messages reach no map.
\<close>

lemma global_chat_broadcast:
  assumes "distinct (map fst (map_threads (mn_maps m)))"
  shows "map_of (map_threads (mn_maps (process_global_systems m))) k =
    map_option (\<lambda>mt. if mt_running mt
        then mt\<lparr>mt_packet_queue := mt_packet_queue mt @ concat (map packets_of (mn_global_tasks m))\<rparr> else mt)
      (map_of (map_threads (mn_maps m)) k)"
  using run_global_tasks_lookup [OF assms, of "mn_global_tasks m" k]
  by (simp add: process_global_systems_def deliver_def [abs_def])

definition demo_main :: "(unit, unit) main_manager" where
  "demo_main = handle_map_transfer 7 1 2 (handle_global_chat 7 (str ''hi'')
     \<lparr>mn_task_queue = [], mn_network_tasks = [], mn_global_tasks = [], mn_maps = fst demo_maps,
      mn_running = True, mn_env = snd demo_maps, mn_map_system = MapSystem, mn_draws = 0,
      mn_systems = SystemManager\<rparr>)"

lemma demo_main_maps: "mn_maps demo_main = fst demo_maps" "mn_global_tasks demo_main = [GlobalChat 7 (str ''hi'')]"
  "mn_task_queue demo_main = [(1, MapTransfer 7 1 2)]" "mn_network_tasks demo_main = []"
  by (simp_all add: demo_main_def handle_map_transfer_def handle_global_chat_def mn_add_task_def
      add_global_task_def tq_emplace_def)

lemma global_chat_broadcast_witness:
  "\<exists>mt. map_of (map_threads (mn_maps demo_main)) 2 = Some mt \<and> mt_running mt
    \<and> map_of (map_threads (mn_maps (process_global_systems demo_main))) 2 =
        Some (mt\<lparr>mt_packet_queue := mt_packet_queue mt @ concat (map packets_of (mn_global_tasks demo_main))\<rparr>)"
proof -
  have "distinct (map fst (map_threads (mn_maps demo_main)))"
    by (auto simp: demo_main_maps demo_maps_def demo_eval)
  from global_chat_broadcast [OF this, of 2] demo_maps_threads(3) show ?thesis
    by (auto simp: demo_main_maps(1))
qed

section \<open>The main loop returns\<close>

interpretation main_tasks: task_loop mn_task_queue "\<lambda>q m. m\<lparr>mn_task_queue := q\<rparr>" process_task_queue
proof
  fix m :: "('t, 'u) main_manager" and run
  show "process_task_queue run m = Some m" if "mn_task_queue m = []"
    using that by (subst process_task_queue.simps) simp
  show "process_task_queue run m = process_task_queue run (run (snd (tq_top (mn_task_queue m)))
      (m\<lparr>mn_task_queue := tq_pop (mn_task_queue m)\<rparr>))" if "mn_task_queue m \<noteq> []"
    using that by (subst process_task_queue.simps) (simp add: Let_def)
qed simp_all

lemma transfer_neutral:
  "queue_neutral (\<lambda>q m. m\<lparr>mn_task_queue := q\<rparr>) (run_main_task caller) {MapTransfer ch f t | ch f t. True}"
  by (auto simp: queue_neutral_def mn_on_maps_def case_prod_unfold Let_def)

lemma queue_neutral_mono: "queue_neutral sq run ts \<Longrightarrow> ts' \<subseteq> ts \<Longrightarrow> queue_neutral sq run ts'"
  by (auto simp: queue_neutral_def)

lemma process_global_systems_queues [simp]:
  "mn_task_queue (run_global_tasks ts m) = mn_task_queue m"
  by (induction ts arbitrary: m) (simp_all add: mn_on_maps_def case_prod_unfold Let_def)

text \<open>
  C33: An iteration of the main loop with no work from callers returns: the queued map transfers have
  all run, in the order of their priorities, after the global messages and the ECS update, and before
  the maps are updated.
\<close>

theorem main_iteration_returns:
  assumes "mn_running m" "mn_network_tasks m = []"
    and "snd ` set (mn_task_queue m) \<subseteq> {MapTransfer ch f t | ch f t. True}"
  shows "\<exists>order. mset order = mset (mn_task_queue m) \<and> sorted (map fst order)
    \<and> main_iteration caller rnd dt m =
        Some (mn_on_maps (update_all_map_threads dt)
          (fold (\<lambda>task. run_main_task caller (snd task)) order
            ((update_ecs rnd dt (process_global_systems m))\<lparr>mn_task_queue := []\<rparr>)))"
proof -
  define m' where "m' = update_ecs rnd dt (process_global_systems m)"
  have q: "mn_task_queue m' = mn_task_queue m"
    by (simp add: m'_def update_ecs_def Let_def process_global_systems_def)
  have "queue_neutral (\<lambda>q m. m\<lparr>mn_task_queue := q\<rparr>) (run_main_task caller) (snd ` set (mn_task_queue m'))"
    unfolding q by (rule queue_neutral_mono [OF transfer_neutral assms(3)])
  then obtain order where "mset order = mset (mn_task_queue m)" "sorted (map fst order)"
      "process_task_queue (run_main_task caller) m' =
        Some (fold (\<lambda>task. run_main_task caller (snd task)) order (m'\<lparr>mn_task_queue := []\<rparr>))"
    using main_tasks.loop_in_priority_order [of "run_main_task caller" m'] unfolding q by blast
  then show ?thesis
    using assms(1,2)
    by (intro exI [of _ order])
      (simp add: main_iteration_def process_network_events_def process_map_transfers_def m'_def Let_def)
qed

theorem main_iteration_returns_witness:
  "\<exists>order. mset order = mset (mn_task_queue demo_main) \<and> sorted (map fst order)
    \<and> main_iteration (\<lambda>_. id) (\<lambda>_. 0) 0 demo_main =
        Some (mn_on_maps (update_all_map_threads 0)
          (fold (\<lambda>task. run_main_task (\<lambda>_. id) (snd task)) order
            ((update_ecs (\<lambda>_. 0) 0 (process_global_systems demo_main))\<lparr>mn_task_queue := []\<rparr>)))"
  by (rule main_iteration_returns)
    (simp_all add: demo_main_maps, simp add: demo_main_def handle_map_transfer_def handle_global_chat_def
      mn_add_task_def add_global_task_def)

end
