(* ===== verification/Packet_Buffer.thy ===== *)
theory Packet_Buffer
  imports Prelude
begin

text \<open>
  The packet buffer (\<open>common/core/packet_buffer.cpp\<close>): a growing vector of its own, or a window on an
  array of the caller. Arrays of callers live in a store; a copy of a buffer on such an array shares
  it. Every access is checked against the storage that is really there: the outcome \<open>BadAccess\<close>
  stands for reading or writing outside it, \<open>SignedOverflow\<close> for an \<open>int32\<close> sum that does not fit.
\<close>

section \<open>State\<close>

datatype data_option = NoOption | Compression

type_synonym memory = "nat \<Rightarrow> bytes"

record packet_buffer =
  dynamic_buffer :: bytes
  dynamic_capacity :: nat
  external_buffer :: "nat option"
  pb_size :: int
  pb_offset :: int
  pb_option :: data_option
  pb_is_dynamic :: bool
  pb_is_owner :: bool

datatype 'a pb_result = PbOk 'a | CapacityExceeded | LengthError | BadAccess | SignedOverflow

section \<open>The vector\<close>

text \<open>
  \<open>std::vector<char>\<close>: \<open>reserve\<close> allocates exactly, \<open>resize\<close> at least doubles, and new elements of
  \<open>resize\<close> are zero, whatever the storage behind the old elements held.
\<close>

definition vec_reserve :: "nat \<Rightarrow> packet_buffer \<Rightarrow> packet_buffer" where
  "vec_reserve n b = b\<lparr>dynamic_capacity := max (dynamic_capacity b) n\<rparr>"

definition vec_resize :: "nat \<Rightarrow> packet_buffer \<Rightarrow> packet_buffer" where
  "vec_resize n b =
    (let v = dynamic_buffer b
     in b\<lparr>dynamic_buffer := take n v @ replicate (n - length v) 0,
          dynamic_capacity := (if n \<le> dynamic_capacity b then dynamic_capacity b else max (2 * length v) n)\<rparr>)"

text \<open>\<open>memcpy(buffer + off, data, length)\<close> on an array.\<close>

definition put_bytes :: "nat \<Rightarrow> bytes \<Rightarrow> bytes \<Rightarrow> bytes" where
  "put_bytes off d v = take off v @ d @ drop (off + length d) v"

definition int32_add :: "int \<Rightarrow> int \<Rightarrow> int option" where
  "int32_add a b = (if - (2 ^ 31) \<le> a + b \<and> a + b < 2 ^ 31 then Some (a + b) else None)"

section \<open>Construction, copies and moves\<close>

definition packet_buffer_empty :: packet_buffer where
  "packet_buffer_empty = \<lparr>dynamic_buffer = [], dynamic_capacity = 0, external_buffer = None, pb_size = 0,
     pb_offset = 0, pb_option = NoOption, pb_is_dynamic = False, pb_is_owner = False\<rparr>"

definition packet_buffer_dynamic :: "nat \<Rightarrow> data_option \<Rightarrow> packet_buffer" where
  "packet_buffer_dynamic initial_capacity opt =
    (let b = packet_buffer_empty\<lparr>pb_is_dynamic := True, pb_is_owner := True, pb_option := opt\<rparr>;
         b = vec_reserve initial_capacity b
     in b\<lparr>pb_size := to_int (of_nat initial_capacity)\<rparr>)"

definition pb_set :: "nat option \<Rightarrow> int \<Rightarrow> int \<Rightarrow> data_option \<Rightarrow> packet_buffer \<Rightarrow> packet_buffer" where
  "pb_set buffer off sz opt b = b\<lparr>dynamic_buffer := [], external_buffer := buffer, pb_size := sz,
     pb_offset := off, pb_option := opt, pb_is_dynamic := False, pb_is_owner := False\<rparr>"

definition packet_buffer_external :: "nat option \<Rightarrow> int \<Rightarrow> int \<Rightarrow> data_option \<Rightarrow> packet_buffer" where
  "packet_buffer_external buffer off sz opt = pb_set buffer off sz opt packet_buffer_empty"

text \<open>A copied vector has the capacity that its elements need.\<close>

definition pb_copy :: "packet_buffer \<Rightarrow> packet_buffer" where
  "pb_copy other = \<lparr>dynamic_buffer = dynamic_buffer other, dynamic_capacity = length (dynamic_buffer other),
     external_buffer = external_buffer other, pb_size = pb_size other, pb_offset = pb_offset other,
     pb_option = pb_option other, pb_is_dynamic = pb_is_dynamic other, pb_is_owner = pb_is_owner other\<rparr>"

text \<open>The new buffer and what is left of the old one.\<close>

definition pb_move :: "packet_buffer \<Rightarrow> packet_buffer \<times> packet_buffer" where
  "pb_move other = (other, other\<lparr>dynamic_buffer := [], dynamic_capacity := 0, external_buffer := None, pb_size := 0,
     pb_offset := 0, pb_is_dynamic := False, pb_is_owner := False\<rparr>)"

text \<open>Assignments; \<open>same\<close> is the test \<open>this == &other\<close>. A vector that is assigned to keeps larger storage.\<close>

definition pb_assign :: "bool \<Rightarrow> packet_buffer \<Rightarrow> packet_buffer \<Rightarrow> packet_buffer" where
  "pb_assign same other b =
    (if same then b
     else (pb_copy other)\<lparr>dynamic_capacity := max (dynamic_capacity b) (length (dynamic_buffer other))\<rparr>)"

definition pb_move_assign :: "bool \<Rightarrow> packet_buffer \<Rightarrow> packet_buffer \<Rightarrow> packet_buffer \<times> packet_buffer" where
  "pb_move_assign same other b = (if same then (b, other) else pb_move other)"

definition pb_reset :: "packet_buffer \<Rightarrow> packet_buffer" where
  "pb_reset b = b\<lparr>dynamic_buffer := [], external_buffer := None, pb_size := 0, pb_offset := 0,
     pb_option := NoOption, pb_is_dynamic := False, pb_is_owner := False\<rparr>"

definition pb_set_dynamic :: "nat \<Rightarrow> data_option \<Rightarrow> packet_buffer \<Rightarrow> packet_buffer" where
  "pb_set_dynamic cap opt b =
    (let b = vec_reserve cap (b\<lparr>dynamic_buffer := []\<rparr>)
     in b\<lparr>external_buffer := None, pb_size := to_int (of_nat cap), pb_offset := 0, pb_option := opt,
          pb_is_dynamic := True, pb_is_owner := True\<rparr>)"

section \<open>Accessors\<close>

definition pb_set_offset :: "int \<Rightarrow> packet_buffer \<Rightarrow> packet_buffer" where
  "pb_set_offset off b = (if 0 \<le> off \<and> off \<le> pb_size b then b\<lparr>pb_offset := off\<rparr> else b)"

definition remaining_size :: "packet_buffer \<Rightarrow> int option" where
  "remaining_size b = int32_add (pb_size b) (- pb_offset b)"

definition pb_capacity :: "packet_buffer \<Rightarrow> int" where
  "pb_capacity b = (if pb_is_dynamic b then to_int (of_nat (dynamic_capacity b)) else pb_size b)"

text \<open>The array behind \<open>raw()\<close>.\<close>

definition raw_bytes :: "memory \<Rightarrow> packet_buffer \<Rightarrow> bytes" where
  "raw_bytes mem b = (if pb_is_dynamic b then dynamic_buffer b
     else case external_buffer b of None \<Rightarrow> [] | Some a \<Rightarrow> mem a)"

section \<open>Appending and resizing\<close>

definition ensure_capacity :: "int \<Rightarrow> packet_buffer \<Rightarrow> packet_buffer pb_result" where
  "ensure_capacity required_size b =
    (if pb_is_dynamic b
     then if required_size < 0 then LengthError
          else if nat required_size > dynamic_capacity b then PbOk (vec_reserve (nat required_size) b)
          else PbOk b
     else if required_size > pb_size b then CapacityExceeded else PbOk b)"

text \<open>
  The copy into the storage. The vector's storage extends to its capacity, but only the elements below its
  size are part of the vector.
\<close>

definition copy_in :: "bytes \<Rightarrow> int \<Rightarrow> memory \<Rightarrow> packet_buffer \<Rightarrow> (memory \<times> packet_buffer) pb_result" where
  "copy_in d off mem b =
    (if off < 0 then BadAccess
     else if pb_is_dynamic b
     then let v = dynamic_buffer b; storage = v @ replicate (dynamic_capacity b - length v) 0
          in if nat off + length d > length storage then BadAccess
             else PbOk (mem, b\<lparr>dynamic_buffer := take (length v) (put_bytes (nat off) d storage)\<rparr>)
     else case external_buffer b of
       None \<Rightarrow> BadAccess
     | Some a \<Rightarrow>
         if nat off + length d > length (mem a) then BadAccess
         else PbOk (mem(a := put_bytes (nat off) d (mem a)), b))"

definition pb_append :: "bytes \<Rightarrow> int \<Rightarrow> memory \<Rightarrow> packet_buffer \<Rightarrow> (memory \<times> packet_buffer) pb_result" where
  "pb_append data len mem b =
    (if len \<le> 0 then PbOk (mem, b)
     else case int32_add (pb_offset b) len of
       None \<Rightarrow> SignedOverflow
     | Some required_size \<Rightarrow>
         (case ensure_capacity required_size b of
            PbOk b \<Rightarrow>
              if nat len > length data then BadAccess
              else (case copy_in (take (nat len) data) (pb_offset b) mem b of
                PbOk (mem, b) \<Rightarrow>
                  let b = b\<lparr>pb_offset := required_size\<rparr>
                  in PbOk (mem, if pb_is_dynamic b
                       then vec_resize (max (nat (pb_offset b)) (length (dynamic_buffer b))) b else b)
              | CapacityExceeded \<Rightarrow> CapacityExceeded | LengthError \<Rightarrow> LengthError
              | BadAccess \<Rightarrow> BadAccess | SignedOverflow \<Rightarrow> SignedOverflow)
          | CapacityExceeded \<Rightarrow> CapacityExceeded | LengthError \<Rightarrow> LengthError
          | BadAccess \<Rightarrow> BadAccess | SignedOverflow \<Rightarrow> SignedOverflow))"

text \<open>The overloads for \<open>std::string\<close> and \<open>std::vector<char>\<close>.\<close>

definition pb_append_all :: "bytes \<Rightarrow> memory \<Rightarrow> packet_buffer \<Rightarrow> (memory \<times> packet_buffer) pb_result" where
  "pb_append_all data = pb_append data (to_int (of_nat (length data)))"

definition pb_reserve :: "int \<Rightarrow> packet_buffer \<Rightarrow> packet_buffer pb_result" where
  "pb_reserve cap b =
    (if pb_is_dynamic b
     then if cap < 0 then LengthError else PbOk (vec_reserve (nat cap) b)
     else PbOk b)"

definition pb_resize :: "int \<Rightarrow> packet_buffer \<Rightarrow> packet_buffer" where
  "pb_resize sz b =
    (if sz < 0 then b
     else if pb_is_dynamic b
     then let b = (vec_resize (nat sz) b)\<lparr>pb_size := sz\<rparr>
          in if pb_offset b > sz then b\<lparr>pb_offset := sz\<rparr> else b
     else if sz \<le> pb_size b
     then let b = b\<lparr>pb_size := sz\<rparr>
          in if pb_offset b > sz then b\<lparr>pb_offset := sz\<rparr> else b
     else b)"

section \<open>Sequences of calls\<close>

datatype pb_op =
    OpSet nat int int data_option
  | OpSetDynamic nat data_option
  | OpReset
  | OpSetOffset int
  | OpAppend bytes int
  | OpReserve int
  | OpResize int
  | OpCopy
  | OpMove

fun pb_step :: "pb_op \<Rightarrow> memory \<Rightarrow> packet_buffer \<Rightarrow> (memory \<times> packet_buffer) pb_result" where
  "pb_step (OpSet a off sz opt) mem b = PbOk (mem, pb_set (Some a) off sz opt b)"
| "pb_step (OpSetDynamic cap opt) mem b = PbOk (mem, pb_set_dynamic cap opt b)"
| "pb_step OpReset mem b = PbOk (mem, pb_reset b)"
| "pb_step (OpSetOffset off) mem b = PbOk (mem, pb_set_offset off b)"
| "pb_step (OpAppend data len) mem b = pb_append data len mem b"
| "pb_step (OpReserve cap) mem b =
     (case pb_reserve cap b of PbOk b \<Rightarrow> PbOk (mem, b) | _ \<Rightarrow> LengthError)"
| "pb_step (OpResize sz) mem b = PbOk (mem, pb_resize sz b)"
| "pb_step OpCopy mem b = PbOk (mem, pb_copy b)"
| "pb_step OpMove mem b = PbOk (mem, fst (pb_move b))"

text \<open>What the caller owes: a window inside its array, as many bytes as announced.\<close>

fun op_ok :: "pb_op \<Rightarrow> memory \<Rightarrow> bool" where
  "op_ok (OpSet a off sz opt) mem = (0 \<le> off \<and> sz \<le> int (length (mem a)))"
| "op_ok (OpAppend data len) mem = (len \<le> int (length data))"
| "op_ok _ mem = True"

inductive pb_reach :: "memory \<Rightarrow> packet_buffer \<Rightarrow> bool" where
  empty: "pb_reach mem packet_buffer_empty"
| dynamic: "pb_reach mem (packet_buffer_dynamic cap opt)"
| external: "0 \<le> off \<Longrightarrow> sz \<le> int (length (mem a)) \<Longrightarrow> pb_reach mem (packet_buffer_external (Some a) off sz opt)"
| step: "pb_reach mem b \<Longrightarrow> op_ok op mem \<Longrightarrow> pb_step op mem b = PbOk (mem', b') \<Longrightarrow> pb_reach mem' b'"

section \<open>Memory safety\<close>

definition pb_inv :: "memory \<Rightarrow> packet_buffer \<Rightarrow> bool" where
  "pb_inv mem b \<longleftrightarrow> 0 \<le> pb_offset b \<and> length (dynamic_buffer b) \<le> dynamic_capacity b
     \<and> (pb_is_dynamic b \<or> (case external_buffer b of None \<Rightarrow> pb_size b \<le> 0 | Some a \<Rightarrow> pb_size b \<le> int (length (mem a))))"

lemma length_put_bytes [simp]: "off + length d \<le> length v \<Longrightarrow> length (put_bytes off d v) = length v"
  by (simp add: put_bytes_def)

text \<open>What of the copied bytes is below the size of the vector.\<close>

definition kept_bytes :: "nat \<Rightarrow> bytes \<Rightarrow> bytes \<Rightarrow> bytes" where
  "kept_bytes off d v = (if length v \<le> off then v else take (length v) (put_bytes off d v))"

lemma length_kept_bytes [simp]: "length (kept_bytes off d v) = length v"
  by (auto simp: kept_bytes_def put_bytes_def min_def)

lemma kept_bytes_inside: "off + length d \<le> length v \<Longrightarrow> d \<noteq> [] \<Longrightarrow> kept_bytes off d v = put_bytes off d v"
  by (cases d) (auto simp: kept_bytes_def)

lemma put_bytes_storage:
  "off + length d \<le> length v + k \<Longrightarrow> take (length v) (put_bytes off d (v @ replicate k x)) = kept_bytes off d v"
  by (auto simp: kept_bytes_def put_bytes_def min_def)

text \<open>What \<open>append\<close> does when the caller keeps its side, on every branch.\<close>

lemma append_external:
  assumes inv: "pb_inv mem b" and ext: "\<not> pb_is_dynamic b"
    and len: "0 < len" "len \<le> int (length data)" "pb_offset b + len < 2 ^ 31"
  shows "if pb_offset b + len > pb_size b then pb_append data len mem b = CapacityExceeded
    else \<exists>a. external_buffer b = Some a \<and> pb_offset b + len \<le> int (length (mem a))
      \<and> pb_append data len mem b = PbOk (mem(a := put_bytes (nat (pb_offset b)) (take (nat len) data) (mem a)),
          b\<lparr>pb_offset := pb_offset b + len\<rparr>)"
proof -
  have off: "0 \<le> pb_offset b" "int32_add (pb_offset b) len = Some (pb_offset b + len)"
    using inv len(1,3) by (simp_all add: pb_inv_def int32_add_def)
  show ?thesis
    using inv ext len(1,2) off
    by (auto simp: pb_append_def ensure_capacity_def copy_in_def pb_inv_def Let_def split: option.splits)
qed

lemma append_dynamic:
  assumes inv: "pb_inv mem b" and dyn: "pb_is_dynamic b"
    and len: "0 < len" "len \<le> int (length data)" "pb_offset b + len < 2 ^ 31"
  shows "pb_append data len mem b = PbOk (mem, b\<lparr>
      dynamic_buffer := kept_bytes (nat (pb_offset b)) (take (nat len) data) (dynamic_buffer b)
        @ replicate (nat (pb_offset b + len) - length (dynamic_buffer b)) 0,
      dynamic_capacity := max (dynamic_capacity b) (nat (pb_offset b + len)), pb_offset := pb_offset b + len\<rparr>)"
proof -
  define r where "r = nat (pb_offset b + len)"
  define v where "v = dynamic_buffer b"
  define b' where "b' = b\<lparr>dynamic_capacity := max (dynamic_capacity b) r\<rparr>"
  have off: "0 \<le> pb_offset b" "int32_add (pb_offset b) len = Some (pb_offset b + len)" "length v \<le> dynamic_capacity b"
    using inv len(1,3) by (simp_all add: pb_inv_def int32_add_def v_def)
  have sum: "nat (pb_offset b) + length (take (nat len) data) = r" using off(1) len(1,2) by (simp add: r_def nat_add_distrib)
  have "ensure_capacity (pb_offset b + len) b = PbOk b'"
    using dyn off(1) len(1) by (auto simp: ensure_capacity_def b'_def vec_reserve_def r_def max_def)
  moreover have "copy_in (take (nat len) data) (pb_offset b') mem b' = PbOk (mem,
      b'\<lparr>dynamic_buffer := kept_bytes (nat (pb_offset b)) (take (nat len) data) v\<rparr>)"
    using dyn off sum put_bytes_storage [of "nat (pb_offset b)" "take (nat len) data" v "max (dynamic_capacity b) r - length v" 0]
    by (simp add: copy_in_def b'_def Let_def v_def [symmetric])
  ultimately show ?thesis
    using dyn off(2,3) len(1,2) max.coboundedI1 [OF off(3), of r]
    by (simp add: not_less nat_le_iff pb_append_def Let_def b'_def vec_resize_def r_def [symmetric] v_def [symmetric])
qed

lemma append_overflow:
  "0 < len \<Longrightarrow> pb_offset b + len \<ge> 2 ^ 31 \<Longrightarrow> pb_append data len mem b = SignedOverflow"
  by (simp add: pb_append_def int32_add_def)

lemma pb_inv_step:
  assumes inv: "pb_inv mem b" and ok: "op_ok op mem" and run: "pb_step op mem b = PbOk (mem', b')"
  shows "pb_inv mem' b'"
proof (cases op)
  case (OpAppend data len)
  consider "len \<le> 0" | "0 < len" "pb_offset b + len \<ge> 2 ^ 31" | "0 < len" "pb_offset b + len < 2 ^ 31" by linarith
  then show ?thesis
  proof cases
    case 1
    then show ?thesis using OpAppend run inv by (simp add: pb_append_def)
  next
    case 2
    then show ?thesis using OpAppend run append_overflow by simp
  next
    case 3
    have len: "len \<le> int (length data)" using ok OpAppend by simp
    show ?thesis
    proof (cases "pb_is_dynamic b")
      case True
      then show ?thesis
        using append_dynamic [OF inv True 3(1) len 3(2)] run OpAppend inv 3(1) by (auto simp: pb_inv_def)
    next
      case False
      then show ?thesis
        using append_external [OF inv False 3(1) len 3(2)] run OpAppend inv 3(1) len
        by (auto simp: pb_inv_def nat_add_distrib split: if_splits)
    qed
  qed
next
  case (OpResize sz)
  then show ?thesis using assms
    by (auto simp: pb_resize_def vec_resize_def pb_inv_def Let_def split: if_splits option.splits)
qed (use assms in \<open>auto simp: pb_inv_def pb_set_def pb_set_dynamic_def vec_reserve_def pb_reset_def pb_set_offset_def
    pb_reserve_def pb_copy_def pb_move_def Let_def split: if_splits option.splits\<close>)

lemma pb_reach_inv: "pb_reach mem b \<Longrightarrow> pb_inv mem b"
proof (induction rule: pb_reach.induct)
  case (step mem b op mem' b')
  then show ?case using pb_inv_step by blast
qed (auto simp: pb_inv_def packet_buffer_empty_def packet_buffer_dynamic_def packet_buffer_external_def pb_set_def
    vec_reserve_def Let_def)



section \<open>What an append stores\<close>



text \<open>So a fresh buffer of its own forgets every message.\<close>

lemma dynamic_append_loses_data:
  assumes "data \<noteq> []" "length data < 2 ^ 31"
  shows "\<exists>b. pb_append data (int (length data)) mem (packet_buffer_dynamic cap opt) = PbOk (mem, b)
    \<and> raw_bytes mem b = replicate (length data) 0"
proof -
  let ?b = "packet_buffer_dynamic cap opt"
  have b: "pb_is_dynamic ?b" "pb_offset ?b = 0" "dynamic_buffer ?b = []"
    by (simp_all add: packet_buffer_dynamic_def packet_buffer_empty_def vec_reserve_def Let_def)
  from append_dynamic [OF pb_reach_inv [OF pb_reach.dynamic] b(1), of "int (length data)" data mem] assms
  show ?thesis by (simp add: b raw_bytes_def kept_bytes_def)
qed

text \<open>A copy shares an array of the caller and has its own vector.\<close>

lemma copy_shares_external:
  assumes "pb_append data len mem (pb_copy b) = PbOk (mem', b')" "\<not> pb_is_dynamic b" "external_buffer b = Some a"
  shows "raw_bytes mem' b = mem' a \<and> raw_bytes mem' b' = mem' a"
  using assms by (auto simp: pb_append_def pb_copy_def ensure_capacity_def copy_in_def raw_bytes_def Let_def
      split: if_splits option.splits)

end
