(* ===== verification/Spin_Lock.thy ===== *)
theory Spin_Lock
  imports Prelude
begin

text \<open>
  The spin lock that guards a channel's write queue: \<open>spin_lock\<close> and its \<open>guard\<close> of
  \<open>common/core/spin_lock.hpp\<close>. A thread is outside, in the loop of \<open>lock\<close>, or inside; one step is one
  atomic access of \<open>lock_\<close> by one of any number of threads. Both accesses are acquire and release
  operations on one flag, so that an interleaving of atomic steps is their semantics.
\<close>

datatype lock_pc = Outside | Spinning | Inside

record 't spin_lock =
  sl_flag :: bool
  sl_pc :: "'t \<Rightarrow> lock_pc"

definition spin_init :: "'t spin_lock" where
  "spin_init = \<lparr>sl_flag = False, sl_pc = \<lambda>_. Outside\<rparr>"

text \<open>\<open>test_and_set\<close> sets the flag and returns the value it had.\<close>

definition test_and_set :: "'t spin_lock \<Rightarrow> 't spin_lock \<times> bool" where
  "test_and_set s = (s\<lparr>sl_flag := True\<rparr>, sl_flag s)"

definition lock_call :: "'t \<Rightarrow> 't spin_lock \<Rightarrow> 't spin_lock" where
  "lock_call t s = s\<lparr>sl_pc := (sl_pc s)(t := Spinning)\<rparr>"

text \<open>One round of the loop of \<open>lock\<close>: it yields and tries again while the flag was set.\<close>

definition lock_round :: "'t \<Rightarrow> 't spin_lock \<Rightarrow> 't spin_lock" where
  "lock_round t s =
    (case test_and_set s of (s, was_set) \<Rightarrow> if was_set then s else s\<lparr>sl_pc := (sl_pc s)(t := Inside)\<rparr>)"

definition unlock :: "'t \<Rightarrow> 't spin_lock \<Rightarrow> 't spin_lock" where
  "unlock t s = s\<lparr>sl_flag := False, sl_pc := (sl_pc s)(t := Outside)\<rparr>"

inductive spin_step :: "'t spin_lock \<Rightarrow> 't spin_lock \<Rightarrow> bool" where
  call: "sl_pc s t = Outside \<Longrightarrow> spin_step s (lock_call t s)"
| attempt: "sl_pc s t = Spinning \<Longrightarrow> spin_step s (lock_round t s)"
| release: "sl_pc s t = Inside \<Longrightarrow> spin_step s (unlock t s)"

inductive spin_reach :: "'t spin_lock \<Rightarrow> bool" where
  start: "spin_reach spin_init"
| step: "spin_reach s \<Longrightarrow> spin_step s s' \<Longrightarrow> spin_reach s'"

inductive_cases spin_stepE: "spin_step s s'"

text \<open>The flag is set exactly while some thread is inside, and then it is the only one.\<close>

definition spin_inv :: "'t spin_lock \<Rightarrow> bool" where
  "spin_inv s \<longleftrightarrow> (sl_flag s \<longleftrightarrow> (\<exists>t. sl_pc s t = Inside))
    \<and> (\<forall>t u. sl_pc s t = Inside \<longrightarrow> sl_pc s u = Inside \<longrightarrow> t = u)"

lemma spin_step_inv: "spin_inv s \<Longrightarrow> spin_step s s' \<Longrightarrow> spin_inv s'"
  by (erule spin_stepE)
     (auto simp: spin_inv_def lock_call_def lock_round_def test_and_set_def unlock_def split: if_splits,
      (metis lock_pc.distinct(3))+)

lemma spin_reach_inv: "spin_reach s \<Longrightarrow> spin_inv s"
proof (induction rule: spin_reach.induct)
  case start
  show ?case by (simp add: spin_inv_def spin_init_def)
qed (rule spin_step_inv)

text \<open>
  The lock excludes: in every reachable state at most one thread is inside. And it is never lost: a thread
  that tries while none is inside gets in at once, and one that tries while another is inside changes nothing.
\<close>

lemma spin_lock_correct:
  assumes "spin_reach s"
  shows "(sl_pc s t = Inside \<and> sl_pc s u = Inside \<longrightarrow> t = u)
    \<and> ((\<forall>v. sl_pc s v \<noteq> Inside) \<longrightarrow> sl_pc (lock_round t s) t = Inside)
    \<and> (sl_pc s v = Inside \<longrightarrow> lock_round t s = s)"
  using spin_reach_inv [OF assms]
  by (auto simp: spin_inv_def lock_round_def test_and_set_def)

end
