(* ===== verification/Player_Dao.thy ===== *)
theory Player_Dao
  imports Components "HOL-Library.Multiset"
begin

text \<open>
  Persistence (\<open>server/db\<close>): the connection pool, the retry loops of the player DAO, the
  transaction guard and the failure sink. The MySQL server is code outside the repository: what it
  answers is a parameter, one outcome for each attempt, and an outcome also says whether
  a connection could be acquired within the five seconds of \<open>wait_for\<close>. Sleeping between attempts is
  recorded as a list of delays in milliseconds.
\<close>

section \<open>Number formats\<close>

text \<open>\<open>%d\<close> and \<open>%lld\<close>, and \<open>%.4f\<close>, which rounds the exact value to the nearest multiple of 0.0001, ties to even.\<close>

definition digit :: "nat \<Rightarrow> byte" where
  "digit n = 0x30 + of_nat (n mod 10)"

fun dec_digits :: "nat \<Rightarrow> bytes" where
  "dec_digits n = (if n < 10 then [digit n] else dec_digits (n div 10) @ [digit n])"

declare dec_digits.simps [simp del]

definition fmt_d :: "int \<Rightarrow> bytes" where
  "fmt_d i = (if i < 0 then str ''-'' else []) @ dec_digits (nat \<bar>i\<bar>)"

definition round_half_even :: "nat \<Rightarrow> nat \<Rightarrow> nat" where
  "round_half_even p q =
    (let m = p div q; r = p mod q in if 2 * r > q \<or> (2 * r = q \<and> odd m) then m + 1 else m)"

definition fmt_f4 :: "f32 \<Rightarrow> bytes" where
  "fmt_f4 x = (if f_sign x then str ''-'' else []) @
    (if f_isnan x then str ''nan''
     else if f_isinf x then str ''inf''
     else let n = round_half_even (f_mag x * 10 ^ 4) (2 ^ 149)
          in dec_digits (n div 10 ^ 4) @ str ''.''
             @ [digit (n div 1000), digit (n div 100), digit (n div 10), digit n])"

section \<open>Connection pool\<close>

record db_pool =
  dp_size :: nat
  dp_connections :: nat
  dp_free_indices :: "nat list"
  dp_open :: bool

definition DbConnectionPool :: "nat \<Rightarrow> db_pool" where
  "DbConnectionPool n = \<lparr>dp_size = n, dp_connections = 0, dp_free_indices = [], dp_open = False\<rparr>"

definition db_close :: "db_pool \<Rightarrow> db_pool" where
  "db_close p = p\<lparr>dp_connections := 0, dp_free_indices := [], dp_open := False\<rparr>"

text \<open>The loop of \<open>open\<close>: \<open>connect i\<close> says whether connection \<open>i\<close> can be established.\<close>

fun db_open_loop :: "(nat \<Rightarrow> bool) \<Rightarrow> nat list \<Rightarrow> db_pool \<Rightarrow> db_pool \<times> bool" where
  "db_open_loop connect [] p = (p\<lparr>dp_open := True\<rparr>, True)"
| "db_open_loop connect (i # is) p =
     (if \<not> connect i then (db_close p, False)
      else db_open_loop connect is (p\<lparr>dp_free_indices := dp_free_indices p @ [i]\<rparr>))"

definition db_open :: "(nat \<Rightarrow> bool) \<Rightarrow> db_pool \<Rightarrow> db_pool \<times> bool" where
  "db_open connect p =
    (if dp_open p then (p, True)
     else db_open_loop connect [0..<dp_size p] (p\<lparr>dp_connections := dp_size p\<rparr>))"

text \<open>\<open>None\<close> is the invalid connection after the time-out.\<close>

definition db_acquire :: "db_pool \<Rightarrow> db_pool \<times> nat option" where
  "db_acquire p =
    (case dp_free_indices p of
       [] \<Rightarrow> (p, None)
     | idx # rest \<Rightarrow> (p\<lparr>dp_free_indices := rest\<rparr>, Some idx))"

definition db_release :: "nat \<Rightarrow> db_pool \<Rightarrow> db_pool" where
  "db_release idx p = p\<lparr>dp_free_indices := dp_free_indices p @ [idx]\<rparr>"

text \<open>\<open>raw\<close> indexes a vector; outside of it the access is undefined.\<close>

definition raw_ok :: "db_pool \<Rightarrow> nat \<Rightarrow> bool" where
  "raw_ok p idx \<longleftrightarrow> idx < dp_connections p"

section \<open>Retries\<close>

definition is_retryable_mysql_error :: "u32 \<Rightarrow> bool" where
  "is_retryable_mysql_error err \<longleftrightarrow> err = 2006 \<or> err = 2013 \<or> err = 1213 \<or> err = 1205"

definition kMaxAttempts :: nat where
  "kMaxAttempts = 3"

definition retry_delay :: "nat \<Rightarrow> nat" where
  "retry_delay attempt = 50 * attempt"

record player_record =
  pr_id :: int
  pr_name :: bytes
  pr_level :: int
  pr_exp :: int
  pr_hp :: int
  pr_max_hp :: int
  pr_pos_x :: f32
  pr_pos_y :: f32
  pr_pos_z :: f32
  pr_map_id :: int

text \<open>
  The calls of \<open>fetch_by_conn\<close> in their order, with what the client library returns: whether a
  statement could be allocated, the return codes (zero is success), and the row that was fetched.
\<close>

record fetch_calls =
  fc_init :: bool
  fc_prepare :: int
  fc_bind_param :: bool
  fc_execute :: int
  fc_bind_result :: bool
  fc_fetch :: int
  fc_row :: player_record

definition MYSQL_NO_DATA :: int where
  "MYSQL_NO_DATA = 100"

definition fetch_by_conn :: "fetch_calls \<Rightarrow> player_record option" where
  "fetch_by_conn f =
    (if \<not> fc_init f then None
     else if fc_prepare f \<noteq> 0 then None
     else if fc_bind_param f then None
     else if fc_execute f \<noteq> 0 then None
     else if fc_bind_result f then None
     else let rc = fc_fetch f in
       if rc = MYSQL_NO_DATA then None
       else if rc \<noteq> 0 then None
       else Some (fc_row f))"

text \<open>\<open>find_by_name\<close> without retries; \<open>None\<close> for the calls: no connection.\<close>

definition find_by_name :: "fetch_calls option \<Rightarrow> player_record option" where
  "find_by_name conn = (case conn of None \<Rightarrow> None | Some f \<Rightarrow> fetch_by_conn f)"

text \<open>
  One attempt of \<open>find_or_create\<close>: no connection, a statement that could not be prepared (the
  source goes on to the \<open>SELECT\<close>), an \<open>INSERT\<close> that succeeded or failed with an error number, and
  what the \<open>SELECT\<close> then returns.
\<close>

datatype insert_outcome = NotPrepared | InsertOk | InsertError u32

record create_attempt =
  ca_connected :: bool
  ca_insert :: insert_outcome
  ca_select :: fetch_calls

function find_or_create_loop :: "(nat \<Rightarrow> create_attempt) \<Rightarrow> nat \<Rightarrow> player_record option \<times> nat list" where
  "find_or_create_loop db attempt =
    (if \<not> attempt \<le> kMaxAttempts then (None, [])
     else if \<not> ca_connected (db attempt) then (None, [])
     else let delay = (if attempt < kMaxAttempts then [retry_delay attempt] else []);
              again = (let (r, ds) = find_or_create_loop db (attempt + 1) in (r, delay @ ds))
          in case ca_insert (db attempt) of
               InsertError err \<Rightarrow> if \<not> is_retryable_mysql_error err then (None, []) else again
             | _ \<Rightarrow> (case fetch_by_conn (ca_select (db attempt)) of Some rec \<Rightarrow> (Some rec, []) | None \<Rightarrow> again))"
  by pat_completeness auto
termination
  by (relation "measure (\<lambda>(db, attempt). Suc kMaxAttempts - attempt)") auto

declare find_or_create_loop.simps [simp del]

definition find_or_create :: "(nat \<Rightarrow> create_attempt) \<Rightarrow> player_record option \<times> nat list" where
  "find_or_create db = find_or_create_loop db 1"

text \<open>
  One attempt of \<open>save_position\<close> or \<open>save_stats\<close>: no connection, success, or an error number. The two
  functions differ in the text of the query only, which \<open>snprintf\<close> cuts at 255 bytes. The
  database is a function of the query and the attempt.
\<close>

datatype save_attempt = NoConnection | QueryOk | QueryError u32

function save_loop :: "(nat \<Rightarrow> save_attempt) \<Rightarrow> nat \<Rightarrow> bool \<times> nat list" where
  "save_loop db attempt =
    (if \<not> attempt \<le> kMaxAttempts then (False, [])
     else case db attempt of
       NoConnection \<Rightarrow> (False, [])
     | QueryOk \<Rightarrow> (True, [])
     | QueryError err \<Rightarrow>
         if \<not> is_retryable_mysql_error err then (False, [])
         else let delay = (if attempt < kMaxAttempts then [retry_delay attempt] else []);
                  (r, ds) = save_loop db (attempt + 1)
              in (r, delay @ ds))"
  by pat_completeness auto
termination
  by (relation "measure (\<lambda>(db, attempt). Suc kMaxAttempts - attempt)") auto

declare save_loop.simps [simp del]

definition position_query :: "int \<Rightarrow> f32 \<Rightarrow> f32 \<Rightarrow> f32 \<Rightarrow> int \<Rightarrow> bytes" where
  "position_query pid x y z mid = take 255
    (str ''UPDATE players SET pos_x='' @ fmt_f4 x @ str '', pos_y='' @ fmt_f4 y @ str '', pos_z='' @ fmt_f4 z
     @ str '', map_id='' @ fmt_d mid @ str '', last_login=NOW() '' @ str ''WHERE id='' @ fmt_d pid)"

definition stats_query :: "int \<Rightarrow> int \<Rightarrow> int \<Rightarrow> int \<Rightarrow> bytes" where
  "stats_query pid lv ex h = take 255
    (str ''UPDATE players SET level='' @ fmt_d lv @ str '', exp='' @ fmt_d ex @ str '', hp='' @ fmt_d h
     @ str '' WHERE id='' @ fmt_d pid)"

definition save_position ::
  "(bytes \<Rightarrow> nat \<Rightarrow> save_attempt) \<Rightarrow> int \<Rightarrow> f32 \<Rightarrow> f32 \<Rightarrow> f32 \<Rightarrow> int \<Rightarrow> bool \<times> nat list" where
  "save_position db pid x y z mid = save_loop (db (position_query pid x y z mid)) 1"

definition save_stats ::
  "(bytes \<Rightarrow> nat \<Rightarrow> save_attempt) \<Rightarrow> int \<Rightarrow> int \<Rightarrow> int \<Rightarrow> int \<Rightarrow> bool \<times> nat list" where
  "save_stats db pid lv ex h = save_loop (db (stats_query pid lv ex h)) 1"

section \<open>Transactions\<close>

text \<open>
  The queries that a transaction sends; \<open>ok\<close> says whether \<open>COMMIT\<close> succeeds. The body calls
  \<open>commit\<close> or not.
\<close>

datatype tx_query = BEGIN | COMMIT | ROLLBACK

record transaction =
  tx_valid :: bool
  tx_committed :: bool

definition Transaction :: "bool \<Rightarrow> transaction \<times> tx_query list" where
  "Transaction valid = (\<lparr>tx_valid = valid, tx_committed = False\<rparr>, if valid then [BEGIN] else [])"

definition tx_commit :: "bool \<Rightarrow> transaction \<Rightarrow> transaction \<times> tx_query list \<times> bool" where
  "tx_commit ok t =
    (if \<not> tx_valid t then (t, [], False)
     else if \<not> ok then (t, [COMMIT], False)
     else (t\<lparr>tx_committed := True\<rparr>, [COMMIT], True))"

definition tx_destroy :: "transaction \<Rightarrow> tx_query list" where
  "tx_destroy t = (if tx_valid t \<and> \<not> tx_committed t then [ROLLBACK] else [])"

section \<open>Failure sink\<close>

record player_save_snapshot =
  ps_player_id :: int
  ps_player_name :: bytes
  ps_operation :: bytes
  ps_pos_x :: f32
  ps_pos_y :: f32
  ps_pos_z :: f32
  ps_map_id :: int
  ps_level :: int
  ps_exp :: int
  ps_hp :: int
  ps_attempts :: int
  ps_error_msg :: bytes

definition quote_byte :: byte where "quote_byte = 0x22"
definition backslash :: byte where "backslash = 0x5C"

fun esc :: "bytes \<Rightarrow> bytes" where
  "esc [] = []"
| "esc (c # src) =
     (if c = quote_byte then [backslash, quote_byte]
      else if c = backslash then [backslash, backslash]
      else [c]) @ esc src"

text \<open>\<open>c_str()\<close> ends at the first zero byte.\<close>

definition c_str :: "bytes \<Rightarrow> bytes" where
  "c_str s = takeWhile (\<lambda>c. c \<noteq> 0) s"

text \<open>
  The line that \<open>record\<close> writes. The time stamp \<open>ts\<close> comes from the clock and is a parameter. The
  buffer has 1024 bytes, the last one for the terminator.
\<close>

definition sink_line :: "bytes \<Rightarrow> player_save_snapshot \<Rightarrow> bytes" where
  "sink_line ts s = take 1023
    (str ''{\"ts\":\"'' @ ts @ str ''\",\"op\":\"'' @ c_str (ps_operation s)
     @ str ''\",\"player_id\":'' @ fmt_d (ps_player_id s)
     @ str '',\"name\":\"'' @ c_str (esc (ps_player_name s))
     @ str ''\",\"x\":'' @ fmt_f4 (ps_pos_x s) @ str '',\"y\":'' @ fmt_f4 (ps_pos_y s)
     @ str '',\"z\":'' @ fmt_f4 (ps_pos_z s)
     @ str '',\"map_id\":'' @ fmt_d (ps_map_id s) @ str '',\"level\":'' @ fmt_d (ps_level s)
     @ str '',\"exp\":'' @ fmt_d (ps_exp s) @ str '',\"hp\":'' @ fmt_d (ps_hp s)
     @ str '',\"attempts\":'' @ fmt_d (ps_attempts s)
     @ str '',\"error\":\"'' @ c_str (esc (ps_error_msg s)) @ str ''\"}'')"

text \<open>\<open>record\<close>: the line goes to the file, or to the standard error stream when that fails.\<close>

datatype sink_output = ToFile bytes | ToStderr bytes

definition sink_record ::
  "bool \<Rightarrow> bool \<Rightarrow> bytes \<Rightarrow> player_save_snapshot \<Rightarrow> sink_output list" where
  "sink_record file_open write_fails ts s =
    (let line = sink_line ts s in
     if file_open
     then (if write_fails then [ToFile line, ToStderr line] else [ToFile line])
     else [ToStderr line])"

section \<open>The pool hands out every connection at most once\<close>

inductive pool_reach :: "nat \<Rightarrow> db_pool \<Rightarrow> nat list \<Rightarrow> bool" where
  opened: "db_open connect (DbConnectionPool n) = (p, True) \<Longrightarrow> pool_reach n p []"
| acquired: "pool_reach n p held \<Longrightarrow> db_acquire p = (p', Some i) \<Longrightarrow> pool_reach n p' (i # held)"
| released: "pool_reach n p held \<Longrightarrow> i \<in> set held \<Longrightarrow> pool_reach n (db_release i p) (remove1 i held)"

lemma db_open_loop_ok:
  "db_open_loop connect is p = (p', True) \<Longrightarrow>
     dp_free_indices p' = dp_free_indices p @ is \<and> dp_connections p' = dp_connections p \<and> dp_open p'"
  by (induction "is" arbitrary: p) (auto split: if_splits)

lemma pool_reach_inv:
  "pool_reach n p held \<Longrightarrow> mset (dp_free_indices p @ held) = mset [0..<n] \<and> dp_connections p = n"
proof (induction rule: pool_reach.induct)
  case (opened connect n p)
  then show ?case
    using db_open_loop_ok [of connect "[0..<n]" _ p]
    by (auto simp: db_open_def DbConnectionPool_def)
next
  case (acquired n p held p' i)
  then show ?case by (auto simp: db_acquire_def split: list.splits)
next
  case (released n p held i)
  then show ?case by (simp add: db_release_def)
qed

text \<open>
  C35: Whatever the order of acquisitions and releases, every connection of an opened pool is either
  free or held, never both and never held twice; every held connection is a valid index; and
  acquiring fails only when all connections are held.
\<close>

theorem pool_is_exclusive:
  assumes "pool_reach n p held"
  shows "distinct (dp_free_indices p @ held) \<and> set (dp_free_indices p @ held) = {0..<n}
    \<and> (\<forall>i \<in> set held. raw_ok p i) \<and> (snd (db_acquire p) = None \<longleftrightarrow> length held = n)"
proof -
  note inv = pool_reach_inv [OF assms]
  have "distinct (dp_free_indices p @ held)" using inv by (metis distinct_upt mset_eq_imp_distinct_iff)
  moreover have "set (dp_free_indices p @ held) = {0..<n}" using inv by (metis mset_eq_setD set_upt)
  moreover have "length (dp_free_indices p) + length held = n"
    using inv by (metis length_append length_upt mset_eq_length diff_zero)
  ultimately show ?thesis
    using inv by (auto simp: raw_ok_def db_acquire_def split: list.splits)
qed

theorem pool_is_exclusive_witness:
  "\<exists>p. pool_reach 2 p [0] \<and> dp_free_indices p = [1] \<and> distinct (dp_free_indices p @ [0])
    \<and> set (dp_free_indices p @ [0]) = {0..<2} \<and> raw_ok p 0"
proof -
  define p where "p = \<lparr>dp_size = 2, dp_connections = 2, dp_free_indices = [0, 1], dp_open = True\<rparr>"
  have "db_open (\<lambda>_. True) (DbConnectionPool 2) = (p, True)"
    by (simp add: db_open_def DbConnectionPool_def p_def numeral_2_eq_2)
  moreover have "db_acquire p = (p\<lparr>dp_free_indices := [1]\<rparr>, Some 0)" by (simp add: db_acquire_def p_def)
  ultimately have "pool_reach 2 (p\<lparr>dp_free_indices := [1]\<rparr>) [0]" by (rule acquired [OF opened])
  from this pool_is_exclusive [OF this] show ?thesis by (intro exI [of _ "p\<lparr>dp_free_indices := [1]\<rparr>"]) auto
qed

text \<open>A connection that is returned after \<open>close\<close> is handed out again, and indexes an empty vector.\<close>

lemma release_after_close:
  "db_acquire (db_release i (db_close p)) = (db_close p, Some i) \<and> \<not> raw_ok (db_close p) i"
  by (simp add: db_acquire_def db_release_def db_close_def raw_ok_def)

section \<open>Retry loops\<close>

definition save_retryable :: "save_attempt \<Rightarrow> bool" where
  "save_retryable a \<longleftrightarrow> (\<exists>err. a = QueryError err \<and> is_retryable_mysql_error err)"

lemma save_loop_unfold:
  "save_loop db 1 =
    (if \<not> save_retryable (db 1) then (db 1 = QueryOk, [])
     else if \<not> save_retryable (db 2) then (db 2 = QueryOk, [50])
     else (db 3 = QueryOk, [50, 100]))"
proof -
  have 4: "save_loop db 4 = (False, [])" by (subst save_loop.simps) (simp add: kMaxAttempts_def)
  have 3: "save_loop db 3 = (db 3 = QueryOk, [])"
    by (subst save_loop.simps) (simp add: kMaxAttempts_def 4 Let_def split: save_attempt.split)
  have 2: "save_loop db 2 = (if \<not> save_retryable (db 2) then (db 2 = QueryOk, []) else (db 3 = QueryOk, [100]))"
    by (subst save_loop.simps)
      (auto simp: kMaxAttempts_def 3 Let_def save_retryable_def retry_delay_def split: save_attempt.split)
  show ?thesis
    by (subst save_loop.simps)
      (auto simp: kMaxAttempts_def 2 Let_def save_retryable_def retry_delay_def numeral_2_eq_2 [symmetric]
        split: save_attempt.split)
qed

definition saved_by :: "(nat \<Rightarrow> save_attempt) \<Rightarrow> bool" where
  "saved_by db \<longleftrightarrow> (\<exists>k. 1 \<le> k \<and> k \<le> 3 \<and> db k = QueryOk \<and> (\<forall>j. 1 \<le> j \<and> j < k \<longrightarrow> save_retryable (db j)))"

lemma saved_by_unfold:
  "saved_by db \<longleftrightarrow> db 1 = QueryOk \<or> save_retryable (db 1) \<and> db 2 = QueryOk
     \<or> save_retryable (db 1) \<and> save_retryable (db 2) \<and> db 3 = QueryOk"
proof -
  have upto: "1 \<le> k \<and> k \<le> 3 \<longleftrightarrow> k = 1 \<or> k = 2 \<or> k = 3" for k :: nat by auto
  have below: "1 \<le> j \<and> j < 2 \<longleftrightarrow> j = 1" "1 \<le> j \<and> j < 3 \<longleftrightarrow> j = 1 \<or> j = 2" for j :: nat by auto
  have "saved_by db \<longleftrightarrow> (\<exists>k. (k = 1 \<or> k = 2 \<or> k = 3) \<and> db k = QueryOk
      \<and> (\<forall>j. 1 \<le> j \<and> j < k \<longrightarrow> save_retryable (db j)))"
    unfolding saved_by_def conj_assoc [symmetric] upto by (simp only: conj_assoc)
  also have "\<dots> \<longleftrightarrow> db 1 = QueryOk \<or> save_retryable (db 1) \<and> db 2 = QueryOk
     \<or> save_retryable (db 1) \<and> save_retryable (db 2) \<and> db 3 = QueryOk"
    by (simp only: conj_disj_distribR ex_disj_distrib simp_thms below) auto
  finally show ?thesis .
qed

lemma save_loop_correct:
  "(fst (save_loop db 1) \<longleftrightarrow> saved_by db) \<and> sum_list (snd (save_loop db 1)) \<le> 150
     \<and> length (snd (save_loop db 1)) < kMaxAttempts"
proof -
  have ok: "db k = QueryOk \<Longrightarrow> \<not> save_retryable (db k)" for k by (simp add: save_retryable_def)
  show ?thesis
    unfolding save_loop_unfold saved_by_unfold
    using ok [of 1] ok [of 2] by (auto simp: kMaxAttempts_def save_retryable_def)
qed

lemma length_dec_digits: "n < 10 ^ Suc k \<Longrightarrow> length (dec_digits n) \<le> Suc k"
proof (induction k arbitrary: n)
  case 0
  then show ?case by (simp add: dec_digits.simps)
next
  case (Suc k)
  have "n div 10 < 10 ^ Suc k" using Suc.prems by (simp add: less_mult_imp_div_less)
  from Suc.IH [OF this] show ?case by (subst dec_digits.simps) simp
qed

lemma length_fmt_int32: "- (2 ^ 31) \<le> i \<Longrightarrow> i < 2 ^ 31 \<Longrightarrow> length (fmt_d i) \<le> 11"
proof -
  assume "- (2 ^ 31) \<le> i" "i < 2 ^ 31"
  then have "nat \<bar>i\<bar> < 10 ^ Suc 9" by simp
  from length_dec_digits [OF this] show ?thesis by (cases "i < 0") (simp_all add: fmt_d_def)
qed

lemma length_fmt_int64: "- (2 ^ 63) \<le> i \<Longrightarrow> i < 2 ^ 63 \<Longrightarrow> length (fmt_d i) \<le> 20"
proof -
  assume "- (2 ^ 63) \<le> i" "i < 2 ^ 63"
  then have "nat \<bar>i\<bar> < 10 ^ Suc 18" by simp
  from length_dec_digits [OF this] show ?thesis by (cases "i < 0") (simp_all add: fmt_d_def)
qed

lemma f_mag_finite:
  assumes "\<not> f_isnan x" "\<not> f_isinf x"
  shows "f_mag x < 2 ^ 277"
proof -
  let ?b = "f_abs_bits x"
  have b: "?b < 255 * 2 ^ 23" using assms by (simp add: f_isnan_def f_isinf_def f_inf_bits_def)
  then have e: "?b div 2 ^ 23 < 255" by (simp add: less_mult_imp_div_less)
  have m: "?b mod 2 ^ 23 < 2 ^ 23" by simp
  have "(2 ^ 23 + ?b mod 2 ^ 23) * 2 ^ (?b div 2 ^ 23 - 1) < 2 ^ 24 * (2 :: nat) ^ 253"
    using m e by (intro mult_less_le_imp_less power_increasing) auto
  moreover have "?b < (2 :: nat) ^ 277" using b by (rule less_trans) simp
  ultimately show ?thesis
    unfolding f_mag_def mag_of_bits_def Let_def by simp
qed

lemma length_fmt_f4: "length (fmt_f4 x) \<le> 45"
proof (cases "f_isnan x \<or> f_isinf x")
  case True
  then show ?thesis by (auto simp: fmt_f4_def)
next
  case False
  let ?n = "round_half_even (f_mag x * 10 ^ 4) (2 ^ 149)"
  have "f_mag x * 10 ^ 4 < 2 ^ 277 * 10 ^ 4" using False f_mag_finite [of x] by simp
  then have "f_mag x * 10 ^ 4 div 2 ^ 149 < 2 ^ 128 * 10 ^ 4" by (intro less_mult_imp_div_less) simp
  then have "?n \<le> 2 ^ 128 * 10 ^ 4" by (simp add: round_half_even_def Let_def)
  then have "?n div 10 ^ 4 \<le> 2 ^ 128 * 10 ^ 4 div 10 ^ 4" by (rule div_le_mono)
  then have "?n div 10 ^ 4 < 10 ^ Suc 38" by simp
  from length_dec_digits [OF this] show ?thesis using False by (simp add: fmt_f4_def Let_def)
qed



text \<open>The same loop with an \<open>INSERT\<close> and a \<open>SELECT\<close> in each attempt.\<close>

lemma find_or_create_attempts: "length (snd (find_or_create_loop db attempt)) \<le> kMaxAttempts - attempt"
proof (induction db attempt rule: find_or_create_loop.induct)
  case (1 db attempt)
  have "length (snd (let (r, ds) = find_or_create_loop db (attempt + 1)
      in (r, (if attempt < kMaxAttempts then [retry_delay attempt] else []) @ ds))) \<le> kMaxAttempts - attempt"
    if "attempt \<le> kMaxAttempts" "ca_connected (db attempt)"
      "length (snd (find_or_create_loop db (attempt + 1))) \<le> kMaxAttempts - (attempt + 1)"
    using that by (auto simp: case_prod_unfold Let_def)
  then show ?case
    using 1 by (subst find_or_create_loop.simps)
      (auto simp: Let_def split: insert_outcome.split option.split)
qed

section \<open>Transactions\<close>

text \<open>
  A transaction on a valid connection sends \<open>BEGIN\<close> first and ends with a successful \<open>COMMIT\<close> or
  with \<open>ROLLBACK\<close>, never with both, also when the commit fails or is not called; on an invalid
  connection it sends nothing.
\<close>

lemma transaction_closed:
  "(let (t, qs) = Transaction valid;
        (t', qs', committed) = (if body_commits then tx_commit ok t else (t, [], False));
        trace = qs @ qs' @ tx_destroy t'
    in committed = (valid \<and> body_commits \<and> ok)
       \<and> trace = (if \<not> valid then []
                  else if committed then [BEGIN, COMMIT]
                  else if body_commits then [BEGIN, COMMIT, ROLLBACK] else [BEGIN, ROLLBACK]))"
  by (simp add: Transaction_def tx_commit_def tx_destroy_def)

section \<open>The lines of the failure sink\<close>

text \<open>What a JSON reader does with the text behind an opening quote.\<close>

fun read_json_string :: "bytes \<Rightarrow> (bytes \<times> bytes) option" where
  "read_json_string [] = None"
| "read_json_string [c] = (if c = quote_byte then Some ([], []) else None)"
| "read_json_string (c # d # rest) =
     (if c = quote_byte then Some ([], d # rest)
      else if c = backslash then map_option (\<lambda>(s, r). (d # s, r)) (read_json_string rest)
      else map_option (\<lambda>(s, r). (c # s, r)) (read_json_string (d # rest)))"

lemma read_json_plain:
  "c \<noteq> quote_byte \<Longrightarrow> c \<noteq> backslash \<Longrightarrow>
     read_json_string (c # rest) = map_option (\<lambda>(s, r). (c # s, r)) (read_json_string rest)"
  by (cases rest) auto

text \<open>
  Escaping protects the fields of a snapshot: a reader that starts behind the opening quote of
  an escaped string gets the original string back and continues right behind the closing quote,
  whatever quotes and backslashes the string contains.
\<close>

lemma escaped_string_roundtrip:
  "read_json_string (esc s @ quote_byte # rest) = Some (s, rest)"
proof (induction s)
  case Nil
  show ?case by (cases rest) simp_all
next
  case (Cons c s)
  show ?case
    using Cons by (auto simp: quote_byte_def backslash_def read_json_plain)
qed

text \<open>A line break in a name is not escaped, so the record of such a player takes two lines.\<close>

lemma newline_is_not_escaped: "set (esc s) \<supseteq> set s"
  by (induction s) auto

text \<open>A record that does not fit the buffer loses its end: the line has no closing brace.\<close>

lemma long_record_is_cut:
  assumes "1023 < length (ps_player_name s)" "\<forall>c \<in> set (ps_player_name s). c = 0x61"
  shows "length (sink_line ts s) = 1023"
proof -
  have esc: "esc n = n \<and> c_str n = n" if "\<forall>c \<in> set n. c = 0x61" for n
    using that by (induction n) (auto simp: quote_byte_def backslash_def c_str_def)
  show ?thesis using assms esc [OF assms(2)] by (simp add: sink_line_def del: take_append)
qed

end
