(* ===== verification/Server_Config.thy ===== *)
theory Server_Config
  imports F32 "HOL-Library.AList"
begin

unbundle bit_operations_syntax

text \<open>
  The configuration (\<open>server/core/server_config.cpp\<close>, \<open>server_config.hpp\<close>) and what \<open>main\<close> takes from it.
  The JSON parser is a library; the loader is modelled on the value that it returns, with the typed reads
  \<open>get<T>()\<close> of that library: a wrong type raises an exception, a number of the wrong size is
  converted as \<open>static_cast\<close> does.
\<close>

section \<open>JSON values and typed reads\<close>

text \<open>A floating-point number is the bit pattern of its \<open>double\<close>.\<close>

datatype json =
    JNull
  | JBoolean bool
  | JUnsigned u64
  | JInteger int
  | JFloat u64
  | JString bytes
  | JArray "json list"
  | JObject "(bytes \<times> json) list"

text \<open>\<open>TypeError\<close> is the exception of \<open>get\<close>; \<open>Undefined\<close> the conversion of a \<open>double\<close> out of range.\<close>

datatype config_error = TypeError | Undefined

text \<open>\<open>find\<close>, \<open>contains\<close> and \<open>operator[]\<close> on a present key; other values than objects contain nothing.\<close>

fun json_find :: "bytes \<Rightarrow> json \<Rightarrow> json option" where
  "json_find key (JObject items) = map_of items key"
| "json_find key _ = None"

text \<open>A \<open>double\<close>: sign, and the magnitude \<open>m * 2 ^ (e - 1075)\<close>.\<close>

definition d_neg :: "u64 \<Rightarrow> bool" where
  "d_neg d = bit d 63"

definition d_exp :: "u64 \<Rightarrow> nat" where
  "d_exp d = unat (drop_bit 52 d) mod 2048"

definition d_frac :: "u64 \<Rightarrow> nat" where
  "d_frac d = unat d mod 2 ^ 52"

definition d_mant :: "u64 \<Rightarrow> nat" where
  "d_mant d = (if d_exp d = 0 then 2 * d_frac d else 2 ^ 52 + d_frac d)"

definition d_trunc :: "u64 \<Rightarrow> int option" where
  "d_trunc d =
    (if d_exp d = 2047 then None
     else let m = d_mant d * 2 ^ d_exp d div 2 ^ 1075 in Some (if d_neg d then - int m else int m))"

definition d_to_float :: "u64 \<Rightarrow> f32" where
  "d_to_float d =
    (if d_exp d = 2047 then if d_frac d = 0 then f_inf (d_neg d) else f_nan
     else f_pack (d_neg d) (round_mag (d_mant d * 2 ^ d_exp d * 2 ^ 149) (2 ^ 1075)))"

definition in_range :: "int \<Rightarrow> int \<Rightarrow> int option \<Rightarrow> (int \<Rightarrow> 'a) \<Rightarrow> config_error + 'a" where
  "in_range lo hi v f = (case v of None \<Rightarrow> Inl Undefined
     | Some i \<Rightarrow> if lo \<le> i \<and> i \<le> hi then Inr (f i) else Inl Undefined)"

fun get_string :: "json \<Rightarrow> config_error + bytes" where
  "get_string (JString s) = Inr s"
| "get_string _ = Inl TypeError"

fun get_bool :: "json \<Rightarrow> config_error + bool" where
  "get_bool (JBoolean b) = Inr b"
| "get_bool _ = Inl TypeError"

fun get_int :: "json \<Rightarrow> config_error + int" where
  "get_int (JUnsigned n) = Inr (to_int (ucast n))"
| "get_int (JInteger i) = Inr (to_int (to_u32 i))"
| "get_int (JFloat d) = in_range (- (2 ^ 31)) (2 ^ 31 - 1) (d_trunc d) id"
| "get_int (JBoolean b) = Inr (of_bool b)"
| "get_int _ = Inl TypeError"

fun get_u16 :: "json \<Rightarrow> config_error + u16" where
  "get_u16 (JUnsigned n) = Inr (ucast n)"
| "get_u16 (JInteger i) = Inr (word_of_int i)"
| "get_u16 (JFloat d) = in_range 0 65535 (d_trunc d) word_of_int"
| "get_u16 (JBoolean b) = Inr (of_bool b)"
| "get_u16 _ = Inl TypeError"

fun get_float :: "json \<Rightarrow> config_error + f32" where
  "get_float (JUnsigned n) = Inr (f_of_nat (unat n))"
| "get_float (JInteger i) = Inr (f_of_int i)"
| "get_float (JFloat d) = Inr (d_to_float d)"
| "get_float (JBoolean b) = Inr (f_of_nat (of_bool b))"
| "get_float _ = Inl TypeError"

section \<open>Configuration records\<close>

record db_config =
  dc_enabled :: bool
  dc_host :: bytes
  dc_port :: u16
  dc_name :: bytes
  dc_user :: bytes
  dc_password :: bytes
  dc_pool_size :: int

definition DbConfig :: db_config where
  "DbConfig = \<lparr>dc_enabled = False, dc_host = str ''127.0.0.1'', dc_port = 3306, dc_name = str ''lemondory_game'',
     dc_user = str ''game_user'', dc_password = [], dc_pool_size = 4\<rparr>"

record redis_config =
  rc_enabled :: bool
  rc_host :: bytes
  rc_port :: u16
  rc_password :: bytes
  rc_db_index :: int
  rc_token_ttl_sec :: int
  rc_player_ttl_sec :: int

definition RedisConfig :: redis_config where
  "RedisConfig = \<lparr>rc_enabled = False, rc_host = str ''127.0.0.1'', rc_port = 6379, rc_password = [],
     rc_db_index = 0, rc_token_ttl_sec = 7200, rc_player_ttl_sec = 1800\<rparr>"

record map_config =
  mc_id :: int
  mc_name :: bytes
  mc_width :: f32
  mc_height :: f32
  mc_max_players :: int

definition MapConfig :: map_config where
  "MapConfig = \<lparr>mc_id = 0, mc_name = [], mc_width = 0x447A0000, mc_height = 0x447A0000, mc_max_players = 100\<rparr>"

record server_config =
  sc_host :: bytes
  sc_port :: u16
  sc_backlog :: int
  sc_max_connections :: int
  sc_tcp_no_delay :: bool
  sc_log_level :: bytes
  sc_log_file :: bool
  sc_log_file_path :: bytes
  sc_io_threads :: int
  sc_map_threads_enabled :: bool
  sc_tick_rate :: int
  sc_use_ecs :: bool
  sc_memory_pool_size :: int
  sc_databases :: "(bytes \<times> db_config) list"
  sc_redis :: redis_config
  sc_maps :: "map_config list"

definition ServerConfig :: server_config where
  "ServerConfig = \<lparr>sc_host = str ''0.0.0.0'', sc_port = 12345, sc_backlog = 128, sc_max_connections = 1000,
     sc_tcp_no_delay = True, sc_log_level = str ''debug'', sc_log_file = False,
     sc_log_file_path = str ''logs/server.log'', sc_io_threads = 1, sc_map_threads_enabled = True,
     sc_tick_rate = 60, sc_use_ecs = True, sc_memory_pool_size = 1000,
     sc_databases = [(str ''game'', DbConfig), (str ''guild'', DbConfig), (str ''common'', DbConfig)],
     sc_redis = RedisConfig,
     sc_maps = [\<lparr>mc_id = 1, mc_name = str ''Forest'', mc_width = 0x447A0000, mc_height = 0x447A0000, mc_max_players = 100\<rparr>,
       \<lparr>mc_id = 2, mc_name = str ''Dungeon'', mc_width = 0x44480000, mc_height = 0x44480000, mc_max_players = 50\<rparr>,
       \<lparr>mc_id = 3, mc_name = str ''City'', mc_width = 0x44BB8000, mc_height = 0x44BB8000, mc_max_players = 200\<rparr>]\<rparr>"

section \<open>The loader\<close>

text \<open>\<open>if (s.contains(key)) field = s[key].get<T>()\<close>: one field of a section.\<close>

type_synonym 'c reader = "json \<Rightarrow> 'c \<Rightarrow> config_error + 'c"

definition read_field :: "string \<Rightarrow> (json \<Rightarrow> config_error + 'v) \<Rightarrow> ('v \<Rightarrow> 'c \<Rightarrow> 'c) \<Rightarrow> 'c reader" where
  "read_field key get put s cfg =
    (case json_find (str key) s of
       None \<Rightarrow> Inr cfg
     | Some v \<Rightarrow> (case get v of Inl e \<Rightarrow> Inl e | Inr x \<Rightarrow> Inr (put x cfg)))"

fun read_fields :: "'c reader list \<Rightarrow> 'c reader" where
  "read_fields [] s cfg = Inr cfg"
| "read_fields (r # rs) s cfg = (case r s cfg of Inl e \<Rightarrow> Inl e | Inr cfg \<Rightarrow> read_fields rs s cfg)"

definition read_section :: "string \<Rightarrow> 'c reader list \<Rightarrow> 'c reader" where
  "read_section key rs j cfg =
    (case json_find (str key) j of None \<Rightarrow> Inr cfg | Some s \<Rightarrow> read_fields rs s cfg)"

definition server_fields :: "server_config reader list" where
  "server_fields =
    [read_field ''host'' get_string (\<lambda>x c. c\<lparr>sc_host := x\<rparr>),
     read_field ''port'' get_u16 (\<lambda>x c. c\<lparr>sc_port := x\<rparr>),
     read_field ''backlog'' get_int (\<lambda>x c. c\<lparr>sc_backlog := x\<rparr>),
     read_field ''max_connections'' get_int (\<lambda>x c. c\<lparr>sc_max_connections := x\<rparr>),
     read_field ''tcp_no_delay'' get_bool (\<lambda>x c. c\<lparr>sc_tcp_no_delay := x\<rparr>),
     read_field ''tick_rate'' get_int (\<lambda>x c. c\<lparr>sc_tick_rate := x\<rparr>)]"

definition logging_fields :: "server_config reader list" where
  "logging_fields =
    [read_field ''level'' get_string (\<lambda>x c. c\<lparr>sc_log_level := x\<rparr>),
     read_field ''file'' get_bool (\<lambda>x c. c\<lparr>sc_log_file := x\<rparr>),
     read_field ''file_path'' get_string (\<lambda>x c. c\<lparr>sc_log_file_path := x\<rparr>)]"

definition threading_fields :: "server_config reader list" where
  "threading_fields =
    [read_field ''io_threads'' get_int (\<lambda>x c. c\<lparr>sc_io_threads := x\<rparr>),
     read_field ''map_threads_enabled'' get_bool (\<lambda>x c. c\<lparr>sc_map_threads_enabled := x\<rparr>)]"

definition game_fields :: "server_config reader list" where
  "game_fields =
    [read_field ''use_ecs'' get_bool (\<lambda>x c. c\<lparr>sc_use_ecs := x\<rparr>),
     read_field ''memory_pool_size'' get_int (\<lambda>x c. c\<lparr>sc_memory_pool_size := x\<rparr>)]"

definition map_fields :: "map_config reader list" where
  "map_fields =
    [read_field ''id'' get_int (\<lambda>x c. c\<lparr>mc_id := x\<rparr>),
     read_field ''name'' get_string (\<lambda>x c. c\<lparr>mc_name := x\<rparr>),
     read_field ''width'' get_float (\<lambda>x c. c\<lparr>mc_width := x\<rparr>),
     read_field ''height'' get_float (\<lambda>x c. c\<lparr>mc_height := x\<rparr>),
     read_field ''max_players'' get_int (\<lambda>x c. c\<lparr>mc_max_players := x\<rparr>)]"

definition db_fields :: "db_config reader list" where
  "db_fields =
    [read_field ''enabled'' get_bool (\<lambda>x c. c\<lparr>dc_enabled := x\<rparr>),
     read_field ''host'' get_string (\<lambda>x c. c\<lparr>dc_host := x\<rparr>),
     read_field ''port'' get_u16 (\<lambda>x c. c\<lparr>dc_port := x\<rparr>),
     read_field ''name'' get_string (\<lambda>x c. c\<lparr>dc_name := x\<rparr>),
     read_field ''user'' get_string (\<lambda>x c. c\<lparr>dc_user := x\<rparr>),
     read_field ''password'' get_string (\<lambda>x c. c\<lparr>dc_password := x\<rparr>),
     read_field ''pool_size'' get_int (\<lambda>x c. c\<lparr>dc_pool_size := x\<rparr>)]"

definition redis_fields :: "redis_config reader list" where
  "redis_fields =
    [read_field ''enabled'' get_bool (\<lambda>x c. c\<lparr>rc_enabled := x\<rparr>),
     read_field ''host'' get_string (\<lambda>x c. c\<lparr>rc_host := x\<rparr>),
     read_field ''port'' get_u16 (\<lambda>x c. c\<lparr>rc_port := x\<rparr>),
     read_field ''password'' get_string (\<lambda>x c. c\<lparr>rc_password := x\<rparr>),
     read_field ''db_index'' get_int (\<lambda>x c. c\<lparr>rc_db_index := x\<rparr>),
     read_field ''token_ttl_sec'' get_int (\<lambda>x c. c\<lparr>rc_token_ttl_sec := x\<rparr>),
     read_field ''player_ttl_sec'' get_int (\<lambda>x c. c\<lparr>rc_player_ttl_sec := x\<rparr>)]"

fun read_map_list :: "json list \<Rightarrow> map_config list \<Rightarrow> config_error + map_config list" where
  "read_map_list [] ms = Inr ms"
| "read_map_list (m # js) ms =
     (case read_fields map_fields m MapConfig of Inl e \<Rightarrow> Inl e | Inr mc \<Rightarrow> read_map_list js (ms @ [mc]))"

definition read_maps :: "server_config reader" where
  "read_maps j cfg =
    (case json_find (str ''maps'') j of
       Some (JArray (m # js)) \<Rightarrow>
         (case read_map_list (m # js) [] of Inl e \<Rightarrow> Inl e | Inr ms \<Rightarrow> Inr (cfg\<lparr>sc_maps := ms\<rparr>))
     | _ \<Rightarrow> Inr cfg)"

fun read_database_list :: "(bytes \<times> json) list \<Rightarrow> (bytes \<times> db_config) list \<Rightarrow> config_error + (bytes \<times> db_config) list" where
  "read_database_list [] dbs = Inr dbs"
| "read_database_list ((key, val) # items) dbs =
     (case read_fields db_fields val DbConfig of Inl e \<Rightarrow> Inl e
      | Inr dc \<Rightarrow> read_database_list items (AList.update key dc dbs))"

definition read_databases :: "server_config reader" where
  "read_databases j cfg =
    (case json_find (str ''databases'') j of
       Some (JObject items) \<Rightarrow>
         (case read_database_list items (sc_databases cfg) of Inl e \<Rightarrow> Inl e
          | Inr dbs \<Rightarrow> Inr (cfg\<lparr>sc_databases := dbs\<rparr>))
     | _ \<Rightarrow> Inr cfg)"

definition read_redis :: "server_config reader" where
  "read_redis j cfg =
    (case read_section ''redis'' redis_fields j (sc_redis cfg) of Inl e \<Rightarrow> Inl e
     | Inr r \<Rightarrow> Inr (cfg\<lparr>sc_redis := r\<rparr>))"

definition load_sections :: "server_config reader list" where
  "load_sections = [read_section ''server'' server_fields, read_section ''logging'' logging_fields,
     read_section ''threading'' threading_fields, read_section ''game'' game_fields, read_maps, read_databases,
     read_redis]"

text \<open>The file: it cannot be opened, it cannot be parsed, or it holds a value.\<close>

datatype config_file = FileMissing | FileBroken | FileJson json

fun load :: "config_file \<Rightarrow> config_error + server_config" where
  "load FileMissing = Inr ServerConfig"
| "load FileBroken = Inr ServerConfig"
| "load (FileJson j) = read_fields load_sections j ServerConfig"

section \<open>What \<open>main\<close> does with it\<close>

datatype level_enum = LvTrace | LvDebug | LvInfo | LvWarn | LvErr | LvCritical

definition parse_log_level :: "bytes \<Rightarrow> level_enum" where
  "parse_log_level s =
    (if s = str ''trace'' then LvTrace else if s = str ''debug'' then LvDebug else if s = str ''info'' then LvInfo
     else if s = str ''warn'' then LvWarn else if s = str ''error'' then LvErr
     else if s = str ''critical'' then LvCritical else LvDebug)"

record socket_option =
  so_reuse_address :: bool
  so_tcp_no_delay :: bool
  so_linger :: bool
  so_backlog :: int
  so_connect_timeout :: int

definition socket_option_default :: socket_option where
  "socket_option_default = \<lparr>so_reuse_address = False, so_tcp_no_delay = False, so_linger = False, so_backlog = 128, so_connect_timeout = 5\<rparr>"

definition set_linger :: "bool \<Rightarrow> socket_option \<Rightarrow> socket_option" where
  "set_linger enable opt = opt\<lparr>so_linger := enable\<rparr>"

definition set_reuse_address :: "bool \<Rightarrow> socket_option \<Rightarrow> socket_option" where
  "set_reuse_address enable opt = opt\<lparr>so_reuse_address := enable\<rparr>"

definition set_tcp_no_delay :: "bool \<Rightarrow> socket_option \<Rightarrow> socket_option" where
  "set_tcp_no_delay enable opt = opt\<lparr>so_tcp_no_delay := enable\<rparr>"

definition set_backlog :: "int \<Rightarrow> socket_option \<Rightarrow> socket_option" where
  "set_backlog n opt = opt\<lparr>so_backlog := n\<rparr>"

definition set_connect_timeout :: "int \<Rightarrow> socket_option \<Rightarrow> socket_option" where
  "set_connect_timeout n opt = opt\<lparr>so_connect_timeout := n\<rparr>"

definition main_options :: "server_config \<Rightarrow> socket_option" where
  "main_options cfg = set_tcp_no_delay (sc_tcp_no_delay cfg)
     (set_backlog (sc_backlog cfg) (set_reuse_address True socket_option_default))"

section \<open>Documents that can be loaded\<close>

text \<open>The type that each field of the file must have.\<close>

datatype field_ty = TyString | TyBool | TyInt | TyPort | TyFloat

definition trunc_in :: "int \<Rightarrow> int \<Rightarrow> u64 \<Rightarrow> bool" where
  "trunc_in lo hi d \<longleftrightarrow> (case d_trunc d of None \<Rightarrow> False | Some i \<Rightarrow> lo \<le> i \<and> i \<le> hi)"

fun has_type :: "field_ty \<Rightarrow> json \<Rightarrow> bool" where
  "has_type TyString (JString s) = True"
| "has_type TyBool (JBoolean b) = True"
| "has_type TyInt (JBoolean b) = True"
| "has_type TyInt (JUnsigned n) = True"
| "has_type TyInt (JInteger i) = True"
| "has_type TyInt (JFloat d) = trunc_in (- (2 ^ 31)) (2 ^ 31 - 1) d"
| "has_type TyPort (JBoolean b) = True"
| "has_type TyPort (JUnsigned n) = True"
| "has_type TyPort (JInteger i) = True"
| "has_type TyPort (JFloat d) = trunc_in 0 65535 d"
| "has_type TyFloat (JBoolean b) = True"
| "has_type TyFloat (JUnsigned n) = True"
| "has_type TyFloat (JInteger i) = True"
| "has_type TyFloat (JFloat d) = True"
| "has_type _ _ = False"

definition field_typed :: "string \<times> field_ty \<Rightarrow> json \<Rightarrow> bool" where
  "field_typed kt s \<longleftrightarrow> (case json_find (str (fst kt)) s of None \<Rightarrow> True | Some v \<Rightarrow> has_type (snd kt) v)"

definition section_typed :: "(string \<times> field_ty) list \<Rightarrow> json \<Rightarrow> bool" where
  "section_typed fts s \<longleftrightarrow> (\<forall>kt \<in> set fts. field_typed kt s)"

definition schema :: "(string \<times> (string \<times> field_ty) list) list" where
  "schema =
    [(''server'', [(''host'', TyString), (''port'', TyPort), (''backlog'', TyInt), (''max_connections'', TyInt),
        (''tcp_no_delay'', TyBool), (''tick_rate'', TyInt)]),
     (''logging'', [(''level'', TyString), (''file'', TyBool), (''file_path'', TyString)]),
     (''threading'', [(''io_threads'', TyInt), (''map_threads_enabled'', TyBool)]),
     (''game'', [(''use_ecs'', TyBool), (''memory_pool_size'', TyInt)]),
     (''redis'', [(''enabled'', TyBool), (''host'', TyString), (''port'', TyPort), (''password'', TyString),
        (''db_index'', TyInt), (''token_ttl_sec'', TyInt), (''player_ttl_sec'', TyInt)])]"

definition map_schema :: "(string \<times> field_ty) list" where
  "map_schema = [(''id'', TyInt), (''name'', TyString), (''width'', TyFloat), (''height'', TyFloat), (''max_players'', TyInt)]"

definition db_schema :: "(string \<times> field_ty) list" where
  "db_schema = [(''enabled'', TyBool), (''host'', TyString), (''port'', TyPort), (''name'', TyString),
     (''user'', TyString), (''password'', TyString), (''pool_size'', TyInt)]"

definition config_typed :: "json \<Rightarrow> bool" where
  "config_typed j \<longleftrightarrow>
    (\<forall>(sec, fts) \<in> set schema. case json_find (str sec) j of None \<Rightarrow> True | Some s \<Rightarrow> section_typed fts s)
    \<and> (case json_find (str ''maps'') j of Some (JArray ms) \<Rightarrow> \<forall>m \<in> set ms. section_typed map_schema m | _ \<Rightarrow> True)
    \<and> (case json_find (str ''databases'') j of
         Some (JObject items) \<Rightarrow> \<forall>(key, val) \<in> set items. section_typed db_schema val | _ \<Rightarrow> True)"

text \<open>A reader succeeds exactly on the documents of a predicate, whatever configuration it starts from.\<close>

definition reads :: "'c reader \<Rightarrow> (json \<Rightarrow> bool) \<Rightarrow> bool" where
  "reads r P \<longleftrightarrow> (\<forall>s c. (\<exists>c'. r s c = Inr c') \<longleftrightarrow> P s)"

lemma readsD: "reads r P \<Longrightarrow> (\<exists>c'. r s c = Inr c') \<longleftrightarrow> P s"
  by (simp add: reads_def)

lemma get_typed:
  "(\<exists>x. get_string v = Inr x) \<longleftrightarrow> has_type TyString v" "(\<exists>x. get_bool v = Inr x) \<longleftrightarrow> has_type TyBool v"
  "(\<exists>x. get_int v = Inr x) \<longleftrightarrow> has_type TyInt v" "(\<exists>x. get_u16 v = Inr x) \<longleftrightarrow> has_type TyPort v"
  "(\<exists>x. get_float v = Inr x) \<longleftrightarrow> has_type TyFloat v"
  by (cases v; auto simp: in_range_def trunc_in_def split: option.splits)+

lemma reads_field:
  assumes "\<And>v. (\<exists>x. get v = Inr x) \<longleftrightarrow> has_type ty v"
  shows "reads (read_field key get put) (field_typed (key, ty))"
  unfolding reads_def read_field_def field_typed_def
  by (auto simp: assms [symmetric] split: option.split sum.split)

lemmas reads_fields = reads_field [OF get_typed(1)] reads_field [OF get_typed(2)] reads_field [OF get_typed(3)]
  reads_field [OF get_typed(4)] reads_field [OF get_typed(5)]

lemma reads_all: "list_all2 reads rs Ps \<Longrightarrow> reads (read_fields rs) (\<lambda>s. \<forall>P \<in> set Ps. P s)"
proof (induction rule: list_all2_induct)
  case (Cons r rs P Ps)
  have "(\<exists>c'. read_fields (r # rs) s c = Inr c') \<longleftrightarrow> P s \<and> (\<forall>P \<in> set Ps. P s)" for s c
    using readsD [OF Cons(1), of s c] readsD [OF Cons(3), of s] by (cases "r s c") auto
  then show ?case by (simp add: reads_def)
qed (simp add: reads_def)

lemma reads_schema: "list_all2 reads rs (map field_typed fts) \<Longrightarrow> reads (read_fields rs) (section_typed fts)"
  using reads_all [of rs "map field_typed fts"] by (simp add: reads_def section_typed_def)

lemma reads_section:
  assumes "reads (read_fields rs) (section_typed fts)"
  shows "reads (read_section key rs) (\<lambda>j. case json_find (str key) j of None \<Rightarrow> True | Some s \<Rightarrow> section_typed fts s)"
  using assms by (auto simp: reads_def read_section_def split: option.split)

lemma section_readers:
  "reads (read_fields server_fields) (section_typed (snd (schema ! 0)))"
  "reads (read_fields logging_fields) (section_typed (snd (schema ! 1)))"
  "reads (read_fields threading_fields) (section_typed (snd (schema ! 2)))"
  "reads (read_fields game_fields) (section_typed (snd (schema ! 3)))"
  "reads (read_fields redis_fields) (section_typed (snd (schema ! 4)))"
  "reads (read_fields map_fields) (section_typed map_schema)" "reads (read_fields db_fields) (section_typed db_schema)"
  by (rule reads_schema, simp add: server_fields_def logging_fields_def threading_fields_def game_fields_def
      redis_fields_def map_fields_def db_fields_def schema_def map_schema_def db_schema_def reads_fields)+

lemma read_map_list_typed: "(\<exists>ms'. read_map_list js ms = Inr ms') \<longleftrightarrow> (\<forall>m \<in> set js. section_typed map_schema m)"
proof (induction js arbitrary: ms)
  case (Cons m js)
  show ?case
    using readsD [OF section_readers(6), of m MapConfig] Cons.IH
    by (cases "read_fields map_fields m MapConfig") auto
qed simp

lemma read_database_list_typed:
  "(\<exists>dbs'. read_database_list items dbs = Inr dbs') \<longleftrightarrow> (\<forall>(key, val) \<in> set items. section_typed db_schema val)"
proof (induction items arbitrary: dbs)
  case (Cons item items)
  show ?case
    using readsD [OF section_readers(7), of "snd item" DbConfig] Cons.IH
    by (cases item; cases "read_fields db_fields (snd item) DbConfig") auto
qed simp

lemma reads_lists:
  "reads read_maps (\<lambda>j. case json_find (str ''maps'') j of Some (JArray ms) \<Rightarrow> \<forall>m \<in> set ms. section_typed map_schema m | _ \<Rightarrow> True)"
  "reads read_databases (\<lambda>j. case json_find (str ''databases'') j of
     Some (JObject items) \<Rightarrow> \<forall>(key, val) \<in> set items. section_typed db_schema val | _ \<Rightarrow> True)"
proof -
  have *: "(\<exists>c'. (case m of Inl e \<Rightarrow> Inl e | Inr x \<Rightarrow> Inr (f x)) = Inr c') \<longleftrightarrow> (\<exists>x. m = Inr x)"
    for m :: "config_error + 'x" and f :: "'x \<Rightarrow> server_config" by (cases m) auto
  show "reads read_maps (\<lambda>j. case json_find (str ''maps'') j of Some (JArray ms) \<Rightarrow> \<forall>m \<in> set ms. section_typed map_schema m | _ \<Rightarrow> True)"
    unfolding reads_def read_maps_def by (auto simp: * read_map_list_typed simp del: read_map_list.simps split: option.split json.split list.split)
  show "reads read_databases (\<lambda>j. case json_find (str ''databases'') j of
     Some (JObject items) \<Rightarrow> \<forall>(key, val) \<in> set items. section_typed db_schema val | _ \<Rightarrow> True)"
    unfolding reads_def read_databases_def by (auto simp: * read_database_list_typed split: option.split json.split)
qed

lemma reads_redis: "reads read_redis (\<lambda>j. case json_find (str ''redis'') j of None \<Rightarrow> True | Some s \<Rightarrow> section_typed (snd (schema ! 4)) s)"
proof -
  have "(\<exists>c'. read_redis j c = Inr c') \<longleftrightarrow> (\<exists>r. read_section ''redis'' redis_fields j (sc_redis c) = Inr r)" for j c
    by (cases "read_section ''redis'' redis_fields j (sc_redis c)") (auto simp: read_redis_def)
  then show ?thesis using reads_section [OF section_readers(5), of "''redis''"] by (simp add: reads_def)
qed

lemma load_accepts_typed_documents_aux: "(\<exists>cfg. load (FileJson j) = Inr cfg) \<longleftrightarrow> config_typed j"
proof -
  define sec where "sec n = (\<lambda>j. case json_find (str (fst (schema ! n))) j of None \<Rightarrow> True
    | Some s \<Rightarrow> section_typed (snd (schema ! n)) s)" for n
  have names: "fst (schema ! 0) = ''server''" "fst (schema ! 1) = ''logging''" "fst (schema ! 2) = ''threading''"
    "fst (schema ! 3) = ''game''" "fst (schema ! 4) = ''redis''" by (simp_all add: schema_def)
  have all: "(\<forall>x \<in> set schema. P x) \<longleftrightarrow> P (schema ! 0) \<and> P (schema ! 1) \<and> P (schema ! 2) \<and> P (schema ! 3) \<and> P (schema ! 4)"
    for P by (simp add: schema_def)
  note rs = reads_section [OF section_readers(1), of "fst (schema ! 0)"] reads_section [OF section_readers(2), of "fst (schema ! 1)"]
    reads_section [OF section_readers(3), of "fst (schema ! 2)"] reads_section [OF section_readers(4), of "fst (schema ! 3)"]
  have "list_all2 reads load_sections [sec 0, sec 1, sec 2, sec 3,
      \<lambda>j. case json_find (str ''maps'') j of Some (JArray ms) \<Rightarrow> \<forall>m \<in> set ms. section_typed map_schema m | _ \<Rightarrow> True,
      \<lambda>j. case json_find (str ''databases'') j of
        Some (JObject items) \<Rightarrow> \<forall>(key, val) \<in> set items. section_typed db_schema val | _ \<Rightarrow> True, sec 4]"
    using rs reads_lists reads_redis by (simp add: load_sections_def sec_def names del: One_nat_def)
  from readsD [OF reads_all [OF this], of j ServerConfig] show ?thesis
    by (auto simp: config_typed_def all sec_def case_prod_unfold simp del: One_nat_def)
qed

text \<open>
  C27: A configuration file is loaded without an exception exactly when every field that the loader knows
  and that is present has the type that the schema gives it: no combination of missing sections,
  unknown keys, empty lists or values of other types makes the loader fail or succeed differently. A
  file that is missing or cannot be parsed is loaded as the defaults.
\<close>

theorem load_accepts_typed_documents:
  "((\<exists>cfg. load (FileJson j) = Inr cfg) \<longleftrightarrow> config_typed j)
    \<and> load FileMissing = Inr ServerConfig \<and> load FileBroken = Inr ServerConfig"
  using load_accepts_typed_documents_aux [of j] by simp

section \<open>What is taken from the file\<close>

definition value_of :: "json \<Rightarrow> string \<Rightarrow> (json \<Rightarrow> config_error + 'v) \<Rightarrow> 'v \<Rightarrow> 'v" where
  "value_of s key get dflt = (case json_find (str key) s of None \<Rightarrow> dflt | Some v \<Rightarrow> projr (get v))"

lemma read_field_value:
  assumes "read_field key get put s c = Inr c'" "put (g c) c = c"
  shows "c' = put (value_of s key get (g c)) c"
  using assms by (auto simp: read_field_def value_of_def split: option.splits sum.splits)

lemma read_fields_Cons:
  "read_fields (r # rs) s c = Inr c' \<longleftrightarrow> (\<exists>c1. r s c = Inr c1 \<and> read_fields rs s c1 = Inr c')"
  by (auto split: sum.split)

lemmas field_values =
  read_field_value [where put = "\<lambda>x c. c\<lparr>sc_host := x\<rparr>" and g = sc_host, simplified]
  read_field_value [where put = "\<lambda>x c. c\<lparr>sc_port := x\<rparr>" and g = sc_port, simplified]
  read_field_value [where put = "\<lambda>x c. c\<lparr>sc_backlog := x\<rparr>" and g = sc_backlog, simplified]
  read_field_value [where put = "\<lambda>x c. c\<lparr>sc_max_connections := x\<rparr>" and g = sc_max_connections, simplified]
  read_field_value [where put = "\<lambda>x c. c\<lparr>sc_tcp_no_delay := x\<rparr>" and g = sc_tcp_no_delay, simplified]
  read_field_value [where put = "\<lambda>x c. c\<lparr>sc_tick_rate := x\<rparr>" and g = sc_tick_rate, simplified]
  read_field_value [where put = "\<lambda>x c. c\<lparr>sc_log_level := x\<rparr>" and g = sc_log_level, simplified]
  read_field_value [where put = "\<lambda>x c. c\<lparr>sc_log_file := x\<rparr>" and g = sc_log_file, simplified]
  read_field_value [where put = "\<lambda>x c. c\<lparr>sc_log_file_path := x\<rparr>" and g = sc_log_file_path, simplified]
  read_field_value [where put = "\<lambda>x c. c\<lparr>sc_io_threads := x\<rparr>" and g = sc_io_threads, simplified]
  read_field_value [where put = "\<lambda>x c. c\<lparr>sc_map_threads_enabled := x\<rparr>" and g = sc_map_threads_enabled, simplified]
  read_field_value [where put = "\<lambda>x c. c\<lparr>sc_use_ecs := x\<rparr>" and g = sc_use_ecs, simplified]
  read_field_value [where put = "\<lambda>x c. c\<lparr>sc_memory_pool_size := x\<rparr>" and g = sc_memory_pool_size, simplified]
  read_field_value [where put = "\<lambda>x c. c\<lparr>rc_enabled := x\<rparr>" and g = rc_enabled, simplified]
  read_field_value [where put = "\<lambda>x c. c\<lparr>rc_host := x\<rparr>" and g = rc_host, simplified]
  read_field_value [where put = "\<lambda>x c. c\<lparr>rc_port := x\<rparr>" and g = rc_port, simplified]
  read_field_value [where put = "\<lambda>x c. c\<lparr>rc_password := x\<rparr>" and g = rc_password, simplified]
  read_field_value [where put = "\<lambda>x c. c\<lparr>rc_db_index := x\<rparr>" and g = rc_db_index, simplified]
  read_field_value [where put = "\<lambda>x c. c\<lparr>rc_token_ttl_sec := x\<rparr>" and g = rc_token_ttl_sec, simplified]
  read_field_value [where put = "\<lambda>x c. c\<lparr>rc_player_ttl_sec := x\<rparr>" and g = rc_player_ttl_sec, simplified]

lemma server_values:
  "read_fields server_fields s c = Inr c' \<Longrightarrow> c' = c\<lparr>sc_host := value_of s ''host'' get_string (sc_host c),
     sc_port := value_of s ''port'' get_u16 (sc_port c),
     sc_backlog := value_of s ''backlog'' get_int (sc_backlog c),
     sc_max_connections := value_of s ''max_connections'' get_int (sc_max_connections c),
     sc_tcp_no_delay := value_of s ''tcp_no_delay'' get_bool (sc_tcp_no_delay c),
     sc_tick_rate := value_of s ''tick_rate'' get_int (sc_tick_rate c)\<rparr>"
  unfolding server_fields_def read_fields_Cons by (elim exE conjE) ((drule field_values)+, simp)

lemma logging_values:
  "read_fields logging_fields s c = Inr c' \<Longrightarrow> c' = c\<lparr>sc_log_level := value_of s ''level'' get_string (sc_log_level c),
     sc_log_file := value_of s ''file'' get_bool (sc_log_file c),
     sc_log_file_path := value_of s ''file_path'' get_string (sc_log_file_path c)\<rparr>"
  unfolding logging_fields_def read_fields_Cons by (elim exE conjE) ((drule field_values)+, simp)

lemma threading_values:
  "read_fields threading_fields s c = Inr c' \<Longrightarrow> c' = c\<lparr>sc_io_threads := value_of s ''io_threads'' get_int (sc_io_threads c),
     sc_map_threads_enabled := value_of s ''map_threads_enabled'' get_bool (sc_map_threads_enabled c)\<rparr>"
  unfolding threading_fields_def read_fields_Cons by (elim exE conjE) ((drule field_values)+, simp)

lemma game_values:
  "read_fields game_fields s c = Inr c' \<Longrightarrow> c' = c\<lparr>sc_use_ecs := value_of s ''use_ecs'' get_bool (sc_use_ecs c),
     sc_memory_pool_size := value_of s ''memory_pool_size'' get_int (sc_memory_pool_size c)\<rparr>"
  unfolding game_fields_def read_fields_Cons by (elim exE conjE) ((drule field_values)+, simp)

lemma redis_values:
  "read_fields redis_fields s c = Inr c' \<Longrightarrow> c' = c\<lparr>rc_enabled := value_of s ''enabled'' get_bool (rc_enabled c),
     rc_host := value_of s ''host'' get_string (rc_host c),
     rc_port := value_of s ''port'' get_u16 (rc_port c),
     rc_password := value_of s ''password'' get_string (rc_password c),
     rc_db_index := value_of s ''db_index'' get_int (rc_db_index c),
     rc_token_ttl_sec := value_of s ''token_ttl_sec'' get_int (rc_token_ttl_sec c),
     rc_player_ttl_sec := value_of s ''player_ttl_sec'' get_int (rc_player_ttl_sec c)\<rparr>"
  unfolding redis_fields_def read_fields_Cons by (elim exE conjE) ((drule field_values)+, simp)

definition value_at :: "json \<Rightarrow> string \<Rightarrow> string \<Rightarrow> (json \<Rightarrow> config_error + 'v) \<Rightarrow> 'v \<Rightarrow> 'v" where
  "value_at j sec key get dflt = (case json_find (str sec) j of None \<Rightarrow> dflt | Some s \<Rightarrow> value_of s key get dflt)"

text \<open>The maps and the databases: what each entry of the file becomes.\<close>

definition map_of_json :: "json \<Rightarrow> map_config" where
  "map_of_json m = projr (read_fields map_fields m MapConfig)"

definition db_of_json :: "json \<Rightarrow> db_config" where
  "db_of_json v = projr (read_fields db_fields v DbConfig)"

lemma read_map_list_value: "read_map_list js ms = Inr ms' \<Longrightarrow> ms' = ms @ map map_of_json js"
proof (induction js arbitrary: ms)
  case (Cons m js)
  then show ?case
    by (cases "read_fields map_fields m MapConfig") (auto simp: map_of_json_def dest!: Cons.IH)
qed simp

lemma read_database_list_value:
  "read_database_list items dbs = Inr dbs' \<Longrightarrow> distinct (map fst items) \<Longrightarrow>
     map_of dbs' key = (case map_of items key of None \<Rightarrow> map_of dbs key | Some v \<Rightarrow> Some (db_of_json v))"
proof (induction items arbitrary: dbs)
  case (Cons item items)
  obtain k v where item: "item = (k, v)" by (cases item)
  obtain dc where dc: "read_fields db_fields v DbConfig = Inr dc" "read_database_list items (AList.update k dc dbs) = Inr dbs'"
    using Cons.prems(1) item by (cases "read_fields db_fields v DbConfig") auto
  have "map_of items k = None" using Cons.prems(2) item by (simp add: map_of_eq_None_iff)
  then show ?case
    using Cons.IH [OF dc(2)] Cons.prems(2) dc(1)
    by (auto simp: item update_conv' db_of_json_def split: option.split)
qed simp

lemma read_section_value:
  assumes "read_section sec rs j c = Inr c'" "\<And>s c c'. read_fields rs s c = Inr c' \<Longrightarrow> c' = upd s c"
  shows "c' = (case json_find (str sec) j of None \<Rightarrow> c | Some s \<Rightarrow> upd s c)"
  using assms by (auto simp: read_section_def split: option.splits)

text \<open>Per section: the fields that it sets, and that the others stay.\<close>

lemma server_section:
  assumes "read_section ''server'' server_fields j c = Inr c'"
  shows "sc_host c' = value_at j ''server'' ''host'' get_string (sc_host c)"
    "sc_port c' = value_at j ''server'' ''port'' get_u16 (sc_port c)"
    "sc_backlog c' = value_at j ''server'' ''backlog'' get_int (sc_backlog c)"
    "sc_max_connections c' = value_at j ''server'' ''max_connections'' get_int (sc_max_connections c)"
    "sc_tcp_no_delay c' = value_at j ''server'' ''tcp_no_delay'' get_bool (sc_tcp_no_delay c)"
    "sc_tick_rate c' = value_at j ''server'' ''tick_rate'' get_int (sc_tick_rate c)"
    "sc_log_level c' = sc_log_level c" "sc_log_file c' = sc_log_file c" "sc_log_file_path c' = sc_log_file_path c"
    "sc_io_threads c' = sc_io_threads c" "sc_map_threads_enabled c' = sc_map_threads_enabled c"
    "sc_use_ecs c' = sc_use_ecs c" "sc_memory_pool_size c' = sc_memory_pool_size c" "sc_maps c' = sc_maps c"
    "sc_redis c' = sc_redis c"
  using read_section_value [OF assms server_values] by (simp_all add: value_at_def split: option.splits)

lemma logging_section:
  assumes "read_section ''logging'' logging_fields j c = Inr c'"
  shows "sc_host c' = sc_host c" "sc_port c' = sc_port c" "sc_backlog c' = sc_backlog c"
    "sc_max_connections c' = sc_max_connections c" "sc_tcp_no_delay c' = sc_tcp_no_delay c"
    "sc_tick_rate c' = sc_tick_rate c"
    "sc_log_level c' = value_at j ''logging'' ''level'' get_string (sc_log_level c)"
    "sc_log_file c' = value_at j ''logging'' ''file'' get_bool (sc_log_file c)"
    "sc_log_file_path c' = value_at j ''logging'' ''file_path'' get_string (sc_log_file_path c)"
    "sc_io_threads c' = sc_io_threads c" "sc_map_threads_enabled c' = sc_map_threads_enabled c"
    "sc_use_ecs c' = sc_use_ecs c" "sc_memory_pool_size c' = sc_memory_pool_size c" "sc_maps c' = sc_maps c"
    "sc_redis c' = sc_redis c"
  using read_section_value [OF assms logging_values] by (simp_all add: value_at_def split: option.splits)

lemma threading_section:
  assumes "read_section ''threading'' threading_fields j c = Inr c'"
  shows "sc_host c' = sc_host c" "sc_port c' = sc_port c" "sc_backlog c' = sc_backlog c"
    "sc_max_connections c' = sc_max_connections c" "sc_tcp_no_delay c' = sc_tcp_no_delay c"
    "sc_tick_rate c' = sc_tick_rate c" "sc_log_level c' = sc_log_level c" "sc_log_file c' = sc_log_file c"
    "sc_log_file_path c' = sc_log_file_path c"
    "sc_io_threads c' = value_at j ''threading'' ''io_threads'' get_int (sc_io_threads c)"
    "sc_map_threads_enabled c' = value_at j ''threading'' ''map_threads_enabled'' get_bool (sc_map_threads_enabled c)"
    "sc_use_ecs c' = sc_use_ecs c" "sc_memory_pool_size c' = sc_memory_pool_size c" "sc_maps c' = sc_maps c"
    "sc_redis c' = sc_redis c"
  using read_section_value [OF assms threading_values] by (simp_all add: value_at_def split: option.splits)

lemma game_section:
  assumes "read_section ''game'' game_fields j c = Inr c'"
  shows "sc_host c' = sc_host c" "sc_port c' = sc_port c" "sc_backlog c' = sc_backlog c"
    "sc_max_connections c' = sc_max_connections c" "sc_tcp_no_delay c' = sc_tcp_no_delay c"
    "sc_tick_rate c' = sc_tick_rate c" "sc_log_level c' = sc_log_level c" "sc_log_file c' = sc_log_file c"
    "sc_log_file_path c' = sc_log_file_path c" "sc_io_threads c' = sc_io_threads c"
    "sc_map_threads_enabled c' = sc_map_threads_enabled c"
    "sc_use_ecs c' = value_at j ''game'' ''use_ecs'' get_bool (sc_use_ecs c)"
    "sc_memory_pool_size c' = value_at j ''game'' ''memory_pool_size'' get_int (sc_memory_pool_size c)"
    "sc_maps c' = sc_maps c" "sc_redis c' = sc_redis c"
  using read_section_value [OF assms game_values] by (simp_all add: value_at_def split: option.splits)

lemma redis_section:
  assumes "read_section ''redis'' redis_fields j c = Inr c'"
  shows "c' = c\<lparr>rc_enabled := value_at j ''redis'' ''enabled'' get_bool (rc_enabled c),
     rc_host := value_at j ''redis'' ''host'' get_string (rc_host c),
     rc_port := value_at j ''redis'' ''port'' get_u16 (rc_port c),
     rc_password := value_at j ''redis'' ''password'' get_string (rc_password c),
     rc_db_index := value_at j ''redis'' ''db_index'' get_int (rc_db_index c),
     rc_token_ttl_sec := value_at j ''redis'' ''token_ttl_sec'' get_int (rc_token_ttl_sec c),
     rc_player_ttl_sec := value_at j ''redis'' ''player_ttl_sec'' get_int (rc_player_ttl_sec c)\<rparr>"
  using read_section_value [OF assms redis_values] by (simp add: value_at_def split: option.splits)

lemma maps_value:
  "read_maps j c = Inr c' \<Longrightarrow> c' = c\<lparr>sc_maps := (case json_find (str ''maps'') j of
     Some (JArray (m # js)) \<Rightarrow> map map_of_json (m # js) | _ \<Rightarrow> sc_maps c)\<rparr>"
  by (auto simp: read_maps_def simp del: read_map_list.simps dest!: read_map_list_value
      split: option.splits json.splits list.splits sum.splits)

lemma databases_value: "read_databases j c = Inr c' \<Longrightarrow> \<exists>dbs. c' = c\<lparr>sc_databases := dbs\<rparr>"
  by (auto simp: read_databases_def split: option.splits json.splits sum.splits intro: exI [of _ "sc_databases c"])

lemma redis_value:
  "read_redis j c = Inr c' \<Longrightarrow> \<exists>r. c' = c\<lparr>sc_redis := r\<rparr> \<and> read_section ''redis'' redis_fields j (sc_redis c) = Inr r"
  by (auto simp: read_redis_def split: sum.splits)

lemma server_defaults:
  "sc_host ServerConfig = str ''0.0.0.0''" "sc_port ServerConfig = 12345" "sc_backlog ServerConfig = 128"
  "sc_max_connections ServerConfig = 1000" "sc_tcp_no_delay ServerConfig" "sc_tick_rate ServerConfig = 60"
  "sc_log_level ServerConfig = str ''debug''" "sc_log_file ServerConfig = False"
  "sc_log_file_path ServerConfig = str ''logs/server.log''" "sc_io_threads ServerConfig = 1"
  "sc_map_threads_enabled ServerConfig" "sc_use_ecs ServerConfig" "sc_memory_pool_size ServerConfig = 1000"
  "sc_redis ServerConfig = RedisConfig" "rc_enabled RedisConfig = False" "rc_player_ttl_sec RedisConfig = 1800"
  by (simp_all add: ServerConfig_def RedisConfig_def)


definition demo_json :: json where
  "demo_json = JObject [(str ''server'', JObject [(str ''port'', JUnsigned 8080)]),
     (str ''maps'', JArray [JObject [(str ''id'', JUnsigned 7)]])]"


end
