(* ===== verification/Game_Server.thy ===== *)
theory Game_Server
  imports Thread_Managers Channel Protocol Message_Dispatcher Player_Dao Server_Config
begin

text \<open>
  The game server (\<open>server/game/game_server.cpp\<close>, \<open>handlers/player_handlers.cpp\<close>,
  \<open>handlers/guild_handlers.cpp\<close>) and the accept loop of \<open>server/network/asio_server.cpp\<close>, in the
  build with MySQL and Redis: it connects the channels, the dispatcher, the game service, the
  threads and the persistence layer.

  The state is everything that the handlers reach. A channel object is kept with its entry in
  \<open>channels_\<close>. The process-wide game service and the main thread manager share the record of
  theory \<open>Thread_Managers\<close>; \<open>sv_threads\<close> says whether \<open>main_thread_manager_\<close> is set and
  \<open>sv_service_up\<close> whether the service is initialised. What leaves the server is appended to
  \<open>sv_out\<close>; closures that are posted to a strand or to the \<open>io_context\<close> wait in \<open>sv_db_jobs\<close> and
  \<open>sv_io_jobs\<close>. A handler is one step, as with the single \<open>io_context\<close> thread of the default
  configuration.
\<close>

section \<open>Outcomes\<close>

text \<open>
  A handler returns, locks \<open>mtx_\<close> a second time (it is not recursive, so the thread blocks for
  ever), dereferences a manager of a service that is not initialised, or reads outside its buffer.
\<close>

datatype 'a outcome = Done 'a | Deadlock | NullAccess | ReadOutOfBounds

fun and_then :: "'a outcome \<Rightarrow> ('a \<Rightarrow> 'b outcome) \<Rightarrow> 'b outcome" where
  "and_then (Done a) f = f a"
| "and_then Deadlock f = Deadlock"
| "and_then NullAccess f = NullAccess"
| "and_then ReadOutOfBounds f = ReadOutOfBounds"

section \<open>State\<close>

record guild_data =
  gd_id :: u32
  gd_name :: bytes
  gd_description :: bytes
  gd_master_channel_id :: int
  gd_members :: "int list"

datatype db_job =
    LoginJob bytes
  | SaveJob int bytes f32 f32 f32 int int int int
  | FlushJob int f32 f32 f32 int

datatype srv_event =
    ChannelEvent int chan_event
  | CacheSet int bytes int
  | CacheDel int
  | SinkEvent sink_output

record game_server =
  sv_use_ecs :: bool
  sv_maps :: "map_config list"
  sv_player_ttl_sec :: int
  sv_channels :: "(int \<times> channel) list"
  sv_channel_to_entity :: "(int \<times> entity) list"
  sv_service_up :: bool
  sv_threads :: bool
  sv_main :: "(unit, unit) main_manager"
  sv_player_map :: "(int \<times> int) list"
  sv_dao :: bool
  sv_db_pool :: bool
  sv_redis :: bool
  sv_channel_to_db_id :: "(int \<times> int) list"
  sv_db_strands :: "int list"
  sv_guilds :: "(u32 \<times> guild_data) list"
  sv_channel_to_guild :: "(int \<times> u32) list"
  sv_next_guild_id :: u32
  sv_accepted :: "int list"
  sv_next_channel_id :: int
  sv_db_jobs :: "(int \<times> db_job) list"
  sv_io_jobs :: "(int \<times> bytes \<times> player_record option) list"
  sv_out :: "srv_event list"

definition sv_emit :: "srv_event \<Rightarrow> game_server \<Rightarrow> game_server" where
  "sv_emit ev sv = sv\<lparr>sv_out := sv_out sv @ [ev]\<rparr>"

text \<open>\<open>asio::post(strand, job)\<close>\<close>

definition post_db :: "int \<Rightarrow> db_job \<Rightarrow> game_server \<Rightarrow> game_server" where
  "post_db ch job sv = sv\<lparr>sv_db_jobs := sv_db_jobs sv @ [(ch, job)]\<rparr>"

section \<open>The game service behind \<open>game_service()\<close>\<close>

definition sv_world :: "game_server \<Rightarrow> world" where
  "sv_world sv = env_world (mn_env (sv_main sv))"

definition set_world :: "world \<Rightarrow> game_server \<Rightarrow> game_server" where
  "set_world w sv = sv\<lparr>sv_main := (sv_main sv)\<lparr>mn_env := (mn_env (sv_main sv))\<lparr>env_world := w\<rparr>\<rparr>\<rparr>"

definition service_world :: "game_server \<Rightarrow> world outcome" where
  "service_world sv = (if sv_service_up sv then Done (sv_world sv) else NullAccess)"

text \<open>\<open>find\<close> in \<open>channel_to_entity_\<close>; 0 stands for no entity.\<close>

definition entity_of :: "int \<Rightarrow> game_server \<Rightarrow> entity" where
  "entity_of ch sv = (case map_of (sv_channel_to_entity sv) ch of None \<Rightarrow> 0 | Some e \<Rightarrow> e)"

section \<open>Map of a player\<close>

definition sv_get_player_map :: "int \<Rightarrow> game_server \<Rightarrow> int" where
  "sv_get_player_map ch sv = (case map_of (sv_player_map sv) ch of None \<Rightarrow> 1 | Some m \<Rightarrow> m)"

definition sv_update_player_map :: "int \<Rightarrow> int \<Rightarrow> game_server \<Rightarrow> game_server" where
  "sv_update_player_map ch mid sv = sv\<lparr>sv_player_map := AList.update ch mid (sv_player_map sv)\<rparr>"

definition route_packet_to_map :: "int \<Rightarrow> u16 \<Rightarrow> bytes \<Rightarrow> game_server \<Rightarrow> game_server" where
  "route_packet_to_map ch cmd data sv =
    (if \<not> sv_threads sv then sv
     else let mid = sv_get_player_map ch sv
          in sv\<lparr>sv_main := mn_send_packet_to_map mid ch cmd data (sv_main sv)\<rparr>)"

section \<open>Accepting and closing\<close>

definition sv_on_accept :: "int \<Rightarrow> channel \<Rightarrow> game_server \<Rightarrow> game_server" where
  "sv_on_accept ch c sv =
    (let sv = sv\<lparr>sv_channels := AList.update ch c (sv_channels sv)\<rparr>;
         sv = (if sv_db_pool sv then sv\<lparr>sv_db_strands := uset_insert ch (sv_db_strands sv)\<rparr> else sv)
     in if sv_threads sv then sv_update_player_map ch 1 sv else sv)"

text \<open>The values that \<open>on_close\<close> captures for the closure that saves the player.\<close>

definition close_save_job :: "world \<Rightarrow> entity \<Rightarrow> int \<Rightarrow> db_job" where
  "close_save_job w e db_id =
    (let (x, y, z) = (case w_get_component position_slot w e of
            None \<Rightarrow> (0, 0, 0) | Some p \<Rightarrow> (pos_x p, pos_y p, pos_z p));
         (mid, name) = (case w_get_component player_slot w e of
            None \<Rightarrow> (1, []) | Some p \<Rightarrow> (to_int (pl_map_id p), player_name p));
         h = (case w_get_component health_slot w e of None \<Rightarrow> 100 | Some h \<Rightarrow> to_int (hp h))
     in SaveJob db_id name x y z mid 1 0 h)"

definition sv_on_close :: "int \<Rightarrow> game_server \<Rightarrow> game_server outcome" where
  "sv_on_close ch sv =
    (let e = entity_of ch sv;
         db_id = (case map_of (sv_channel_to_db_id sv) ch of None \<Rightarrow> 0 | Some i \<Rightarrow> i);
         strand = (ch \<in> set (sv_db_strands sv));
         sv = sv\<lparr>sv_channels := AList.delete ch (sv_channels sv),
                 sv_channel_to_entity := AList.delete ch (sv_channel_to_entity sv),
                 sv_channel_to_db_id := AList.delete ch (sv_channel_to_db_id sv),
                 sv_db_strands := remove1 ch (sv_db_strands sv)\<rparr>
     in and_then
          (if strand \<and> sv_dao sv \<and> db_id > 0 \<and> e \<noteq> 0
           then and_then (service_world sv) (\<lambda>w. Done (post_db ch (close_save_job w e db_id) sv))
           else Done sv)
          (\<lambda>sv.
            let sv = (if sv_redis sv \<and> db_id > 0 then sv_emit (CacheDel db_id) sv else sv);
                sv = (if sv_threads sv
                      then sv\<lparr>sv_player_map := AList.delete ch (sv_player_map sv)\<rparr> else sv)
            in if e \<noteq> 0 \<and> sv_use_ecs sv
               then and_then (service_world sv) (\<lambda>w. Done (set_world (w_destroy_entity e w) sv))
               else Done sv))"

section \<open>Sending\<close>

text \<open>
  What a \<open>send\<close> of a channel does to the server. \<open>held\<close>: the caller holds \<open>mtx_\<close>, and \<open>on_close\<close>
  locks it again.
\<close>

fun send_events :: "bool \<Rightarrow> int \<Rightarrow> chan_event list \<Rightarrow> game_server \<Rightarrow> game_server outcome" where
  "send_events held ch [] sv = Done sv"
| "send_events held ch (HandlerClose cid reason # evs) sv =
     (if held then Deadlock else and_then (sv_on_close cid sv) (send_events held ch evs))"
| "send_events held ch (CloseCallback reason # evs) sv =
     send_events held ch evs (sv\<lparr>sv_accepted := remove1 ch (sv_accepted sv)\<rparr>)"
| "send_events held ch (ev # evs) sv = send_events held ch evs (sv_emit (ChannelEvent ch ev) sv)"

definition channel_send :: "bool \<Rightarrow> int \<Rightarrow> bytes \<Rightarrow> game_server \<Rightarrow> game_server outcome" where
  "channel_send held ch pkt sv =
    (case map_of (sv_channels sv) ch of
       None \<Rightarrow> Done sv
     | Some c \<Rightarrow>
         let (c, evs) = send c pkt (to_int (of_nat (length pkt)))
         in send_events held ch evs (sv\<lparr>sv_channels := AList.update ch c (sv_channels sv)\<rparr>))"

text \<open>
  \<open>send_frame\<close> on the channel that a lookup found: the handlers that fetch the pointer first send
  without the lock, \<open>send_test_frame\<close> and the broadcasts send with it.
\<close>

definition send_frame :: "bool \<Rightarrow> int \<Rightarrow> u16 \<Rightarrow> bytes \<Rightarrow> game_server \<Rightarrow> game_server outcome" where
  "send_frame held ch msg_id data sv = channel_send held ch (pack msg_id 0 1 0 data) sv"

definition send_test_frame :: "int \<Rightarrow> u16 \<Rightarrow> bytes \<Rightarrow> game_server \<Rightarrow> game_server outcome" where
  "send_test_frame ch msg_id data sv = send_frame True ch msg_id data sv"

fun broadcast_loop :: "int list \<Rightarrow> bytes \<Rightarrow> game_server \<Rightarrow> game_server outcome" where
  "broadcast_loop [] pkt sv = Done sv"
| "broadcast_loop (ch # chs) pkt sv = and_then (channel_send True ch pkt sv) (broadcast_loop chs pkt)"

definition broadcast :: "u16 \<Rightarrow> bytes \<Rightarrow> game_server \<Rightarrow> game_server outcome" where
  "broadcast cmd data sv = broadcast_loop (map fst (sv_channels sv)) (pack cmd 0 1 0 data) sv"

definition broadcast_except :: "int \<Rightarrow> u16 \<Rightarrow> bytes \<Rightarrow> game_server \<Rightarrow> game_server outcome" where
  "broadcast_except exclude cmd data sv =
    broadcast_loop (filter (\<lambda>ch. ch \<noteq> exclude) (map fst (sv_channels sv))) (pack cmd 0 1 0 data) sv"

section \<open>Login\<close>

text \<open>The entity of a player with its four components.\<close>

definition spawn_player ::
  "int \<Rightarrow> bytes \<Rightarrow> (entity \<Rightarrow> u32) \<Rightarrow> f32 \<Rightarrow> f32 \<Rightarrow> f32 \<Rightarrow> u32 \<Rightarrow> health \<Rightarrow> game_server
     \<Rightarrow> (game_server \<times> entity) outcome" where
  "spawn_player ch name pid x y z mid h sv =
    and_then (service_world sv) (\<lambda>w.
      let (w, e) = w_create_entity w;
          w = w_add_component position_slot e (Position x y z) w;
          w = w_add_component velocity_slot e (Velocity 0 0 0) w;
          w = w_add_component player_slot e (Player name (pid e) ch mid) w;
          w = w_add_component health_slot e h w;
          sv = set_world w sv
      in Done (sv\<lparr>sv_channel_to_entity := AList.update ch e (sv_channel_to_entity sv)\<rparr>, e))"

definition login_reply :: "int \<Rightarrow> bool \<Rightarrow> bytes \<Rightarrow> u32 \<Rightarrow> u32 \<Rightarrow> game_server \<Rightarrow> game_server outcome" where
  "login_reply ch ok msg pid mid = send_frame False ch 1001
    (login_res_serialize \<lparr>login_res_success = ok, login_res_message = msg,
       login_res_player_id = pid, login_res_map_id = mid\<rparr>)"

text \<open>Without a database: default values and an immediate reply.\<close>

definition login_default :: "int \<Rightarrow> bytes \<Rightarrow> game_server \<Rightarrow> game_server outcome" where
  "login_default ch name sv =
    and_then
      (if sv_use_ecs sv then spawn_player ch name (\<lambda>e. e) 0 0 0 1 (Health 100 50) sv else Done (sv, 0))
      (\<lambda>(sv, player). login_reply ch True (str ''ok'') player 1 sv)"

text \<open>\<open>tok\<close> is the token table of the Redis server: the player id of a session token.\<close>

definition handle_login :: "(bytes \<Rightarrow> int option) \<Rightarrow> int \<Rightarrow> bytes \<Rightarrow> game_server \<Rightarrow> game_server outcome" where
  "handle_login tok ch data sv =
    (case login_req_parse data of
       OutOfBounds \<Rightarrow> ReadOutOfBounds
     | Reject \<Rightarrow> Done sv
     | Parsed req rest \<Rightarrow>
         if sv_redis sv \<and> login_req_session_token req \<noteq> [] \<and> tok (login_req_session_token req) = None
         then login_reply ch False (str ''invalid_token'') 0 0 sv
         else if sv_dao sv
         then if ch \<notin> set (sv_db_strands sv) then Done sv
              else Done (post_db ch (LoginJob (login_req_player_name req)) sv)
         else login_default ch (login_req_player_name req) sv)"

text \<open>The closure that the database thread posts back to the \<open>io_context\<close>.\<close>

definition login_continue ::
  "int \<Rightarrow> bytes \<Rightarrow> player_record option \<Rightarrow> game_server \<Rightarrow> game_server outcome" where
  "login_continue ch name rec sv =
    (if ch \<notin> set (map fst (sv_channels sv)) then Done sv
     else case rec of
       None \<Rightarrow> login_reply ch False (str ''db_error'') 0 0 sv
     | Some r \<Rightarrow>
         and_then
           (if sv_use_ecs sv
            then and_then
              (spawn_player ch name (\<lambda>e. if pr_id r > 0 then to_u32 (pr_id r) else e)
                 (pr_pos_x r) (pr_pos_y r) (pr_pos_z r) (to_u32 (pr_map_id r))
                 ((Health (to_u32 (pr_max_hp r)) 50)\<lparr>hp := to_u32 (pr_hp r)\<rparr>) sv)
              (\<lambda>(sv, e). Done (if pr_id r > 0
                 then sv\<lparr>sv_channel_to_db_id := AList.update ch (pr_id r) (sv_channel_to_db_id sv)\<rparr>
                 else sv, e))
            else Done (sv, 0))
           (\<lambda>(sv, player). login_reply ch True (str ''ok'')
              (if pr_id r > 0 then to_u32 (pr_id r) else player) (to_u32 (pr_map_id r)) sv))"

section \<open>Movement, chat, attack and map change\<close>

definition handle_move :: "int \<Rightarrow> bytes \<Rightarrow> game_server \<Rightarrow> game_server outcome" where
  "handle_move ch data sv =
    (case player_move_req_parse data of
       OutOfBounds \<Rightarrow> ReadOutOfBounds
     | Reject \<Rightarrow> Done sv
     | Parsed req rest \<Rightarrow>
         if sv_threads sv then Done (route_packet_to_map ch 0x1001 data sv)
         else
           let x = player_move_req_x req; y = player_move_req_y req; z = player_move_req_z req
           in and_then
             (if sv_use_ecs sv \<and> entity_of ch sv \<noteq> 0
              then and_then (service_world sv) (\<lambda>w. Done (set_world
                (w_modify_component position_slot (entity_of ch sv)
                   (\<lambda>p. p\<lparr>pos_x := x, pos_y := y, pos_z := z\<rparr>) w) sv))
              else Done sv)
             (\<lambda>sv. and_then
               (broadcast_except ch 1002
                  (write_le32 (to_u32 ch) @ write_float_le x @ write_float_le y @ write_float_le z) sv)
               (send_test_frame ch 1002 (str ''ok''))))"

definition handle_chat :: "int \<Rightarrow> bytes \<Rightarrow> game_server \<Rightarrow> game_server outcome" where
  "handle_chat ch data sv =
    (let message = data in
     if sv_threads sv
     then Done (sv\<lparr>sv_main := handle_global_chat ch message (sv_main sv)\<rparr>)
     else and_then (broadcast 1003 (write_le32 (to_u32 ch) @ message) sv)
            (send_test_frame ch 1003 (str ''CHAT_SUCCESS'')))"

definition attack_reply ::
  "int \<Rightarrow> bool \<Rightarrow> bytes \<Rightarrow> u32 \<Rightarrow> u32 \<Rightarrow> u32 \<Rightarrow> game_server \<Rightarrow> game_server outcome" where
  "attack_reply ch ok msg aid damage remaining = send_test_frame ch 1004
    (attack_res_serialize \<lparr>attack_res_success = ok, attack_res_message = msg, attack_res_attack_id = aid,
       attack_res_damage = damage, attack_res_target_remaining_hp = remaining\<rparr>)"

definition handle_attack :: "int \<Rightarrow> bytes \<Rightarrow> game_server \<Rightarrow> game_server outcome" where
  "handle_attack ch data sv =
    (case attack_req_parse data of
       OutOfBounds \<Rightarrow> ReadOutOfBounds
     | Reject \<Rightarrow> Done sv
     | Parsed req rest \<Rightarrow>
         let target_channel = to_int (attack_req_target_id req);
             attacker = entity_of ch sv;
             target = entity_of target_channel sv
         in if attacker = 0 \<or> target = 0
            then attack_reply ch False (str ''target not found'') 0 0 0 sv
            else
              let damage = 10 + attack_req_skill_id req * 5
              in and_then (service_world sv) (\<lambda>w.
                if get_system CombatSystem (mn_systems (sv_main sv)) = None then Done sv
                else
                  let w = w\<lparr>w_components := combat_take_damage target damage (w_components w)\<rparr>;
                      sv = set_world w sv;
                      remaining_hp = get_hp target (w_components w);
                      dead = (remaining_hp = 0)
                  in and_then
                    (attack_reply ch True (if dead then str ''killed'' else str ''hit'') 1 damage remaining_hp sv)
                    (\<lambda>sv. and_then
                      (broadcast_except ch 1004 (damage_notify_serialize
                        \<lparr>damage_notify_attacker_id = to_u32 ch,
                         damage_notify_target_id = attack_req_target_id req,
                         damage_notify_damage = damage, damage_notify_remaining_hp = remaining_hp,
                         damage_notify_attack_id = 1,
                         damage_notify_timestamp = attack_req_timestamp req\<rparr>) sv)
                      (\<lambda>sv. Done (if dead
                        then (set_world (w_destroy_entity target (sv_world sv)) sv)
                          \<lparr>sv_channel_to_entity := AList.delete target_channel (sv_channel_to_entity sv)\<rparr>
                        else sv)))))"

definition handle_map_enter :: "int \<Rightarrow> bytes \<Rightarrow> game_server \<Rightarrow> game_server outcome" where
  "handle_map_enter ch data sv =
    (case map_enter_req_parse data of
       OutOfBounds \<Rightarrow> ReadOutOfBounds
     | Reject \<Rightarrow> Done sv
     | Parsed req rest \<Rightarrow>
         let target_map_id = to_int (map_enter_req_map_id req)
         in case List.find (\<lambda>m. mc_id m = target_map_id) (sv_maps sv) of
           None \<Rightarrow> send_test_frame ch 1005 (map_enter_res_serialize
             \<lparr>map_enter_res_success = False, map_enter_res_message = str ''map not found'',
              map_enter_res_map_id = 0, map_enter_res_map_name = [], map_enter_res_x = 0,
              map_enter_res_y = 0, map_enter_res_z = 0, map_enter_res_player_count = 0\<rparr>) sv
         | Some cfg \<Rightarrow>
             let sv = (if sv_threads sv \<and> sv_get_player_map ch sv \<noteq> target_map_id
                       then sv_update_player_map ch target_map_id sv else sv)
             in and_then
               (case map_of (sv_channel_to_entity sv) ch of
                  None \<Rightarrow> Done sv
                | Some e \<Rightarrow> and_then (service_world sv) (\<lambda>w. Done (set_world
                    (w_modify_component player_slot e (\<lambda>p. p\<lparr>pl_map_id := to_u32 target_map_id\<rparr>) w) sv)))
               (send_test_frame ch 1005 (map_enter_res_serialize
                 \<lparr>map_enter_res_success = True, map_enter_res_message = str ''ok'',
                  map_enter_res_map_id = map_enter_req_map_id req, map_enter_res_map_name = mc_name cfg,
                  map_enter_res_x = map_enter_req_x req, map_enter_res_y = map_enter_req_y req,
                  map_enter_res_z = map_enter_req_z req, map_enter_res_player_count = 0\<rparr>)))"

section \<open>Guilds\<close>

definition guild_create_reply :: "int \<Rightarrow> bool \<Rightarrow> bytes \<Rightarrow> u32 \<Rightarrow> game_server \<Rightarrow> game_server outcome" where
  "guild_create_reply ch ok msg gid = send_test_frame ch 2001 (guild_create_res_serialize
    \<lparr>guild_create_res_success = ok, guild_create_res_message = msg, guild_create_res_guild_id = gid\<rparr>)"

text \<open>The three changes of the guild tables.\<close>

definition create_guild :: "int \<Rightarrow> bytes \<Rightarrow> bytes \<Rightarrow> game_server \<Rightarrow> game_server" where
  "create_guild ch name desc sv =
    (let gid = sv_next_guild_id sv
     in sv\<lparr>sv_next_guild_id := gid + 1,
           sv_guilds := AList.update gid \<lparr>gd_id = gid, gd_name = name, gd_description = desc,
             gd_master_channel_id = ch, gd_members = [ch]\<rparr> (sv_guilds sv),
           sv_channel_to_guild := AList.update ch gid (sv_channel_to_guild sv)\<rparr>)"

definition join_guild :: "int \<Rightarrow> u32 \<Rightarrow> guild_data \<Rightarrow> game_server \<Rightarrow> game_server" where
  "join_guild ch gid g sv =
    sv\<lparr>sv_guilds := AList.update gid (g\<lparr>gd_members := gd_members g @ [ch]\<rparr>) (sv_guilds sv),
       sv_channel_to_guild := AList.update ch gid (sv_channel_to_guild sv)\<rparr>"

definition leave_guild :: "int \<Rightarrow> u32 \<Rightarrow> game_server \<Rightarrow> game_server" where
  "leave_guild ch gid sv =
    (let sv = sv\<lparr>sv_channel_to_guild := AList.delete ch (sv_channel_to_guild sv)\<rparr>
     in case map_of (sv_guilds sv) gid of
          None \<Rightarrow> sv
        | Some g \<Rightarrow>
            let members = filter (\<lambda>m. m \<noteq> ch) (gd_members g)
            in if members = []
               then sv\<lparr>sv_guilds := AList.delete gid (sv_guilds sv)\<rparr>
               else sv\<lparr>sv_guilds := AList.update gid (g\<lparr>gd_members := members\<rparr>) (sv_guilds sv)\<rparr>)"

definition handle_guild_create :: "int \<Rightarrow> bytes \<Rightarrow> game_server \<Rightarrow> game_server outcome" where
  "handle_guild_create ch data sv =
    (case guild_create_req_parse data of
       OutOfBounds \<Rightarrow> ReadOutOfBounds
     | Reject \<Rightarrow> Done sv
     | Parsed req rest \<Rightarrow>
         if ch \<in> set (map fst (sv_channel_to_guild sv))
         then guild_create_reply ch False (str ''already in a guild'') 0 sv
         else
           let gid = sv_next_guild_id sv;
               sv = create_guild ch (guild_create_req_guild_name req) (guild_create_req_guild_description req) sv
           in guild_create_reply ch True (str ''ok'') gid sv)"

definition guild_join_reply :: "int \<Rightarrow> bool \<Rightarrow> bytes \<Rightarrow> game_server \<Rightarrow> game_server outcome" where
  "guild_join_reply ch ok msg = send_test_frame ch 2002 (guild_join_res_serialize
    \<lparr>guild_join_res_success = ok, guild_join_res_message = msg, guild_join_res_application_id = 0\<rparr>)"

definition handle_guild_join :: "int \<Rightarrow> bytes \<Rightarrow> game_server \<Rightarrow> game_server outcome" where
  "handle_guild_join ch data sv =
    (case guild_join_req_parse data of
       OutOfBounds \<Rightarrow> ReadOutOfBounds
     | Reject \<Rightarrow> Done sv
     | Parsed req rest \<Rightarrow>
         let gid = guild_join_req_guild_id req
         in case map_of (sv_guilds sv) gid of
              None \<Rightarrow> guild_join_reply ch False (str ''guild not found'') sv
            | Some g \<Rightarrow>
                if ch \<in> set (map fst (sv_channel_to_guild sv))
                then guild_join_reply ch False (str ''already in a guild'') sv
                else guild_join_reply ch True (str ''ok'') (join_guild ch gid g sv))"

definition handle_guild_leave :: "int \<Rightarrow> bytes \<Rightarrow> game_server \<Rightarrow> game_server outcome" where
  "handle_guild_leave ch data sv =
    (case map_of (sv_channel_to_guild sv) ch of
       None \<Rightarrow> Done sv
     | Some gid \<Rightarrow>
         send_test_frame ch 2003 (guild_leave_res_serialize
           \<lparr>guild_leave_res_success = True, guild_leave_res_message = str ''ok''\<rparr>) (leave_guild ch gid sv))"

section \<open>Dispatching\<close>

definition handle_ping :: "int \<Rightarrow> bytes \<Rightarrow> game_server \<Rightarrow> game_server outcome" where
  "handle_ping ch data = send_frame False ch 2 (str ''PONG'')"

definition handle_echo :: "int \<Rightarrow> bytes \<Rightarrow> game_server \<Rightarrow> game_server outcome" where
  "handle_echo ch data = send_frame False ch 100 data"

text \<open>A handler of the server as a handler of the dispatcher: nothing runs after a handler that did not return.\<close>

definition as_handler ::
  "(int \<Rightarrow> bytes \<Rightarrow> game_server \<Rightarrow> game_server outcome)
     \<Rightarrow> int \<Rightarrow> bytes \<Rightarrow> game_server outcome \<Rightarrow> game_server outcome" where
  "as_handler h ch data s = and_then s (h ch data)"

type_synonym srv_dispatcher =
  "(int \<Rightarrow> bytes \<Rightarrow> game_server outcome \<Rightarrow> game_server outcome) message_dispatcher"

definition bind_player_handlers :: "(bytes \<Rightarrow> int option) \<Rightarrow> srv_dispatcher \<Rightarrow> srv_dispatcher" where
  "bind_player_handlers tok d =
    (let d = bind_handler 1001 (as_handler (handle_login tok)) d;
         d = bind_handler 1002 (as_handler handle_move) d;
         d = bind_handler 1003 (as_handler handle_chat) d;
         d = bind_handler 1004 (as_handler handle_attack) d;
         d = bind_handler 1005 (as_handler handle_map_enter) d
     in d)"

definition bind_guild_handlers :: "srv_dispatcher \<Rightarrow> srv_dispatcher" where
  "bind_guild_handlers d =
    (let d = bind_handler 2001 (as_handler handle_guild_create) d;
         d = bind_handler 2002 (as_handler handle_guild_join) d;
         d = bind_handler 2003 (as_handler handle_guild_leave) d
     in d)"

definition sv_dispatcher :: "(bytes \<Rightarrow> int option) \<Rightarrow> srv_dispatcher" where
  "sv_dispatcher tok =
    (let d = \<lparr>dispatch_table = Map.empty\<rparr>;
         d = bind_handler 1 (as_handler handle_ping) d;
         d = bind_handler 100 (as_handler handle_echo) d;
         d = bind_player_handlers tok d;
         d = bind_guild_handlers d
     in d)"

definition on_frame :: "(bytes \<Rightarrow> int option) \<Rightarrow> int \<Rightarrow> u16 \<Rightarrow> bytes \<Rightarrow> game_server \<Rightarrow> game_server outcome" where
  "on_frame tok ch cmd data sv = dispatch (sv_dispatcher tok) cmd ch data (Done sv)"

section \<open>Completion handlers of the channels\<close>

text \<open>
  The events of a channel \<open>c\<close> reach the server in the order in which the channel produces them.
  The frames of one read are delivered while the channel is still parsing; the handlers do not touch
  the part of the channel that the parser works on.
\<close>

fun channel_events ::
  "(bytes \<Rightarrow> int option) \<Rightarrow> channel \<Rightarrow> chan_event list \<Rightarrow> game_server \<Rightarrow> game_server outcome" where
  "channel_events tok c [] sv = Done sv"
| "channel_events tok c (OnFrame ch cmd payload # evs) sv =
     and_then (on_frame tok ch cmd payload sv) (channel_events tok c evs)"
| "channel_events tok c (HandlerAccept ch # evs) sv = channel_events tok c evs (sv_on_accept ch c sv)"
| "channel_events tok c (HandlerClose ch reason # evs) sv =
     and_then (sv_on_close ch sv) (channel_events tok c evs)"
| "channel_events tok c (CloseCallback reason # evs) sv =
     channel_events tok c evs (sv\<lparr>sv_accepted := remove1 (channel_id c) (sv_accepted sv)\<rparr>)"
| "channel_events tok c (OutOfBoundsRead # evs) sv = ReadOutOfBounds"
| "channel_events tok c (ev # evs) sv =
     channel_events tok c evs (sv_emit (ChannelEvent (channel_id c) ev) sv)"

definition channel_input ::
  "(bytes \<Rightarrow> int option) \<Rightarrow> int \<Rightarrow> chan_input \<Rightarrow> game_server \<Rightarrow> game_server outcome" where
  "channel_input tok ch i sv =
    (case map_of (sv_channels sv) ch of
       None \<Rightarrow> Done sv
     | Some c \<Rightarrow>
         let (c, evs) = chan_apply c i
         in channel_events tok c evs (sv\<lparr>sv_channels := AList.update ch c (sv_channels sv)\<rparr>))"

text \<open>The accept handler of \<open>asio_server\<close>; \<open>now\<close> is the time at which the channel starts.\<close>

definition accept_channel :: "(bytes \<Rightarrow> int option) \<Rightarrow> u64 \<Rightarrow> game_server \<Rightarrow> game_server outcome" where
  "accept_channel tok now sv =
    (let ch = sv_next_channel_id sv;
         sv = sv\<lparr>sv_next_channel_id := to_int (to_u32 (ch + 1)), sv_accepted := uset_insert ch (sv_accepted sv)\<rparr>;
         (c, evs) = start (new_channel ch True True True) now
     in channel_events tok c evs sv)"

section \<open>Database jobs\<close>

definition run_login_job :: "(nat \<Rightarrow> create_attempt) \<Rightarrow> int \<Rightarrow> bytes \<Rightarrow> game_server \<Rightarrow> game_server" where
  "run_login_job db ch name sv =
    (let rec = fst (find_or_create db);
         sv = (case rec of
                 None \<Rightarrow> sv
               | Some r \<Rightarrow>
                   if sv_redis sv
                   then sv_emit (CacheSet (pr_id r)
                     (str ''{\"id\":'' @ fmt_d (pr_id r) @ str '',\"name\":\"'' @ name @ str ''\"''
                      @ str '',\"map_id\":'' @ fmt_d (pr_map_id r) @ str '',\"hp\":'' @ fmt_d (pr_hp r) @ str ''}'')
                     (sv_player_ttl_sec sv)) sv
                   else sv)
     in sv\<lparr>sv_io_jobs := sv_io_jobs sv @ [(ch, name, rec)]\<rparr>)"

text \<open>The closure of \<open>on_close\<close>; \<open>record\<close> writes a snapshot when one of the two queries failed.\<close>

definition close_snapshot :: "bool \<Rightarrow> int \<Rightarrow> bytes \<Rightarrow> f32 \<Rightarrow> f32 \<Rightarrow> f32 \<Rightarrow> int \<Rightarrow> int \<Rightarrow> int \<Rightarrow> int \<Rightarrow> player_save_snapshot" where
  "close_snapshot pos_ok db_id name x y z mid lv ex h =
    \<lparr>ps_player_id = db_id, ps_player_name = name,
     ps_operation = (if \<not> pos_ok then str ''save_position'' else str ''save_stats''),
     ps_pos_x = x, ps_pos_y = y, ps_pos_z = z, ps_map_id = mid, ps_level = lv, ps_exp = ex, ps_hp = h,
     ps_attempts = 3, ps_error_msg = str ''db_write_failed''\<rparr>"

record db_answers =
  da_create :: "nat \<Rightarrow> create_attempt"
  da_save :: "bytes \<Rightarrow> nat \<Rightarrow> save_attempt"
  da_file_open :: bool
  da_write_fails :: bool
  da_timestamp :: bytes

fun run_db_job :: "db_answers \<Rightarrow> int \<Rightarrow> db_job \<Rightarrow> game_server \<Rightarrow> game_server" where
  "run_db_job db ch (LoginJob name) sv = run_login_job (da_create db) ch name sv"
| "run_db_job db ch (SaveJob db_id name x y z mid lv ex h) sv =
     (let pos_ok = fst (save_position (da_save db) db_id x y z mid);
          stats_ok = fst (save_stats (da_save db) db_id lv ex h)
      in if pos_ok \<and> stats_ok then sv
         else fold (\<lambda>out. sv_emit (SinkEvent out))
           (sink_record (da_file_open db) (da_write_fails db) (da_timestamp db)
              (close_snapshot pos_ok db_id name x y z mid lv ex h)) sv)"
| "run_db_job db ch (FlushJob db_id x y z mid) sv =
     (let ok = fst (save_position (da_save db) db_id x y z mid) in sv)"

section \<open>Ticks, flushing and life cycle\<close>

definition on_tick :: "(nat \<Rightarrow> f32) \<Rightarrow> game_server \<Rightarrow> game_server" where
  "on_tick rnd sv =
    (if sv_use_ecs sv \<and> sv_service_up sv
     then sv\<lparr>sv_main := update_ecs rnd 0x3C83126F (sv_main sv)\<rparr> else sv)"

definition flush_entry :: "world \<Rightarrow> int \<Rightarrow> entity \<Rightarrow> db_job" where
  "flush_entry w db_id e =
    (let (x, y, z) = (case w_get_component position_slot w e of
            None \<Rightarrow> (0, 0, 0) | Some p \<Rightarrow> (pos_x p, pos_y p, pos_z p));
         mid = (case w_get_component player_slot w e of None \<Rightarrow> 1 | Some p \<Rightarrow> to_int (pl_map_id p))
     in FlushJob db_id x y z mid)"

fun flush_entries :: "game_server \<Rightarrow> (int \<times> int) list \<Rightarrow> (int \<times> db_job) list outcome" where
  "flush_entries sv [] = Done []"
| "flush_entries sv ((ch, db_id) # ids) =
     (case map_of (sv_channel_to_entity sv) ch of
        None \<Rightarrow> flush_entries sv ids
      | Some e \<Rightarrow>
          if ch \<notin> set (sv_db_strands sv) then flush_entries sv ids
          else and_then (service_world sv) (\<lambda>w.
            and_then (flush_entries sv ids) (\<lambda>es. Done ((ch, flush_entry w db_id e) # es))))"

definition flush_players :: "game_server \<Rightarrow> game_server outcome" where
  "flush_players sv =
    (if \<not> sv_dao sv then Done sv
     else and_then (flush_entries sv (sv_channel_to_db_id sv)) (\<lambda>entries.
       if entries = [] then Done sv else Done (fold (\<lambda>(ch, job). post_db ch job) entries sv)))"

definition initialize_threading_system :: "game_server \<Rightarrow> game_server" where
  "initialize_threading_system sv =
    (let m = mn_start (sv_main sv);
         m = fold (\<lambda>cfg. mn_create_map_thread (mc_id cfg) (mc_name cfg)) (sv_maps sv) m
     in sv\<lparr>sv_threads := True, sv_main := m\<rparr>)"

definition shutdown_threading_system :: "game_server \<Rightarrow> game_server" where
  "shutdown_threading_system sv =
    (if sv_threads sv then sv\<lparr>sv_main := mn_stop (sv_main sv), sv_threads := False\<rparr> else sv)"

text \<open>
  \<open>stop\<close>: joining the pool runs the jobs that are still posted (in the order of posting, one of the
  orders that the strands allow); \<open>db\<close> are the answers of the database to them.
\<close>

definition sv_stop :: "db_answers \<Rightarrow> game_server \<Rightarrow> game_server" where
  "sv_stop db sv =
    (let sv = shutdown_threading_system sv;
         sv = (if sv_db_pool sv
               then fold (\<lambda>(ch, job). run_db_job db ch job) (sv_db_jobs sv) (sv\<lparr>sv_db_jobs := []\<rparr>)
               else sv)
     in sv\<lparr>sv_dao := False, sv_channels := []\<rparr>)"

text \<open>
  The server after construction and \<open>set_config\<close>, with the process-wide seed of the map threads, and
  \<open>init\<close>. \<open>db\<close> and \<open>redis\<close> say whether the game database and Redis could be reached, \<open>listening\<close>
  whether the acceptor could be opened.
\<close>

definition new_game_server :: "bool \<Rightarrow> map_config list \<Rightarrow> int \<Rightarrow> u32 \<Rightarrow> game_server" where
  "new_game_server use_ecs maps ttl seed =
    \<lparr>sv_use_ecs = use_ecs, sv_maps = maps, sv_player_ttl_sec = ttl, sv_channels = [],
     sv_channel_to_entity = [], sv_service_up = False, sv_threads = False,
     sv_main = \<lparr>mn_task_queue = [], mn_network_tasks = [], mn_global_tasks = [],
       mn_maps = MapThreadManager, mn_running = False,
       mn_env = \<lparr>env_world = new_world, env_seed = seed\<rparr>, mn_map_system = MapSystem, mn_draws = 0,
       mn_systems = SystemManager\<rparr>,
     sv_player_map = [], sv_dao = False, sv_db_pool = False, sv_redis = False, sv_channel_to_db_id = [],
     sv_db_strands = [], sv_guilds = [], sv_channel_to_guild = [], sv_next_guild_id = 1,
     sv_accepted = [], sv_next_channel_id = 1, sv_db_jobs = [], sv_io_jobs = [], sv_out = []\<rparr>"

definition service_initialize :: "game_server \<Rightarrow> game_server" where
  "service_initialize sv =
    (case managers (fst (gs_initialize GameService)) of
       None \<Rightarrow> sv
     | Some (g, sm) \<Rightarrow> (set_world (gs_world g) sv)
         \<lparr>sv_service_up := True,
          sv_main := (sv_main (set_world (gs_world g) sv))
            \<lparr>mn_map_system := gs_map_system g, mn_draws := gs_draws g, mn_systems := sm\<rparr>\<rparr>)"

definition init_state :: "bool \<Rightarrow> bool \<Rightarrow> game_server \<Rightarrow> game_server" where
  "init_state db redis sv =
    (let sv = (if sv_use_ecs sv then initialize_threading_system (service_initialize sv) else sv)
     in sv\<lparr>sv_db_pool := True, sv_dao := db, sv_redis := redis\<rparr>)"

definition sv_init :: "bool \<Rightarrow> bool \<Rightarrow> bool \<Rightarrow> game_server \<Rightarrow> game_server \<times> bool" where
  "sv_init db redis listening sv = (init_state db redis sv, listening)"

section \<open>Steps\<close>

text \<open>
  One step of the server: an accepted connection, a completion handler of a channel, the first job of
  some strand on a database thread, the next closure of the \<open>io_context\<close>, a tick, the flush timer, one
  iteration of the main loop.
\<close>

datatype srv_input =
    Accepted u64
  | ChannelInput int chan_input
  | DbJob nat db_answers
  | IoJob
  | Tick
  | Flush
  | MainLoop f32

definition run_job_at :: "nat \<Rightarrow> db_answers \<Rightarrow> game_server \<Rightarrow> game_server" where
  "run_job_at i db sv =
    (if i < length (sv_db_jobs sv) \<and> fst (sv_db_jobs sv ! i) \<notin> fst ` set (take i (sv_db_jobs sv))
     then let (ch, job) = sv_db_jobs sv ! i
          in run_db_job db ch job (sv\<lparr>sv_db_jobs := take i (sv_db_jobs sv) @ drop (Suc i) (sv_db_jobs sv)\<rparr>)
     else sv)"

fun srv_step ::
  "(bytes \<Rightarrow> int option) \<Rightarrow> (nat \<Rightarrow> f32) \<Rightarrow> srv_input \<Rightarrow> game_server \<Rightarrow> game_server outcome" where
  "srv_step tok rnd (Accepted now) sv = accept_channel tok now sv"
| "srv_step tok rnd (ChannelInput ch i) sv = channel_input tok ch i sv"
| "srv_step tok rnd (DbJob i db) sv = Done (run_job_at i db sv)"
| "srv_step tok rnd IoJob sv =
     (case sv_io_jobs sv of
        [] \<Rightarrow> Done sv
      | (ch, name, rec) # js \<Rightarrow> login_continue ch name rec (sv\<lparr>sv_io_jobs := js\<rparr>))"
| "srv_step tok rnd Tick sv = Done (on_tick rnd sv)"
| "srv_step tok rnd Flush sv = flush_players sv"
| "srv_step tok rnd (MainLoop dt) sv =
     (if \<not> sv_threads sv then Done sv
      else case main_iteration (\<lambda>u m. m) rnd dt (sv_main sv) of
        None \<Rightarrow> Deadlock
      | Some m \<Rightarrow> Done (sv\<lparr>sv_main := m\<rparr>))"

text \<open>How many events of its channel a step handles.\<close>

fun step_events :: "srv_input \<Rightarrow> game_server \<Rightarrow> nat" where
  "step_events (ChannelInput ch i) sv =
     (case map_of (sv_channels sv) ch of None \<Rightarrow> 0 | Some c \<Rightarrow> length (snd (chan_apply c i)))"
| "step_events _ sv = 0"

text \<open>
  The contract of the asynchronous operations: a write without an error has transferred the whole
  buffer. Sending and closing are not completions: the server does them itself.
\<close>

fun completion_ok :: "channel \<Rightarrow> chan_input \<Rightarrow> bool" where
  "completion_ok c (ISend data sz) = False"
| "completion_ok c (IClose reason) = False"
| "completion_ok c (IWriteDone ec n now) =
     (ec \<or> (case in_flight c of None \<Rightarrow> True | Some (buffer, msgs) \<Rightarrow> n = length buffer))"
| "completion_ok c _ = True"

fun input_ok :: "srv_input \<Rightarrow> game_server \<Rightarrow> bool" where
  "input_ok (ChannelInput ch i) sv =
     (case map_of (sv_channels sv) ch of None \<Rightarrow> True | Some c \<Rightarrow> completion_ok c i)"
| "input_ok _ sv = True"

text \<open>The states of a running server, with the number of channel events handled so far.\<close>

inductive server_reach :: "(bytes \<Rightarrow> int option) \<Rightarrow> (nat \<Rightarrow> f32) \<Rightarrow> nat \<Rightarrow> game_server \<Rightarrow> bool"
  for tok rnd where
  init: "server_reach tok rnd 0 (fst (sv_init db redis True (new_game_server use_ecs maps ttl seed)))"
| step: "server_reach tok rnd k sv \<Longrightarrow> input_ok i sv \<Longrightarrow> srv_step tok rnd i sv = Done sv' \<Longrightarrow>
    server_reach tok rnd (k + step_events i sv) sv'"

end
