(* ===== verification/Server_Invariants.thy ===== *)
theory Server_Invariants
  imports Game_Server
begin

text \<open>
  What every step of the server keeps. Section one is a small calculus for outcomes; section two says
  what a channel can do to the server; the locale \<open>server_invariant\<close> states what an invariant of the
  server must survive and derives that every handler, and with them every step, keeps it. The theory
  ends with the interpretations of the locale and the properties that rest on them.
\<close>

section \<open>Reasoning about outcomes\<close>

text \<open>\<open>safe P r\<close>: the run returns a state with \<open>P\<close> or blocks on the mutex, and nothing worse.\<close>

fun safe :: "('a \<Rightarrow> bool) \<Rightarrow> 'a outcome \<Rightarrow> bool" where
  "safe P (Done a) = P a"
| "safe P Deadlock = True"
| "safe P NullAccess = False"
| "safe P ReadOutOfBounds = False"

lemma safe_and_then: "safe Q r \<Longrightarrow> (\<And>a. Q a \<Longrightarrow> safe P (f a)) \<Longrightarrow> safe P (and_then r f)"
  by (cases r) auto

lemma safe_mono: "safe Q r \<Longrightarrow> (\<And>a. Q a \<Longrightarrow> P a) \<Longrightarrow> safe P r"
  by (cases r) auto

lemma safe_parsed:
  assumes "r \<noteq> OutOfBounds" "\<And>a rest. r = Parsed a rest \<Longrightarrow> safe P (f a rest)" "safe P s"
  shows "safe P (case r of OutOfBounds \<Rightarrow> ReadOutOfBounds | Reject \<Rightarrow> s | Parsed a rest \<Rightarrow> f a rest)"
  using assms by (cases r) auto

lemma safe_if: "(b \<Longrightarrow> safe P x) \<Longrightarrow> (\<not> b \<Longrightarrow> safe P y) \<Longrightarrow> safe P (if b then x else y)"
  by simp

lemma set_world_fields [simp]:
  "sv_world (set_world w sv) = w"
  "sv_channels (set_world w sv) = sv_channels sv" "sv_out (set_world w sv) = sv_out sv"
  "sv_channel_to_entity (set_world w sv) = sv_channel_to_entity sv"
  "sv_service_up (set_world w sv) = sv_service_up sv" "sv_threads (set_world w sv) = sv_threads sv"
  "sv_use_ecs (set_world w sv) = sv_use_ecs sv" "sv_db_jobs (set_world w sv) = sv_db_jobs sv"
  by (simp_all add: set_world_def sv_world_def)

lemma and_then_Done [simp]: "and_then r Done = r"
  by (cases r) auto

section \<open>What a channel does to the server\<close>

text \<open>An open channel with all callbacks set that parses inside its buffer.\<close>

definition chan_open :: "int \<Rightarrow> channel \<Rightarrow> bool" where
  "chan_open ch c \<longleftrightarrow> channel_id c = ch \<and> has_handler c \<and> has_close_callback c \<and> has_on_frame c
     \<and> \<not> closed c \<and> frame_acc_offset c \<le> length (frame_acc c)"

text \<open>Events that are neither about accepting nor about closing.\<close>

fun quiet :: "chan_event \<Rightarrow> bool" where
  "quiet (HandlerAccept ch) = False"
| "quiet (HandlerClose ch reason) = False"
| "quiet (CloseCallback reason) = False"
| "quiet OutOfBoundsRead = False"
| "quiet _ = True"

fun is_frame :: "chan_event \<Rightarrow> bool" where
  "is_frame (OnFrame ch cmd payload) = True"
| "is_frame _ = False"

definition closing :: "int \<Rightarrow> chan_event list \<Rightarrow> bool" where
  "closing ch evs \<longleftrightarrow> (\<exists>reason rest. evs = PostShutdown # HandlerClose ch reason # CloseCallback reason # rest
     \<and> list_all (\<lambda>ev. quiet ev \<and> \<not> is_frame ev) rest)"

definition chan_result :: "int \<Rightarrow> channel \<times> chan_event list \<Rightarrow> bool" where
  "chan_result ch r \<longleftrightarrow> (chan_open ch (fst r) \<and> list_all quiet (snd r)) \<or> closing ch (snd r)"

lemma close_result:
  "chan_open ch c \<Longrightarrow> closing ch (fst (snd (close c reason)))"
  by (auto simp: chan_open_def closing_def close_def on_close_def Let_def)

lemma kick_write_result:
  "chan_open ch c \<Longrightarrow> chan_open ch (fst (kick_write c)) \<and> list_all (\<lambda>ev. quiet ev \<and> \<not> is_frame ev) (snd (kick_write c))"
  by (auto simp: kick_write_def do_write_def make_batch_def chan_open_def Let_def case_prod_unfold)

lemma send_result_strong:
  assumes "chan_open ch c"
  shows "(chan_open ch (fst (send c pkt sz)) \<and> list_all (\<lambda>ev. quiet ev \<and> \<not> is_frame ev) (snd (send c pkt sz)))
    \<or> closing ch (snd (send c pkt sz))"
proof -
  have live: "chan_open ch (fst (enqueue_send c b))" for b
    using assms by (auto simp: enqueue_send_def chan_open_def Let_def)
  have live': "chan_open ch ((fst (enqueue_send c b))\<lparr>force_closes := n\<rparr>)" for b n
    using live [of b] by (simp add: chan_open_def)
  show ?thesis
    using assms close_result [OF live'] kick_write_result [OF live]
    by (auto simp: send_def Let_def case_prod_unfold)
qed

lemma send_result: "chan_open ch c \<Longrightarrow> chan_result ch (send c pkt sz)"
  using send_result_strong [of ch c pkt sz] by (auto simp: chan_result_def list_all_iff)

lemma parse_loop_result:
  "frame_acc_offset c \<le> length (frame_acc c) \<Longrightarrow>
     list_all quiet (snd (parse_loop c)) \<and> frame_acc (fst (parse_loop c)) = frame_acc c
     \<and> frame_acc_offset (fst (parse_loop c)) \<le> length (frame_acc c)"
proof (induction c rule: parse_loop.induct)
  case (1 c)
  show ?case
  proof (cases "try_parse_one (frame_acc c) (frame_acc_offset c)")
    case (NoFrame off)
    then show ?thesis
      using try_parse_one_NoFrame [OF NoFrame] 1(3) by (subst (1 2 3) parse_loop.simps) auto
  next
    case (Frame hdr payload ok off)
    then show ?thesis
      using try_parse_one_progress [OF Frame] 1(1) [OF Frame refl] 1(2) [OF Frame refl]
      by (subst (1 2 3) parse_loop.simps) (auto simp: Let_def case_prod_unfold)
  next
    case Overrun
    then show ?thesis using try_parse_one_no_overrun [OF 1(3)] by simp
  qed
qed

lemma read_open:
  assumes "chan_open ch c"
  shows "chan_open ch (fst (read_handler c False data)) \<and> list_all quiet (snd (read_handler c False data))"
proof -
  let ?c = "c\<lparr>frame_acc := frame_acc c @ data\<rparr>"
  have "frame_acc_offset ?c \<le> length (frame_acc ?c)" using assms by (simp add: chan_open_def)
  note res = parse_loop_result [OF this]
  obtain off d where st: "fst (parse_loop ?c) = ?c\<lparr>frame_acc_offset := off, drops := d\<rparr>"
    using parse_loop_state [of ?c] by blast
  obtain evs where pl: "parse_loop ?c = (?c\<lparr>frame_acc_offset := off, drops := d\<rparr>, evs)"
    using st by (cases "parse_loop ?c") simp
  have "off \<le> length (frame_acc c @ data)" "list_all quiet evs" using res by (simp_all add: pl)
  then show ?thesis
    using assms by (simp add: chan_open_def read_handler_def parse_frames_def pl)
qed

lemma read_result: "chan_open ch c \<Longrightarrow> chan_result ch (read_handler c ec data)"
  using close_result [of ch c CF_read] read_open [of ch c data]
  by (cases ec) (auto simp: chan_result_def read_handler_def [of c True] case_prod_unfold Let_def)

lemma closing_append:
  "closing ch evs \<Longrightarrow> list_all (\<lambda>ev. quiet ev \<and> \<not> is_frame ev) evs' \<Longrightarrow> closing ch (evs @ evs')"
  by (auto simp: closing_def)

lemma ping_result: "chan_open ch c \<Longrightarrow> chan_result ch (ping_handler c ec)"
proof -
  assume live: "chan_open ch c"
  have "chan_result ch (send_ping c)" unfolding send_ping_def Let_def by (rule send_result [OF live])
  then show ?thesis
    using live by (auto simp: ping_handler_def chan_result_def Let_def case_prod_unfold intro: closing_append)
qed

lemma write_result:
  assumes live: "chan_open ch c"
  shows "chan_result ch (write_handler c ec n now)"
proof (cases "in_flight c")
  case None
  then show ?thesis using live by (simp add: chan_result_def write_handler_def)
next
  case (Some b)
  have "chan_open ch (c\<lparr>in_flight := None\<rparr>)" using live by (simp add: chan_open_def)
  moreover have "chan_open ch (c\<lparr>in_flight := None, current_queue_bytes := a1, deq_msgs := a2,
      bytes_sent := a3, last_send_ms := a4, writing := a5\<rparr>)" for a1 a2 a3 a4 a5
    using live by (simp add: chan_open_def)
  note kick_write_result [OF this]
  ultimately show ?thesis
    using Some close_result [of ch "c\<lparr>in_flight := None\<rparr>"] live
    by (auto simp: chan_result_def write_handler_def Let_def case_prod_unfold chan_open_def list_all_iff)
qed

lemma chan_apply_id: "channel_id (fst (chan_apply c i)) = channel_id c"
proof -
  have kick: "channel_id (fst (kick_write c)) = channel_id c" for c
    by (auto simp: kick_write_def do_write_def make_batch_def Let_def case_prod_unfold)
  have send: "channel_id (fst (send c pkt sz)) = channel_id c" for pkt sz
    by (auto simp: send_def enqueue_send_def Let_def case_prod_unfold close_state kick)
  have "channel_id (fst (read_handler c ec data)) = channel_id c" for ec data
    using read_handler_state [of c data, THEN arg_cong, of channel_id]
    by (cases ec) (simp_all add: read_handler_def [of c True] close_state case_prod_unfold Let_def)
  moreover have "channel_id (fst (write_handler c ec n now)) = channel_id c" for ec n now
    by (auto simp: write_handler_def Let_def case_prod_unfold close_state kick split: option.split)
  ultimately show ?thesis
    by (cases i) (auto simp: send idle_handler_def ping_handler_def send_ping_def stats_handler_def
        Let_def case_prod_unfold close_state)
qed

lemma chan_apply_result: "chan_open ch c \<Longrightarrow> chan_result ch (chan_apply c i)"
proof (cases i)
  case (IIdle ec now)
  assume "chan_open ch c"
  then show ?thesis
    using IIdle close_result [of ch c]
    by (auto simp: idle_handler_def chan_result_def Let_def case_prod_unfold)
next
  case (IClose reason)
  assume "chan_open ch c"
  then show ?thesis using IClose close_result [of ch c] by (simp add: chan_result_def Let_def case_prod_unfold)
next
  case (IStats ec)
  assume "chan_open ch c"
  then show ?thesis using IStats by (simp add: stats_handler_def chan_result_def)
qed (simp_all add: send_result read_result ping_result write_result)

text \<open>A channel that the server has an entry for: open, and with a consistent send queue.\<close>

definition chan_live :: "int \<Rightarrow> channel \<Rightarrow> bool" where
  "chan_live ch c \<longleftrightarrow> chan_open ch c \<and> write_inv c"

lemma to_int_of_nat: "n < 2 ^ 31 \<Longrightarrow> to_int (of_nat n) = int n"
  by (simp add: to_int_def signed_of_nat signed_take_bit_int_eq_self)

lemma to_int_of_nat_bounds: "to_int (of_nat n) < 2 ^ 31 \<and> to_int (of_nat n) \<le> int n"
  using sint_less [of "of_nat n :: u32"] to_int_of_nat [of n]
  by (cases "n < 2 ^ 31") (simp_all add: to_int_def)

lemma send_live:
  assumes "chan_live ch c"
  shows "(chan_live ch (fst (send c pkt (to_int (of_nat (length pkt)))))
      \<and> list_all (\<lambda>ev. quiet ev \<and> \<not> is_frame ev) (snd (send c pkt (to_int (of_nat (length pkt))))))
    \<or> closing ch (snd (send c pkt (to_int (of_nat (length pkt)))))"
  using assms send_result_strong [of ch c pkt] write_inv_send [of c "to_int (of_nat (length pkt))" pkt]
    to_int_of_nat_bounds [of "length pkt"]
  by (auto simp: chan_live_def)

lemma write_done_inv:
  assumes inv: "write_inv c" and ok: "completion_ok c (IWriteDone ec n now)"
  shows "write_inv (fst (write_handler c ec n now))"
proof (cases "in_flight c")
  case None
  then show ?thesis using inv by (simp add: write_handler_def)
next
  case (Some b)
  obtain buffer msgs where b: "in_flight c = Some (buffer, msgs)" using Some by (cases b) simp
  show ?thesis
  proof (cases ec)
    case True
    then show ?thesis using write_inv_write_err [OF inv b] by simp
  next
    case False
    then show ?thesis using write_inv_write_ok [OF inv b] ok b by simp
  qed
qed

lemma completion_write_inv: "write_inv c \<Longrightarrow> completion_ok c i \<Longrightarrow> write_inv (fst (chan_apply c i))"
  using write_inv_ping [THEN conjunct1, of c] write_inv_read_handler [THEN conjunct1, of c]
    write_inv_timers [THEN conjunct1, of c]
  by (cases i) (simp_all add: write_done_inv del: completion_ok.simps(3))

lemma completion_live:
  "chan_live ch c \<Longrightarrow> completion_ok c i \<Longrightarrow>
     (chan_live ch (fst (chan_apply c i)) \<and> list_all quiet (snd (chan_apply c i))) \<or> closing ch (snd (chan_apply c i))"
  using chan_apply_result [of ch c i] completion_write_inv [of c i] by (auto simp: chan_live_def chan_result_def)

lemma started_live: "chan_live ch (fst (start (new_channel ch True True True) now))"
  using write_inv_start by (simp add: chan_live_def chan_open_def Channel.start_def new_channel_def Let_def)

text \<open>Closing a channel forgets its entry, whatever the entry was.\<close>

lemma on_close_update:
  "sv_on_close ch (sv\<lparr>sv_channels := AList.update ch c cs\<rparr>) = sv_on_close ch (sv\<lparr>sv_channels := cs\<rparr>)"
  by (simp add: sv_on_close_def entity_of_def delete_update_same)

section \<open>Invariants of the server\<close>

lemma server_reach_init: "server_reach tok rnd 0 (init_state db redis (new_game_server use_ecs maps ttl seed))"
  using server_reach.init [of tok rnd db redis use_ecs maps ttl seed] by (simp add: sv_init_def)

text \<open>
  What an operation of the server may rely on and must keep: an invariant, indexed by the number of
  handled events, that says when the game service is up and otherwise does not mention the channels, the
  output and the persistence layer. It survives the login and the removal of a player and the three
  changes that the guild handlers make.
\<close>

locale server_invariant =
  fixes I :: "nat \<Rightarrow> game_server \<Rightarrow> bool"
  assumes start: "I 0 (init_state db redis (new_game_server use_ecs maps ttl seed))"
    and up: "I k sv \<Longrightarrow> sv_use_ecs sv \<or> sv_channel_to_entity sv \<noteq> [] \<Longrightarrow> sv_service_up sv"
    and more: "I k sv \<Longrightarrow> I (Suc k) sv"
    and live: "I k sv \<Longrightarrow> map_of (sv_channels sv) ch = Some c \<Longrightarrow> chan_live ch c"
    and keeps_channel: "I k sv \<Longrightarrow> chan_live ch c \<Longrightarrow> I k (sv\<lparr>sv_channels := AList.update ch c (sv_channels sv)\<rparr>)"
    and keeps_drop: "I k sv \<Longrightarrow> I k (sv\<lparr>sv_channels := AList.delete ch (sv_channels sv)\<rparr>)"
    and keeps_accepted: "I k sv \<Longrightarrow> I k (sv\<lparr>sv_next_channel_id := i, sv_accepted := as\<rparr>)"
    and keeps_out: "I k sv \<Longrightarrow> I k (sv\<lparr>sv_out := out\<rparr>)"
    and keeps_jobs: "I k sv \<Longrightarrow> I k (sv\<lparr>sv_db_jobs := js, sv_io_jobs := ios\<rparr>)"
    and keeps_player_map: "I k sv \<Longrightarrow> I k (sv\<lparr>sv_player_map := pm\<rparr>)"
    and keeps_main: "I k sv \<Longrightarrow> I k (sv\<lparr>sv_main := m\<rparr>)"
    and keeps_db: "I k sv \<Longrightarrow> I k (sv\<lparr>sv_channel_to_db_id := ids, sv_db_strands := ss\<rparr>)"
    and keeps_removal: "I k sv \<Longrightarrow> I k (sv\<lparr>sv_channel_to_entity := AList.delete ch (sv_channel_to_entity sv)\<rparr>)"
    and keeps_login: "I k sv \<Longrightarrow> sv_service_up sv \<Longrightarrow>
      I k (sv\<lparr>sv_channel_to_entity := AList.update ch e (sv_channel_to_entity sv)\<rparr>)"
    and keeps_create: "I k sv \<Longrightarrow> ch \<notin> fst ` set (sv_channel_to_guild sv) \<Longrightarrow>
      I (Suc k) (create_guild ch name desc sv)"
    and keeps_join: "I k sv \<Longrightarrow> ch \<notin> fst ` set (sv_channel_to_guild sv) \<Longrightarrow>
      map_of (sv_guilds sv) gid = Some g \<Longrightarrow> I k (join_guild ch gid g sv)"
    and keeps_leave: "I k sv \<Longrightarrow> map_of (sv_channel_to_guild sv) ch = Some gid \<Longrightarrow> I k (leave_guild ch gid sv)"
begin

lemma more_add: "I k sv \<Longrightarrow> I (k + n) sv"
  by (induction n) (auto intro: more)

lemma keeps_emit: "I k sv \<Longrightarrow> I k (sv_emit ev sv)"
  by (simp add: sv_emit_def keeps_out)

lemma keeps_world: "I k sv \<Longrightarrow> I k (set_world w sv)"
  by (simp add: set_world_def keeps_main)

lemma keeps_post: "I k sv \<Longrightarrow> I k (post_db ch job sv)"
  using keeps_jobs [of k sv "sv_io_jobs sv" "sv_db_jobs sv @ [(ch, job)]"] by (simp add: post_db_def)

lemma keeps_closed: "I k sv \<Longrightarrow> I k (sv\<lparr>sv_accepted := as\<rparr>)"
  using keeps_accepted [of k sv as "sv_next_channel_id sv"] by simp

lemma keeps_ids: "I k sv \<Longrightarrow> I k (sv\<lparr>sv_channel_to_db_id := ids\<rparr>)"
  using keeps_db [of k sv "sv_db_strands sv" ids] by simp

lemma keeps_strands: "I k sv \<Longrightarrow> I k (sv\<lparr>sv_db_strands := ss\<rparr>)"
  using keeps_db [of k sv ss "sv_channel_to_db_id sv"] by simp

lemma entity_up: "I k sv \<Longrightarrow> entity_of ch sv \<noteq> 0 \<Longrightarrow> sv_service_up sv"
  by (rule up) (auto simp: entity_of_def split: option.splits)

lemma close_safe:
  assumes I: "I k sv"
  shows "safe (I k) (sv_on_close ch sv)"
proof -
  let ?sv = "sv\<lparr>sv_channels := AList.delete ch (sv_channels sv),
                sv_channel_to_entity := AList.delete ch (sv_channel_to_entity sv),
                sv_channel_to_db_id := AList.delete ch (sv_channel_to_db_id sv),
                sv_db_strands := remove1 ch (sv_db_strands sv)\<rparr>"
  have I1: "I k ?sv" using keeps_db [OF keeps_removal [OF keeps_drop [OF I]]] by simp
  have up1: "entity_of ch sv \<noteq> 0 \<Longrightarrow> sv_service_up sv" using entity_up I by blast
  define I' where "I' sv' \<longleftrightarrow> I k sv' \<and> sv_service_up sv' = sv_service_up sv" for sv'
  have post: "I' ?sv" "I' (post_db ch job ?sv)" for job
    using I1 keeps_post [OF I1] by (simp_all add: I'_def post_db_def)
  have emit: "I' (if b then sv_emit ev s else s)" if "I' s" for b ev s
    using that keeps_emit by (simp add: I'_def sv_emit_def)
  have unmap: "I' (if b then s\<lparr>sv_player_map := pm\<rparr> else s)" if "I' s" for b pm s
    using that keeps_player_map by (simp add: I'_def)
  have destroy: "safe (I k) (if entity_of ch sv \<noteq> 0 \<and> b
      then and_then (service_world s) (\<lambda>w. Done (set_world (f w) s)) else Done s)" if "I' s" for b s f
    using that up1 keeps_world by (simp add: I'_def service_world_def)
  have save: "safe I' (if b \<and> entity_of ch sv \<noteq> 0
      then and_then (service_world ?sv) (\<lambda>w. Done (post_db ch (job w) ?sv)) else Done ?sv)" for b job
    using post up1 by (simp add: service_world_def)
  show ?thesis
    unfolding sv_on_close_def Let_def conj_assoc [symmetric]
    by (rule safe_and_then [OF save]) (rule destroy [OF unmap [OF emit]])
qed

lemma quiet_events_safe:
  "I k sv \<Longrightarrow> list_all (\<lambda>ev. quiet ev \<and> \<not> is_frame ev) evs \<Longrightarrow> safe (I k) (send_events held ch evs sv)"
  by (induction held ch evs sv rule: send_events.induct) (auto intro: keeps_emit)

lemma closing_safe:
  assumes "I k sv" "closing ch evs"
  shows "safe (I k) (send_events held ch evs (sv\<lparr>sv_channels := AList.update ch c (sv_channels sv)\<rparr>))"
proof -
  from assms(2) obtain reason rest where evs: "evs = PostShutdown # HandlerClose ch reason # CloseCallback reason # rest"
    and rest: "list_all (\<lambda>ev. quiet ev \<and> \<not> is_frame ev) rest"
    by (auto simp: closing_def)
  let ?sv = "sv_emit (ChannelEvent ch PostShutdown) sv"
  have "sv_emit (ChannelEvent ch PostShutdown) (sv\<lparr>sv_channels := AList.update ch c (sv_channels sv)\<rparr>)
      = ?sv\<lparr>sv_channels := AList.update ch c (sv_channels ?sv)\<rparr>"
    by (simp add: sv_emit_def)
  moreover have "safe (I k) (sv_on_close ch (?sv\<lparr>sv_channels := AList.update ch c (sv_channels ?sv)\<rparr>))"
    using close_safe [OF keeps_emit [OF assms(1)]] by (simp add: on_close_update)
  moreover have "safe (I k) (send_events held ch (CloseCallback reason # rest) s)" if "I k s" for s
    using quiet_events_safe [OF keeps_closed [OF that] rest] by simp
  ultimately show ?thesis
    unfolding evs by (cases held) (auto intro: safe_and_then [where Q = "I k"])
qed

lemma channel_send_safe: "I k sv \<Longrightarrow> safe (I k) (channel_send held ch pkt sv)"
proof (cases "map_of (sv_channels sv) ch")
  case (Some c)
  assume I: "I k sv"
  show ?thesis
    using send_live [OF live [OF I Some], of pkt] I
    by (auto simp: channel_send_def Some case_prod_unfold Let_def
        intro: closing_safe quiet_events_safe keeps_channel)
qed (simp add: channel_send_def)

lemma send_frame_safe: "I k sv \<Longrightarrow> safe (I k) (send_frame held ch msg_id data sv)"
  by (simp add: send_frame_def channel_send_safe)

lemma send_test_frame_safe: "I k sv \<Longrightarrow> safe (I k) (send_test_frame ch msg_id data sv)"
  by (simp add: send_test_frame_def send_frame_safe)

lemma broadcast_loop_safe: "I k sv \<Longrightarrow> safe (I k) (broadcast_loop chs pkt sv)"
  by (induction chs arbitrary: sv) (auto intro: safe_and_then [where Q = "I k"] channel_send_safe)

lemma spawn_safe:
  "I k sv \<Longrightarrow> sv_service_up sv \<Longrightarrow> safe (\<lambda>(sv, e). I k sv) (spawn_player ch name pid x y z mid h sv)"
  by (auto simp: spawn_player_def service_world_def case_prod_unfold Let_def
      intro!: keeps_login [of k "set_world w sv" for w, simplified] keeps_world)

lemma login_reply_safe: "I k sv \<Longrightarrow> safe (I k) (login_reply ch ok msg pid mid sv)"
  by (simp add: login_reply_def send_frame_safe)

lemma login_default_safe: "I k sv \<Longrightarrow> safe (I k) (login_default ch name sv)"
  unfolding login_default_def
  by (rule safe_and_then [where Q = "\<lambda>(sv, e). I k sv"])
    (auto intro: spawn_safe login_reply_safe dest: up)

lemma handle_login_safe: "I k sv \<Longrightarrow> safe (I k) (handle_login tok ch data sv)"
  unfolding handle_login_def
  by (rule safe_parsed [OF safe_fromD [OF login_req_codec.in_bounds]])
    (auto intro: login_reply_safe login_default_safe keeps_post)

lemma login_continue_safe:
  assumes I: "I k sv"
  shows "safe (I k) (login_continue ch name rec sv)"
proof -
  have spawned: "safe (\<lambda>(sv, e). I k sv)
      (and_then (spawn_player ch name pid x y z mid h sv)
        (\<lambda>(sv, e). Done (if b then sv\<lparr>sv_channel_to_db_id := ids sv\<rparr> else sv, e)))"
    if "sv_use_ecs sv" for pid x y z mid h b ids
    using I up [OF I] that
    by (intro safe_and_then [where Q = "\<lambda>(sv, e). I k sv"] spawn_safe) (auto intro: keeps_ids)
  show ?thesis
  proof (cases rec)
    case None
    then show ?thesis using I by (simp add: login_continue_def login_reply_safe)
  next
    case (Some r)
    show ?thesis
      unfolding login_continue_def Some option.case
      by (rule safe_if, simp add: I, rule safe_and_then [where Q = "\<lambda>(sv, e). I k sv"],
          rule safe_if, erule spawned, auto simp: I intro: login_reply_safe)
  qed
qed

lemma route_safe: "I k sv \<Longrightarrow> I k (route_packet_to_map ch cmd data sv)"
  by (simp add: route_packet_to_map_def Let_def keeps_main)

lemma handle_move_safe: "I k sv \<Longrightarrow> safe (I k) (handle_move ch data sv)"
  unfolding handle_move_def
  by (rule safe_parsed [OF safe_fromD [OF player_move_req_codec.in_bounds]])
    (auto simp: Let_def service_world_def broadcast_except_def route_safe keeps_world dest: entity_up
      intro!: safe_and_then [where Q = "I k"] broadcast_loop_safe send_test_frame_safe)

lemma handle_chat_safe: "I k sv \<Longrightarrow> safe (I k) (handle_chat ch data sv)"
  by (auto simp: handle_chat_def broadcast_def keeps_main
      intro!: safe_and_then [where Q = "I k"] broadcast_loop_safe send_test_frame_safe)

lemma keeps_kill:
  "I k sv \<Longrightarrow> I k (set_world w sv\<lparr>sv_channel_to_entity := AList.delete ch (sv_channel_to_entity sv)\<rparr>)"
  using keeps_removal [OF keeps_world] by simp

lemma handle_attack_safe: "I k sv \<Longrightarrow> safe (I k) (handle_attack ch data sv)"
  unfolding handle_attack_def
  by (rule safe_parsed [OF safe_fromD [OF attack_req_codec.in_bounds]])
    (auto simp: Let_def service_world_def broadcast_except_def attack_reply_def dest: entity_up
      intro!: safe_and_then [where Q = "I k"] broadcast_loop_safe send_test_frame_safe
        keeps_world keeps_kill)

lemma handle_map_enter_safe: "I k sv \<Longrightarrow> safe (I k) (handle_map_enter ch data sv)"
proof -
  assume I: "I k sv"
  have entity: "safe (I k)
      (case map_of (sv_channel_to_entity s) ch of
         None \<Rightarrow> Done s
       | Some e \<Rightarrow> and_then (service_world s) (\<lambda>w. Done (set_world (f e w) s)))" if "I k s" for s f
    using that up [OF that]
    by (cases "map_of (sv_channel_to_entity s) ch") (force simp: service_world_def keeps_world)+
  have moved: "I k (if b then sv_update_player_map ch mid sv else sv)" for b mid
    using I by (simp add: sv_update_player_map_def keeps_player_map)
  show ?thesis
    unfolding handle_map_enter_def
  proof (rule safe_parsed [OF safe_fromD [OF map_enter_req_codec.in_bounds]], goal_cases)
    case (1 req rest)
    show ?case
    proof (cases "List.find (\<lambda>m. mc_id m = to_int (map_enter_req_map_id req)) (sv_maps sv)")
      case None
      show ?thesis unfolding None Let_def option.case by (rule send_test_frame_safe [OF I])
    next
      case (Some cfg)
      show ?thesis
        unfolding Some Let_def option.case
        by (rule safe_and_then [OF entity [OF moved]]) (rule send_test_frame_safe)
    qed
  qed (simp add: I)
qed

lemma handle_guild_create_safe: "I k sv \<Longrightarrow> safe (I (Suc k)) (handle_guild_create ch data sv)"
  unfolding handle_guild_create_def
  by (rule safe_parsed [OF safe_fromD [OF guild_create_req_codec.in_bounds]])
    (auto simp: Let_def guild_create_reply_def intro!: send_test_frame_safe intro: more keeps_create)

lemma handle_guild_join_safe: "I k sv \<Longrightarrow> safe (I k) (handle_guild_join ch data sv)"
  unfolding handle_guild_join_def
  by (rule safe_parsed [OF safe_fromD [OF guild_join_req_codec.in_bounds]])
    (auto simp: Let_def guild_join_reply_def split: option.split intro!: send_test_frame_safe keeps_join)

lemma handle_guild_leave_safe: "I k sv \<Longrightarrow> safe (I k) (handle_guild_leave ch data sv)"
  by (auto simp: handle_guild_leave_def split: option.split intro!: send_test_frame_safe keeps_leave)

lemma safe_more: "safe (I k) r \<Longrightarrow> safe (I (Suc k)) r"
  by (erule safe_mono) (rule more)

lemma on_frame_safe: "I k sv \<Longrightarrow> safe (I (Suc k)) (on_frame tok ch cmd data sv)"
  by (simp add: on_frame_def sv_dispatcher_def bind_player_handlers_def bind_guild_handlers_def
      dispatch_bind as_handler_def Let_def handle_ping_def handle_echo_def handle_guild_create_safe
      safe_more handle_login_safe handle_move_safe handle_chat_safe handle_attack_safe
      handle_map_enter_safe handle_guild_join_safe handle_guild_leave_safe send_frame_safe)
    (simp add: dispatch_def more)

lemma accept_safe: "I k sv \<Longrightarrow> chan_live ch c \<Longrightarrow> I k (sv_on_accept ch c sv)"
  by (simp add: sv_on_accept_def sv_update_player_map_def Let_def keeps_player_map keeps_strands keeps_channel)

lemma channel_events_safe:
  "I k sv \<Longrightarrow> list_all quiet evs \<Longrightarrow> safe (I (k + length evs)) (channel_events tok c evs sv)"
proof (induction tok c evs sv arbitrary: k rule: channel_events.induct)
  case (2 tok c ch cmd payload evs sv)
  show ?case
    using 2 on_frame_safe [OF 2(2)]
    by (auto intro!: safe_and_then [where Q = "I (Suc k)"] simp flip: add_Suc)
qed (simp_all flip: add_Suc add: more keeps_emit)

lemma closing_events:
  assumes "closing ch evs" "channel_id c = ch"
  shows "channel_events tok c evs sv = send_events False ch evs sv"
proof -
  have quiet: "channel_events tok c evs sv = send_events held ch evs sv"
    if "list_all (\<lambda>ev. quiet ev \<and> \<not> is_frame ev) evs" for evs sv held
    using that assms(2) by (induction tok c evs sv rule: channel_events.induct) auto
  then have "channel_events tok c (CloseCallback reason # rest) = send_events False ch (CloseCallback reason # rest)"
    if "list_all (\<lambda>ev. quiet ev \<and> \<not> is_frame ev) rest" for reason rest
    using that assms(2) by (simp add: fun_eq_iff)
  then show ?thesis using assms by (auto simp: closing_def simp del: channel_events.simps(5) send_events.simps(3))
qed

lemma channel_input_safe:
  "I k sv \<Longrightarrow> input_ok (ChannelInput ch i) sv \<Longrightarrow> safe (I (k + step_events (ChannelInput ch i) sv)) (channel_input tok ch i sv)"
proof (cases "map_of (sv_channels sv) ch")
  case (Some c)
  assume I: "I k sv" and ok: "input_ok (ChannelInput ch i) sv"
  let ?r = "chan_apply c i"
  let ?sv = "sv\<lparr>sv_channels := AList.update ch (fst ?r) (sv_channels sv)\<rparr>"
  have id: "channel_id (fst ?r) = ch" using live [OF I Some] by (simp add: chan_apply_id chan_live_def chan_open_def)
  have "safe (I (k + length (snd ?r))) (channel_events tok (fst ?r) (snd ?r) ?sv)"
  proof (rule disjE [OF completion_live [OF live [OF I Some], of i]])
    show "completion_ok c i" using ok Some by simp
  next
    assume *: "chan_live ch (fst ?r) \<and> list_all quiet (snd ?r)"
    show ?thesis by (rule channel_events_safe [OF keeps_channel [OF I]]) (use * in auto)
  next
    assume "closing ch (snd ?r)"
    then show ?thesis
      using closing_safe [OF I, of ch "snd ?r" False "fst ?r"]
      by (simp add: closing_events [OF _ id] safe_mono [OF _ more_add])
  qed
  then show ?thesis by (simp add: channel_input_def Some case_prod_unfold Let_def)
qed (simp add: channel_input_def)

lemma accept_channel_safe: "I k sv \<Longrightarrow> safe (I k) (accept_channel tok now sv)"
  by (simp add: accept_channel_def Channel.start_def new_channel_def Let_def keeps_accepted keeps_emit
      accept_safe started_live [unfolded Channel.start_def new_channel_def Let_def, simplified])

lemma flush_entries_safe: "I k sv \<Longrightarrow> safe (\<lambda>_. True) (flush_entries sv ids)"
proof (induction sv ids rule: flush_entries.induct)
  case (2 sv ch db_id ids)
  show ?case
  proof (cases "map_of (sv_channel_to_entity sv) ch")
    case None
    then show ?thesis using 2 by simp
  next
    case (Some e)
    then have "sv_service_up sv" by (intro up [OF "2.prems"]) auto
    then show ?thesis
      using 2 Some by (auto simp: service_world_def intro: safe_and_then [where Q = "\<lambda>_. True"])
  qed
qed simp

lemma keeps_posts: "I k sv \<Longrightarrow> I k (fold (\<lambda>(ch, job). post_db ch job) js sv)"
  by (induction js arbitrary: sv) (auto intro: keeps_post)

lemma flush_safe: "I k sv \<Longrightarrow> safe (I k) (flush_players sv)"
  unfolding flush_players_def
  by (auto intro!: safe_and_then [OF flush_entries_safe] keeps_posts)

lemma keeps_emits: "I k sv \<Longrightarrow> I k (fold (\<lambda>ev. sv_emit (f ev)) evs sv)"
  by (induction evs arbitrary: sv) (auto intro: keeps_emit)

lemma keeps_io: "I k sv \<Longrightarrow> I k (sv\<lparr>sv_io_jobs := ios\<rparr>)"
  using keeps_jobs [of k sv ios "sv_db_jobs sv"] by simp

lemma keeps_db_jobs: "I k sv \<Longrightarrow> I k (sv\<lparr>sv_db_jobs := js\<rparr>)"
  using keeps_jobs [of k sv "sv_io_jobs sv" js] by simp

lemma db_job_safe: "I k sv \<Longrightarrow> I k (run_db_job db ch job sv)"
  by (cases job) (auto simp: run_login_job_def Let_def keeps_io keeps_emit keeps_emits split: option.split)

lemma job_at_safe: "I k sv \<Longrightarrow> I k (run_job_at i db sv)"
  by (auto simp: run_job_at_def case_prod_unfold Let_def intro!: db_job_safe keeps_db_jobs)

lemma step_safe: "I k sv \<Longrightarrow> input_ok i sv \<Longrightarrow> safe (I (k + step_events i sv)) (srv_step tok rnd i sv)"
proof (cases i)
  case (ChannelInput ch ci)
  assume "I k sv" "input_ok i sv"
  then show ?thesis using ChannelInput channel_input_safe [of k sv ch ci tok] by simp
qed (auto simp: accept_channel_safe job_at_safe flush_safe on_tick_def keeps_main
    intro!: login_continue_safe keeps_io split: list.split option.split)

lemma reach_inv: "server_reach tok rnd k sv \<Longrightarrow> I k sv"
proof (induction rule: server_reach.induct)
  case init
  show ?case by (simp add: sv_init_def start)
next
  case (step k sv i sv')
  then show ?case using step_safe [OF step(4) step(2), where tok = tok and rnd = rnd] by simp
qed

end

section \<open>The service is up when a handler needs it\<close>

definition chans_ok :: "(int \<times> channel) list \<Rightarrow> bool" where
  "chans_ok cs \<longleftrightarrow> distinct (map fst cs) \<and> (\<forall>ch c. map_of cs ch = Some c \<longrightarrow> chan_live ch c)"

lemma chans_ok_update: "chans_ok cs \<Longrightarrow> chan_live ch c \<Longrightarrow> chans_ok (AList.update ch c cs)"
  by (auto simp: chans_ok_def update_conv' distinct_update)

lemma chans_ok_delete: "chans_ok cs \<Longrightarrow> chans_ok (AList.delete ch cs)"
  by (auto simp: chans_ok_def delete_conv' distinct_delete)

lemma chans_okD: "chans_ok cs \<Longrightarrow> map_of cs ch = Some c \<Longrightarrow> chan_live ch c"
  by (simp add: chans_ok_def)

definition service_ok :: "game_server \<Rightarrow> bool" where
  "service_ok sv \<longleftrightarrow> (sv_use_ecs sv \<or> sv_channel_to_entity sv \<noteq> [] \<longrightarrow> sv_service_up sv) \<and> chans_ok (sv_channels sv)"

lemma service_ok_init: "service_ok (init_state db redis (new_game_server use_ecs maps ttl seed))"
  by (simp add: service_ok_def init_state_def new_game_server_def initialize_threading_system_def
      service_initialize_def gs_initialize_def GameService_def Let_def chans_ok_def)

interpretation running: server_invariant "\<lambda>k. service_ok"
proof (unfold_locales, goal_cases)
  case (1 db redis use_ecs maps ttl seed)
  show ?case by (rule service_ok_init)
qed (auto simp: service_ok_def chans_okD chans_ok_update chans_ok_delete create_guild_def join_guild_def
    leave_guild_def Let_def split: option.splits)

text \<open>
  C4: Whatever clients send and in whatever order connections, reads, writes, timers, database
  answers and ticks interleave, no step of the server reads outside a buffer or uses the game service
  before it is initialised: a step returns, or it blocks on the server's mutex. Every channel that
  the server knows is open and is registered under its own id.
\<close>

theorem server_never_crashes:
  assumes "server_reach tok rnd k sv" "input_ok i sv"
  shows "srv_step tok rnd i sv \<noteq> NullAccess \<and> srv_step tok rnd i sv \<noteq> ReadOutOfBounds
    \<and> (\<forall>ch c. map_of (sv_channels sv) ch = Some c \<longrightarrow> \<not> closed c \<and> channel_id c = ch)"
proof -
  have ok: "service_ok sv" using running.reach_inv [OF assms(1)] .
  from running.step_safe [OF this assms(2), of tok rnd]
  have "srv_step tok rnd i sv \<noteq> NullAccess \<and> srv_step tok rnd i sv \<noteq> ReadOutOfBounds"
    by (cases "srv_step tok rnd i sv") auto
  then show ?thesis using ok chans_okD [of "sv_channels sv"] by (simp add: service_ok_def chan_live_def chan_open_def)
qed

text \<open>A server without a database and without entities that has accepted one connection.\<close>

definition demo_start :: game_server where
  "demo_start = init_state False False (new_game_server False [] 1800 1)"

definition demo_channel1 :: channel where
  "demo_channel1 = fst (start (new_channel 1 True True True) 5)"

definition demo_server :: game_server where
  "demo_server = demo_start\<lparr>sv_next_channel_id := 2, sv_accepted := [1], sv_channels := [(1, demo_channel1)],
     sv_db_strands := [1], sv_out := map (ChannelEvent 1) [AsyncRead, ArmIdleTimer, ArmPingTimer, ArmStatsTimer]\<rparr>"

lemma demo_accept: "accept_channel tok 5 demo_start = Done demo_server"
  by (simp add: accept_channel_def demo_server_def demo_start_def demo_channel1_def Channel.start_def new_channel_def
      init_state_def new_game_server_def Let_def sv_on_accept_def sv_emit_def uset_insert_def to_int_def to_u32_def)

lemma demo_reach_start: "server_reach tok rnd 0 demo_start"
  unfolding demo_start_def by (rule server_reach_init)

lemma demo_server_reach: "server_reach tok rnd 0 demo_server"
  using server_reach.step [OF demo_reach_start, where i = "Accepted 5" and sv' = demo_server] by (simp add: demo_accept)

theorem server_never_crashes_witness:
  "srv_step (\<lambda>_. None) (\<lambda>_. 0) (ChannelInput 1 (IRead False [1, 2, 3])) demo_server \<noteq> NullAccess
    \<and> srv_step (\<lambda>_. None) (\<lambda>_. 0) (ChannelInput 1 (IRead False [1, 2, 3])) demo_server \<noteq> ReadOutOfBounds
    \<and> map_of (sv_channels demo_server) 1 = Some demo_channel1 \<and> \<not> closed demo_channel1"
proof -
  have "map_of (sv_channels demo_server) 1 = Some demo_channel1" by (simp add: demo_server_def)
  then show ?thesis
    using server_never_crashes [OF demo_server_reach, of "ChannelInput 1 (IRead False [1, 2, 3])" "\<lambda>_. None" "\<lambda>_. 0"]
    by simp
qed

section \<open>Guild tables\<close>

text \<open>
  The two tables describe one relation: a channel is mapped to a guild exactly when that guild lists
  it as a member. The bound on the events keeps the 32-bit guild ids from wrapping around.
\<close>

definition guild_rel :: "game_server \<Rightarrow> bool" where
  "guild_rel sv \<longleftrightarrow> (\<forall>ch gid. map_of (sv_channel_to_guild sv) ch = Some gid \<longleftrightarrow>
     (\<exists>g. map_of (sv_guilds sv) gid = Some g \<and> ch \<in> set (gd_members g)))"

definition guild_wf :: "game_server \<Rightarrow> bool" where
  "guild_wf sv \<longleftrightarrow> (\<forall>gid g. map_of (sv_guilds sv) gid = Some g \<longrightarrow>
     gd_id g = gid \<and> distinct (gd_members g) \<and> gd_members g \<noteq> [] \<and> gid < sv_next_guild_id sv)"

definition guild_ok :: "nat \<Rightarrow> game_server \<Rightarrow> bool" where
  "guild_ok k sv \<longleftrightarrow> (k < 2 ^ 32 - 2 \<longrightarrow> guild_rel sv \<and> guild_wf sv \<and> unat (sv_next_guild_id sv) \<le> Suc k)"

lemma guild_relD: "guild_rel sv \<Longrightarrow> map_of (sv_channel_to_guild sv) ch = Some gid \<Longrightarrow>
    \<exists>g. map_of (sv_guilds sv) gid = Some g \<and> ch \<in> set (gd_members g)"
  by (simp add: guild_rel_def)

lemma guild_rel_member: "guild_rel sv \<Longrightarrow> map_of (sv_guilds sv) gid = Some g \<Longrightarrow> ch \<in> set (gd_members g) \<Longrightarrow>
    map_of (sv_channel_to_guild sv) ch = Some gid"
  by (auto simp: guild_rel_def)

lemma guild_ok_init: "guild_ok 0 (init_state db redis (new_game_server use_ecs maps ttl seed))"
  by (simp add: guild_ok_def guild_rel_def guild_wf_def init_state_def new_game_server_def
      initialize_threading_system_def service_initialize_def gs_initialize_def GameService_def Let_def set_world_def)

lemma guild_ok_more: "guild_ok k sv \<Longrightarrow> guild_ok (Suc k) sv"
  by (auto simp: guild_ok_def)

lemma guild_ok_cong:
  "sv_guilds sv' = sv_guilds sv \<Longrightarrow> sv_channel_to_guild sv' = sv_channel_to_guild sv \<Longrightarrow>
   sv_next_guild_id sv' = sv_next_guild_id sv \<Longrightarrow> guild_ok k sv' = guild_ok k sv"
  by (simp add: guild_ok_def guild_rel_def guild_wf_def)

lemma next_guild_id:
  fixes gid :: u32
  assumes "unat gid \<le> Suc k" "Suc k < 2 ^ 32 - 2"
  shows "gid < gid + 1 \<and> unat (gid + 1) = Suc (unat gid)"
proof -
  have "unat (gid + 1) = unat gid + 1" using assms by (subst unat_plus_u32) simp_all
  then show ?thesis by (simp add: word_less_nat_alt)
qed

lemma guild_ok_create:
  assumes ok: "guild_ok k sv" and "ch \<notin> fst ` set (sv_channel_to_guild sv)"
  shows "guild_ok (Suc k) (create_guild ch name desc sv)"
proof -
  let ?id = "sv_next_guild_id sv" and ?sv = "create_guild ch name desc sv"
  have none: "map_of (sv_channel_to_guild sv) ch = None" using assms(2) by (simp add: map_of_eq_None_iff)
  have "guild_rel ?sv \<and> guild_wf ?sv \<and> unat (sv_next_guild_id ?sv) \<le> Suc (Suc k)" if k: "Suc k < 2 ^ 32 - 2"
  proof -
    have inv: "guild_rel sv" "guild_wf sv" "unat ?id \<le> Suc k" using ok k by (simp_all add: guild_ok_def)
    note next_id = next_guild_id [OF inv(3) k]
    have fresh: "map_of (sv_guilds sv) ?id = None"
      using inv(2) by (cases "map_of (sv_guilds sv) ?id") (auto simp: guild_wf_def)
    have "guild_rel ?sv"
      using inv(1) none fresh guild_rel_member [OF inv(1), where ch = ch]
      by (auto simp: guild_rel_def create_guild_def Let_def update_conv')
    moreover have "guild_wf ?sv"
      using inv(2) next_id
      by (auto simp: guild_wf_def create_guild_def Let_def update_conv' intro: less_trans)
    ultimately show ?thesis using next_id inv(3) by (simp add: create_guild_def Let_def)
  qed
  then show ?thesis by (simp add: guild_ok_def)
qed

lemma guild_ok_join:
  assumes "guild_ok k sv" "ch \<notin> fst ` set (sv_channel_to_guild sv)" and g: "map_of (sv_guilds sv) gid = Some g"
  shows "guild_ok k (join_guild ch gid g sv)"
proof -
  have none: "map_of (sv_channel_to_guild sv) ch = None" using assms(2) by (simp add: map_of_eq_None_iff)
  have "guild_rel (join_guild ch gid g sv)" if "guild_rel sv"
    using that none g guild_rel_member [OF that, where ch = ch]
    by (auto simp: guild_rel_def join_guild_def update_conv')
  moreover have "ch \<notin> set (gd_members g)" if "guild_rel sv"
    using guild_rel_member [OF that g] none by auto
  then have "guild_wf (join_guild ch gid g sv)" if "guild_rel sv" "guild_wf sv"
    using that g by (auto simp: guild_wf_def join_guild_def update_conv')
  ultimately show ?thesis using assms(1) by (simp add: guild_ok_def join_guild_def)
qed

lemma guild_ok_leave:
  assumes ok: "guild_ok k sv" and ch: "map_of (sv_channel_to_guild sv) ch = Some gid"
  shows "guild_ok k (leave_guild ch gid sv)"
proof (cases "map_of (sv_guilds sv) gid")
  case None
  then show ?thesis using ok guild_relD [OF _ ch] by (auto simp: guild_ok_def)
next
  case (Some g)
  have only: "map_of (sv_guilds sv) gid' = Some g' \<Longrightarrow> ch \<in> set (gd_members g') \<Longrightarrow> gid' = gid"
    if "guild_rel sv" for gid' g'
    using guild_rel_member [OF that] ch by fastforce
  have "guild_rel (leave_guild ch gid sv)" if "guild_rel sv"
    using that Some only [OF that]
    by (auto simp: guild_rel_def leave_guild_def Let_def delete_conv' update_conv' filter_empty_conv split: if_splits)
  moreover have "guild_wf (leave_guild ch gid sv)" if "guild_wf sv"
    using that Some by (auto simp: guild_wf_def leave_guild_def Let_def delete_conv' update_conv' split: if_splits)
  ultimately show ?thesis using ok Some by (simp add: guild_ok_def) (simp add: leave_guild_def Let_def)
qed

lemma guild_ok_fields [simp]:
  "guild_ok k (sv\<lparr>sv_channels := cs\<rparr>) = guild_ok k sv"
  "guild_ok k (sv\<lparr>sv_next_channel_id := i, sv_accepted := as\<rparr>) = guild_ok k sv"
  "guild_ok k (sv\<lparr>sv_out := out\<rparr>) = guild_ok k sv"
  "guild_ok k (sv\<lparr>sv_db_jobs := js, sv_io_jobs := ios\<rparr>) = guild_ok k sv"
  "guild_ok k (sv\<lparr>sv_player_map := pm\<rparr>) = guild_ok k sv"
  "guild_ok k (sv\<lparr>sv_main := m\<rparr>) = guild_ok k sv"
  "guild_ok k (sv\<lparr>sv_channel_to_db_id := ids, sv_db_strands := ss\<rparr>) = guild_ok k sv"
  "guild_ok k (sv\<lparr>sv_channel_to_entity := es\<rparr>) = guild_ok k sv"
  by (rule guild_ok_cong; simp)+

interpretation guilds: server_invariant "\<lambda>k sv. service_ok sv \<and> guild_ok k sv"
proof (unfold_locales, goal_cases)
  case (1 db redis use_ecs maps ttl seed)
  show ?case by (simp add: service_ok_init guild_ok_init)
next
  case (2 k sv)
  then show ?case using running.up by blast
next
  case (4 k sv ch c)
  then show ?case using running.live by blast
qed (simp_all add: guild_ok_more running.keeps_channel running.keeps_drop
      running.keeps_accepted running.keeps_out running.keeps_jobs running.keeps_player_map
      running.keeps_main running.keeps_db running.keeps_removal running.keeps_login
      running.keeps_create running.keeps_join running.keeps_leave guild_ok_create guild_ok_join guild_ok_leave)

end
