(* ===== verification/Server_Behaviour.thy ===== *)
theory Server_Behaviour
  imports Server_Invariants
begin

text \<open>
  How messages move through the server: delivery of frames from the wire to the handlers and on to the
  map threads, sending and broadcasting, and what these leave alone. The theories on guilds and on
  players build on it.
\<close>

section \<open>Sending to a channel with and without room\<close>

definition room :: "channel \<Rightarrow> bytes \<Rightarrow> bool" where
  "room c pkt \<longleftrightarrow> snd (enqueue_send c pkt)"

definition sent :: "channel \<Rightarrow> bytes \<Rightarrow> channel" where
  "sent c pkt = fst (send c pkt (int (length pkt)))"

definition frame_ok :: "bytes \<Rightarrow> bool" where
  "frame_ok pkt \<longleftrightarrow> pkt \<noteq> [] \<and> length pkt < 2 ^ 31"

lemma frame_ok_pack: "length data + 16 < 2 ^ 31 \<Longrightarrow> frame_ok (pack cmd flags ver seq data)"
proof -
  assume "length data + 16 < 2 ^ 31"
  moreover have "pack cmd flags ver seq data \<noteq> []"
    by (rule notI, drule arg_cong [where f = length]) simp
  ultimately show ?thesis by (simp add: frame_ok_def)
qed

lemma quiet_send_events:
  "list_all (\<lambda>ev. quiet ev \<and> \<not> is_frame ev) evs \<Longrightarrow>
     send_events held ch evs sv = Done (sv\<lparr>sv_out := sv_out sv @ map (ChannelEvent ch) evs\<rparr>)"
  by (induction held ch evs sv rule: send_events.induct) (simp_all add: sv_emit_def)

lemma send_with_room:
  assumes "chan_live ch c" "frame_ok pkt" "room c pkt"
  shows "chan_live ch (sent c pkt) \<and> pending_bytes (sent c pkt) = pending_bytes c @ pkt
    \<and> list_all (\<lambda>ev. quiet ev \<and> \<not> is_frame ev) (snd (send c pkt (int (length pkt))))"
proof -
  have sz: "to_int (of_nat (length pkt)) = int (length pkt)"
    using assms(2) by (intro to_int_of_nat) (simp add: frame_ok_def)
  have open_c: "\<not> closed c" "chan_open ch c" "write_inv c"
    using assms(1) by (simp_all add: chan_live_def chan_open_def)
  obtain c1 where c1: "enqueue_send c pkt = (c1, True)" using assms(3) by (cases "enqueue_send c pkt") (simp add: room_def)
  then have "chan_open ch c1" using open_c(2) by (auto simp: enqueue_send_def chan_open_def Let_def split: if_splits)
  moreover have "send c pkt (int (length pkt)) = kick_write c1"
    using open_c(1) assms(2) c1 by (simp add: send_def frame_ok_def)
  moreover have "write_inv (sent c pkt) \<and> pending_bytes (sent c pkt) = pending_bytes c @ pkt"
    using write_inv_send [OF open_c(3), of "int (length pkt)" pkt] assms(2) c1 open_c(1)
    by (simp add: sent_def accepted_bytes_def frame_ok_def)
  ultimately show ?thesis using kick_write_result [of ch c1] by (simp add: sent_def chan_live_def)
qed

lemma channel_send_room:
  assumes "map_of (sv_channels sv) ch = Some c" "chan_live ch c" "frame_ok pkt" "room c pkt"
  shows "channel_send held ch pkt sv = Done (sv\<lparr>sv_channels := AList.update ch (sent c pkt) (sv_channels sv),
    sv_out := sv_out sv @ map (ChannelEvent ch) (snd (send c pkt (int (length pkt))))\<rparr>)"
proof -
  have "to_int (of_nat (length pkt)) = int (length pkt)"
    using assms(3) by (intro to_int_of_nat) (simp add: frame_ok_def)
  then show ?thesis
    using assms(1) send_with_room [OF assms(2-4)]
    by (simp add: channel_send_def case_prod_unfold Let_def quiet_send_events sent_def)
qed

text \<open>Without room the channel closes itself and calls back into the server, whose mutex is held.\<close>

lemma closing_held: "closing ch evs \<Longrightarrow> send_events True ch evs sv = Deadlock"
  by (auto simp: closing_def)

lemma channel_send_full:
  assumes "map_of (sv_channels sv) ch = Some c" "chan_live ch c" "frame_ok pkt" "\<not> room c pkt"
  shows "channel_send True ch pkt sv = Deadlock"
proof -
  have sz: "to_int (of_nat (length pkt)) = int (length pkt)"
    using assms(3) by (intro to_int_of_nat) (simp add: frame_ok_def)
  obtain c1 where c1: "enqueue_send c pkt = (c1, False)"
    using assms(4) by (cases "enqueue_send c pkt") (simp add: room_def)
  then have "chan_open ch (c1\<lparr>force_closes := force_closes c1 + 1\<rparr>)"
    using assms(2) by (auto simp: chan_live_def enqueue_send_def chan_open_def Let_def split: if_splits)
  then have "closing ch (snd (send c pkt (int (length pkt))))"
    using assms(2,3) c1 close_result [of ch "c1\<lparr>force_closes := force_closes c1 + 1\<rparr>" CF_force_closed]
    by (simp add: send_def case_prod_unfold Let_def frame_ok_def chan_live_def chan_open_def)
  then show ?thesis using assms(1) sz by (simp add: channel_send_def case_prod_unfold Let_def closing_held)
qed

section \<open>Broadcasts\<close>

lemma broadcast_loop_room:
  assumes "distinct chs" "frame_ok pkt"
    and "\<And>ch. ch \<in> set chs \<Longrightarrow> \<exists>c. map_of (sv_channels sv) ch = Some c \<and> chan_live ch c \<and> room c pkt"
  shows "\<exists>cs out. broadcast_loop chs pkt sv = Done (sv\<lparr>sv_channels := cs, sv_out := out\<rparr>)
    \<and> map fst cs = map fst (sv_channels sv)
    \<and> (\<forall>ch. map_of cs ch = (if ch \<in> set chs then map_option (\<lambda>c. sent c pkt) (map_of (sv_channels sv) ch)
                            else map_of (sv_channels sv) ch))"
  using assms(1,3)
proof (induction chs arbitrary: sv)
  case Nil
  show ?case by (intro exI [of _ "sv_channels sv"] exI [of _ "sv_out sv"]) simp
next
  case (Cons ch chs)
  obtain c where c: "map_of (sv_channels sv) ch = Some c" "chan_live ch c" "room c pkt"
    using Cons.prems(2) [of ch] by auto
  obtain cs0 out0 where sv1: "channel_send True ch pkt sv = Done (sv\<lparr>sv_channels := cs0, sv_out := out0\<rparr>)"
    and cs0: "cs0 = AList.update ch (sent c pkt) (sv_channels sv)"
    using channel_send_room [OF c(1,2) assms(2) c(3)] by auto
  let ?sv = "sv\<lparr>sv_channels := cs0, sv_out := out0\<rparr>"
  have keys: "map fst cs0 = map fst (sv_channels sv)"
    unfolding cs0 by (rule keys_update [OF map_of_Some_key [OF c(1)]])
  have "\<exists>c. map_of (sv_channels ?sv) ch' = Some c \<and> chan_live ch' c \<and> room c pkt" if "ch' \<in> set chs" for ch'
    using that Cons.prems by (auto simp: cs0 update_conv')
  with Cons.prems obtain cs out where
    "broadcast_loop chs pkt ?sv = Done (?sv\<lparr>sv_channels := cs, sv_out := out\<rparr>)" "map fst cs = map fst cs0"
    "\<And>ch. map_of cs ch = (if ch \<in> set chs then map_option (\<lambda>c. sent c pkt) (map_of cs0 ch) else map_of cs0 ch)"
    using Cons.IH [of ?sv] by auto
  then show ?case
    using Cons.prems(1) c sv1 keys by (intro exI [of _ cs] exI [of _ out]) (auto simp: cs0 update_conv')
qed

lemma broadcast_loop_full:
  assumes "distinct chs" "frame_ok pkt" "ch \<in> set chs" "map_of (sv_channels sv) ch = Some c" "\<not> room c pkt"
    and "\<And>ch. ch \<in> set chs \<Longrightarrow> \<exists>c. map_of (sv_channels sv) ch = Some c \<and> chan_live ch c"
  shows "broadcast_loop chs pkt sv = Deadlock"
  using assms(1,3,4,6)
proof (induction chs arbitrary: sv)
  case (Cons a chs)
  obtain ca where ca: "map_of (sv_channels sv) a = Some ca" "chan_live a ca" using Cons.prems(4) [of a] by auto
  show ?case
  proof (cases "room ca pkt")
    case False
    then show ?thesis using channel_send_full [OF ca assms(2)] by simp
  next
    case True
    with Cons.prems ca assms(5) have ne: "ch \<in> set chs" "ch \<noteq> a" by auto
    obtain cs0 out0 where sv1: "channel_send True a pkt sv = Done (sv\<lparr>sv_channels := cs0, sv_out := out0\<rparr>)"
      and cs0: "cs0 = AList.update a (sent ca pkt) (sv_channels sv)"
      using channel_send_room [OF ca assms(2) True] by auto
    have "broadcast_loop chs pkt (sv\<lparr>sv_channels := cs0, sv_out := out0\<rparr>) = Deadlock"
      using Cons.prems ne by (intro Cons.IH) (auto simp: cs0 update_conv')
    then show ?thesis using sv1 by simp
  qed
qed simp

lemma room_iff:
  assumes "chan_live ch c" "frame_ok pkt"
  shows "room c pkt \<longleftrightarrow> length (pending_bytes c) + length pkt \<le> 256 * 1024"
proof -
  have inv: "max_queue_bytes c = 262144" "unat (current_queue_bytes c) \<le> 262144"
    "unat (current_queue_bytes c) = length (pending_bytes c)"
    using assms(1) by (auto simp: chan_live_def chan_open_def write_inv_def word_le_nat_alt)
  have nz: "(of_nat (length pkt) :: u64) \<noteq> 0"
    using assms(2) unat_of_nat_u64 [of "length pkt"] by (auto simp: frame_ok_def)
  have "unat (current_queue_bytes c + of_nat (length pkt)) = length (pending_bytes c) + length pkt"
    using unat_add_bounded [OF inv(2), of "length pkt"] assms(2) inv(3) by (simp add: frame_ok_def)
  then show ?thesis
    using nz inv(1) by (simp add: room_def enqueue_send_def Let_def word_less_nat_alt not_less)
qed

lemma broadcast_targets:
  assumes "service_ok sv" "length data + 16 < 2 ^ 31"
  shows "frame_ok (pack cmd 0 1 0 data)" "distinct (filter (\<lambda>ch. ch \<noteq> ex) (map fst (sv_channels sv)))"
    "ch \<in> set (filter (\<lambda>ch. ch \<noteq> ex) (map fst (sv_channels sv))) \<longleftrightarrow> ch \<noteq> ex \<and> map_of (sv_channels sv) ch \<noteq> None"
    "map_of (sv_channels sv) ch = Some c \<Longrightarrow> chan_live ch c"
    "map_of (sv_channels sv) ch = Some c \<Longrightarrow>
       room c (pack cmd 0 1 0 data) \<longleftrightarrow> length (pending_bytes c) + length data + 16 \<le> 256 * 1024"
proof -
  have ok: "chans_ok (sv_channels sv)" using assms(1) by (simp add: service_ok_def)
  show fr: "frame_ok (pack cmd 0 1 0 data)" by (rule frame_ok_pack [OF assms(2)])
  show "distinct (filter (\<lambda>ch. ch \<noteq> ex) (map fst (sv_channels sv)))" using ok by (simp add: chans_ok_def)
  show "ch \<in> set (filter (\<lambda>ch. ch \<noteq> ex) (map fst (sv_channels sv))) \<longleftrightarrow> ch \<noteq> ex \<and> map_of (sv_channels sv) ch \<noteq> None"
    by (auto simp: map_of_eq_None_iff)
  show live: "chan_live ch c" if "map_of (sv_channels sv) ch = Some c" using chans_okD [OF ok that] .
  show "room c (pack cmd 0 1 0 data) \<longleftrightarrow> length (pending_bytes c) + length data + 16 \<le> 256 * 1024"
    if "map_of (sv_channels sv) ch = Some c" using room_iff [OF live [OF that] fr] by simp
qed

lemma broadcast_except_room:
  assumes "service_ok sv" "length data + 16 < 2 ^ 31"
    and fits: "\<forall>ch c. map_of (sv_channels sv) ch = Some c \<and> ch \<noteq> ex \<longrightarrow>
      length (pending_bytes c) + length data + 16 \<le> 256 * 1024"
  shows "\<exists>cs out. broadcast_except ex cmd data sv = Done (sv\<lparr>sv_channels := cs, sv_out := out\<rparr>)
    \<and> map fst cs = map fst (sv_channels sv)
    \<and> (\<forall>ch c. map_of (sv_channels sv) ch = Some c \<longrightarrow> (\<exists>c'. map_of cs ch = Some c' \<and>
         pending_bytes c' = pending_bytes c @ (if ch = ex then [] else pack cmd 0 1 0 data)))"
proof -
  let ?pkt = "pack cmd 0 1 0 data" and ?chs = "filter (\<lambda>ch. ch \<noteq> ex) (map fst (sv_channels sv))"
  note t = broadcast_targets [OF assms(1,2)]
  have "\<exists>c. map_of (sv_channels sv) ch = Some c \<and> chan_live ch c \<and> room c ?pkt" if "ch \<in> set ?chs" for ch
    using that t(4,5) fits unfolding t(3) by blast
  from broadcast_loop_room [OF t(2,1) this] obtain cs out where
    run: "broadcast_loop ?chs ?pkt sv = Done (sv\<lparr>sv_channels := cs, sv_out := out\<rparr>)"
    "map fst cs = map fst (sv_channels sv)"
    and cs: "\<And>ch. map_of cs ch = (if ch \<in> set ?chs then map_option (\<lambda>c. sent c ?pkt) (map_of (sv_channels sv) ch)
       else map_of (sv_channels sv) ch)"
    by blast
  have "\<exists>c'. map_of cs ch = Some c' \<and> pending_bytes c' = pending_bytes c @ (if ch = ex then [] else ?pkt)"
    if c: "map_of (sv_channels sv) ch = Some c" for ch c
  proof (cases "ch = ex")
    case False
    then have "room c ?pkt" using fits t(5) c by blast
    then show ?thesis using False c t(3) [of ch] cs [of ch] send_with_room [OF t(4) [OF c] t(1)] by auto
  qed (use c cs [of ch] in simp)
  with run show ?thesis by (intro exI [of _ cs] exI [of _ out]) (simp add: broadcast_except_def)
qed

text \<open>
  C14: A broadcast reaches every connected channel but the excluded one exactly once: when every one
  of them has room for the frame in its 256 KB queue, each gets the frame appended to its outgoing
  bytes and the excluded channel gets nothing. When a single one of them has no room, the
  broadcast never returns: that channel closes itself and locks the mutex that the broadcast holds.
\<close>

theorem broadcast_reaches_everyone:
  assumes "server_reach tok rnd k sv" "length data + 16 < 2 ^ 31"
  shows "if \<forall>ch c. map_of (sv_channels sv) ch = Some c \<and> ch \<noteq> ex \<longrightarrow>
            length (pending_bytes c) + length data + 16 \<le> 256 * 1024
         then \<exists>sv'. broadcast_except ex cmd data sv = Done sv'
           \<and> map fst (sv_channels sv') = map fst (sv_channels sv)
           \<and> (\<forall>ch c. map_of (sv_channels sv) ch = Some c \<longrightarrow>
                (\<exists>c'. map_of (sv_channels sv') ch = Some c' \<and>
                   pending_bytes c' = pending_bytes c @ (if ch = ex then [] else pack cmd 0 1 0 data)))
         else broadcast_except ex cmd data sv = Deadlock"
proof -
  let ?chs = "filter (\<lambda>ch. ch \<noteq> ex) (map fst (sv_channels sv))"
  have ok: "service_ok sv" by (rule running.reach_inv [OF assms(1)])
  note t = broadcast_targets [OF ok assms(2)]
  show ?thesis
  proof (cases "\<forall>ch c. map_of (sv_channels sv) ch = Some c \<and> ch \<noteq> ex \<longrightarrow>
      length (pending_bytes c) + length data + 16 \<le> 256 * 1024")
    case True
    from broadcast_except_room [OF ok assms(2) this] obtain cs out where
      "broadcast_except ex cmd data sv = Done (sv\<lparr>sv_channels := cs, sv_out := out\<rparr>)"
      "map fst cs = map fst (sv_channels sv)"
      "\<forall>ch c. map_of (sv_channels sv) ch = Some c \<longrightarrow> (\<exists>c'. map_of cs ch = Some c' \<and>
         pending_bytes c' = pending_bytes c @ (if ch = ex then [] else pack cmd 0 1 0 data))" by blast
    with True show ?thesis by simp
  next
    case False
    then obtain ch c where c: "map_of (sv_channels sv) ch = Some c" "ch \<in> set ?chs" "\<not> room c (pack cmd 0 1 0 data)"
      using t(5) unfolding t(3) by blast
    then have "broadcast_except ex cmd data sv = Deadlock"
      unfolding broadcast_except_def using t(3,4) by (intro broadcast_loop_full [OF t(2,1), where ch = ch and c = c]) auto
    with False show ?thesis by simp
  qed
qed

lemma demo_pending: "pending_bytes demo_channel1 = []"
  by (simp add: demo_channel1_def Channel.start_def new_channel_def Let_def pending_bytes_def inflight_bytes_def)

theorem broadcast_reaches_everyone_witness:
  "\<exists>sv' c'. broadcast_except 0 1003 [104, 105] demo_server = Done sv' \<and> map_of (sv_channels sv') 1 = Some c'
     \<and> pending_bytes c' = pack 1003 0 1 0 [104, 105]"
  using broadcast_reaches_everyone [OF demo_server_reach, of "[104, 105]" 0 1003]
  by (auto simp: demo_server_def demo_pending split: if_splits)

section \<open>From the wire to the handlers\<close>

fun dispatch_all :: "(bytes \<Rightarrow> int option) \<Rightarrow> int \<Rightarrow> packet list \<Rightarrow> game_server \<Rightarrow> game_server outcome" where
  "dispatch_all tok ch [] sv = Done sv"
| "dispatch_all tok ch (f # fs) sv =
     and_then (on_frame tok ch (pk_cmd f) (pk_payload f) sv) (dispatch_all tok ch fs)"

lemma read_events:
  assumes "awaits c (chunk @ q) fs" "list_all packet_ok fs" "has_on_frame c"
  shows "\<exists>fs1 fs2. fs = fs1 @ fs2
    \<and> snd (read_handler c False chunk) = map (packet_event (channel_id c)) fs1 @ [AsyncRead]
    \<and> awaits (fst (read_handler c False chunk)) q fs2 \<and> no_complete (fst (read_handler c False chunk)) fs2"
proof -
  let ?c = "c\<lparr>frame_acc := frame_acc c @ chunk\<rparr>"
  have "awaits ?c q fs" using assms(1) by (simp add: awaits_def)
  then obtain fs1 fs2 off where *: "fs = fs1 @ fs2"
    "parse_loop ?c = (?c\<lparr>frame_acc_offset := off\<rparr>, map (packet_event (channel_id ?c)) fs1)"
    "awaits (?c\<lparr>frame_acc_offset := off\<rparr>) q fs2" "no_complete (?c\<lparr>frame_acc_offset := off\<rparr>) fs2"
    using parse_loop_stream [of ?c q fs] assms by auto
  then show ?thesis
    by (intro exI [of _ fs1] exI [of _ fs2])
      (auto simp: read_handler_def parse_frames_def Let_def awaits_def no_complete_def)
qed

lemma packet_events_dispatch:
  assumes "channel_id c = ch"
  shows "channel_events tok c (map (packet_event ch) fs @ [AsyncRead]) sv =
    and_then (dispatch_all tok ch fs sv) (\<lambda>sv. Done (sv_emit (ChannelEvent ch AsyncRead) sv))"
proof (induction fs arbitrary: sv)
  case (Cons f fs)
  then show ?case by (cases "on_frame tok ch (pk_cmd f) (pk_payload f) sv") (auto simp: packet_event_def)
qed (simp add: assms)

lemma read_dispatches:
  assumes "service_ok sv" "map_of (sv_channels sv) ch = Some c"
    and "awaits c (chunk @ q) fs" "list_all packet_ok fs"
  shows "\<exists>fs1 fs2 c'. fs = fs1 @ fs2 \<and> awaits c' q fs2 \<and> no_complete c' fs2
    \<and> channel_input tok ch (IRead False chunk) sv =
        and_then (dispatch_all tok ch fs1 (sv\<lparr>sv_channels := AList.update ch c' (sv_channels sv)\<rparr>))
          (\<lambda>sv. Done (sv_emit (ChannelEvent ch AsyncRead) sv))"
proof -
  have "chan_live ch c"
    using assms(1,2) chans_okD by (auto simp: service_ok_def)
  then have c: "channel_id c = ch" "has_on_frame c" by (simp_all add: chan_live_def chan_open_def)
  let ?r = "read_handler c False chunk"
  obtain fs1 fs2 where r: "fs = fs1 @ fs2" "snd ?r = map (packet_event ch) fs1 @ [AsyncRead]"
    "awaits (fst ?r) q fs2" "no_complete (fst ?r) fs2"
    using read_events [OF assms(3,4) c(2)] c(1) by auto
  moreover have "channel_id (fst ?r) = ch" using chan_apply_id [of c "IRead False chunk"] c(1) by simp
  then have "channel_input tok ch (IRead False chunk) sv =
      and_then (dispatch_all tok ch fs1 (sv\<lparr>sv_channels := AList.update ch (fst ?r) (sv_channels sv)\<rparr>))
        (\<lambda>sv. Done (sv_emit (ChannelEvent ch AsyncRead) sv))"
    using assms(2) r(2) by (simp add: channel_input_def Let_def case_prod_unfold packet_events_dispatch)
  ultimately show ?thesis by blast
qed


definition demo_ping :: packet where
  "demo_ping = \<lparr>pk_cmd = 1, pk_flags = 0, pk_ver = 1, pk_seq = 0, pk_payload = []\<rparr>"


section \<open>What sending leaves alone\<close>

definition core :: "game_server \<Rightarrow> game_server" where
  "core sv = sv\<lparr>sv_channels := [], sv_accepted := [], sv_out := []\<rparr>"

lemma send_events_core: "send_events True ch evs sv = Done sv' \<Longrightarrow> core sv' = core sv"
  by (induction "True" ch evs sv rule: send_events.induct) (auto simp: core_def sv_emit_def)

lemma channel_send_core: "channel_send True ch pkt sv = Done sv' \<Longrightarrow> core sv' = core sv"
  by (auto simp: channel_send_def case_prod_unfold Let_def core_def split: option.splits
      dest!: send_events_core)

lemma broadcast_loop_core: "broadcast_loop chs pkt sv = Done sv' \<Longrightarrow> core sv' = core sv"
proof (induction chs arbitrary: sv)
  case (Cons ch chs)
  then show ?case
    using channel_send_core [of ch pkt sv] by (cases "channel_send True ch pkt sv") auto
qed simp

lemma core_fields:
  assumes "core sv' = core sv"
  shows "sv_main sv' = sv_main sv" "sv_channel_to_entity sv' = sv_channel_to_entity sv"
    "sv_guilds sv' = sv_guilds sv" "sv_channel_to_guild sv' = sv_channel_to_guild sv"
    "sv_next_guild_id sv' = sv_next_guild_id sv" "sv_player_map sv' = sv_player_map sv"
    "sv_world sv' = sv_world sv" "sv_channel_to_db_id sv' = sv_channel_to_db_id sv"
    "sv_db_jobs sv' = sv_db_jobs sv" "sv_service_up sv' = sv_service_up sv"
    "sv_use_ecs sv' = sv_use_ecs sv" "sv_dao sv' = sv_dao sv" "sv_db_strands sv' = sv_db_strands sv"
  using arg_cong [OF assms, of sv_main] arg_cong [OF assms, of sv_channel_to_entity]
    arg_cong [OF assms, of sv_guilds] arg_cong [OF assms, of sv_channel_to_guild]
    arg_cong [OF assms, of sv_next_guild_id] arg_cong [OF assms, of sv_player_map]
    arg_cong [OF assms, of sv_channel_to_db_id] arg_cong [OF assms, of sv_db_jobs]
    arg_cong [OF assms, of sv_service_up] arg_cong [OF assms, of sv_use_ecs] arg_cong [OF assms, of sv_dao]
    arg_cong [OF assms, of sv_db_strands]
  by (simp_all add: core_def sv_world_def)

lemma send_test_frame_core: "send_test_frame ch m d sv = Done sv' \<Longrightarrow> core sv' = core sv"
  by (simp add: send_test_frame_def send_frame_def channel_send_core)

section \<open>A move from the client to the map thread\<close>

lemma map_packet_routed:
  assumes "sv_threads sv" "map_of (map_threads (mn_maps (sv_main sv))) (sv_get_player_map ch sv) = Some mt"
  shows "map_of (map_threads (mn_maps (sv_main (route_packet_to_map ch cmd data sv)))) mid =
    (if mid = sv_get_player_map ch sv then Some (add_packet ch cmd data mt)
     else map_of (map_threads (mn_maps (sv_main sv))) mid)"
  using assms
  by (simp add: route_packet_to_map_def mn_send_packet_to_map_def mn_on_maps_def send_packet_to_map_def
      with_thread_def Let_def update_conv')

lemma read_one_packet:
  assumes "service_ok sv" "map_of (sv_channels sv) ch = Some c"
    and "drop (frame_acc_offset c) (frame_acc c) = []" "packet_ok f"
  shows "\<exists>c'. chan_live ch c' \<and> pending_bytes c' = pending_bytes c
    \<and> snd (read_handler c False (encode_packet f)) = [OnFrame ch (pk_cmd f) (pk_payload f), AsyncRead]
    \<and> channel_input tok ch (IRead False (encode_packet f)) sv =
    and_then (on_frame tok ch (pk_cmd f) (pk_payload f) (sv\<lparr>sv_channels := AList.update ch c' (sv_channels sv)\<rparr>))
      (\<lambda>sv. Done (sv_emit (ChannelEvent ch AsyncRead) sv))"
proof -
  let ?r = "read_handler c False (encode_packet f)"
  have live: "chan_live ch c" using assms(1,2) chans_okD by (auto simp: service_ok_def)
  then have c: "channel_id c = ch" "has_on_frame c" "awaits c (encode_packet f @ []) [f]"
    using assms(3) by (simp_all add: awaits_def chan_live_def chan_open_def)
  have "list_all packet_ok [f]" using assms(4) by simp
  from read_events [OF c(3) this c(2)] obtain fs1 fs2 where *: "[f] = fs1 @ fs2" "awaits (fst ?r) [] fs2"
    "no_complete (fst ?r) fs2" "snd ?r = map (packet_event ch) fs1 @ [AsyncRead]"
    using c(1) by blast
  have "fs2 = []" using *(2,3) by (cases fs2) (auto simp: awaits_def no_complete_def)
  then have evs: "snd ?r = map (packet_event ch) [f] @ [AsyncRead]" using *(1,4) by simp
  have "chan_live ch (fst ?r) \<and> pending_bytes (fst ?r) = pending_bytes c"
    using live read_open [of ch c "encode_packet f"] write_inv_read_handler [of c False "encode_packet f"]
    by (simp add: chan_live_def)
  moreover have "channel_id (fst ?r) = ch" using chan_apply_id [of c "IRead False (encode_packet f)"] c(1) by simp
  then have "channel_input tok ch (IRead False (encode_packet f)) sv =
      and_then (dispatch_all tok ch [f] (sv\<lparr>sv_channels := AList.update ch (fst ?r) (sv_channels sv)\<rparr>))
        (\<lambda>sv. Done (sv_emit (ChannelEvent ch AsyncRead) sv))"
    using assms(2) evs
    by (simp add: channel_input_def Let_def case_prod_unfold packet_events_dispatch del: list.map dispatch_all.simps)
  moreover have "dispatch_all tok ch [] = Done" by (simp add: fun_eq_iff)
  ultimately show ?thesis using evs by (intro exI [of _ "fst ?r"]) (simp add: packet_event_def)
qed

lemma on_frame_move:
  "sv_threads sv \<Longrightarrow> on_frame tok ch 1002 (player_move_req_serialize mv) sv
     = Done (route_packet_to_map ch 0x1001 (player_move_req_serialize mv) sv)"
  by (simp add: on_frame_def sv_dispatcher_def bind_player_handlers_def bind_guild_handlers_def
      dispatch_bind as_handler_def Let_def handle_move_def player_move_req_codec.parse_serialize
      player_move_req_wf_def)

lemma movement_log:
  "process_single_packet \<lparr>mpk_channel_id = ch, mpk_cmd = 0x1001, mpk_data = player_move_req_serialize mv\<rparr> =
    [MoveLog ch (player_move_req_x mv) (player_move_req_y mv) (player_move_req_z mv)]"
  by (simp add: process_single_packet_def handle_movement_packet_def player_move_req_serialize_def
      write_float_le_def read_float_le_def Let_def wire_simps len_simps)

text \<open>
  C15: A move travels from the bytes on the wire to the map. When a client's move request arrives as a
  frame on an otherwise idle connection, the read handler hands it through the dispatcher to the map thread
  of that player, and the next time that thread processes its packets it handles, behind everything
  queued before, a move of this player with exactly the coordinates that the client sent. No other
  map sees the packet.
\<close>

theorem move_reaches_map:
  assumes "server_reach tok rnd k sv" "map_of (sv_channels sv) ch = Some c"
    and "drop (frame_acc_offset c) (frame_acc c) = []" and "sv_threads sv"
    and "map_of (map_threads (mn_maps (sv_main sv))) (sv_get_player_map ch sv) = Some mt"
  shows "\<exists>sv' mt'. channel_input tok ch (IRead False (pack 1002 flags ver seq (player_move_req_serialize mv))) sv = Done sv'
    \<and> map_of (map_threads (mn_maps (sv_main sv'))) (sv_get_player_map ch sv) = Some mt'
    \<and> snd (process_packets mt') = snd (process_packets mt)
        @ [MoveLog ch (player_move_req_x mv) (player_move_req_y mv) (player_move_req_z mv)]
    \<and> (\<forall>mid. mid \<noteq> sv_get_player_map ch sv \<longrightarrow>
         map_of (map_threads (mn_maps (sv_main sv'))) mid = map_of (map_threads (mn_maps (sv_main sv))) mid)"
proof -
  let ?data = "player_move_req_serialize mv"
  let ?f = "\<lparr>pk_cmd = 1002, pk_flags = flags, pk_ver = ver, pk_seq = seq, pk_payload = ?data\<rparr>"
  have "packet_ok ?f"
    by (simp add: packet_ok_def player_move_req_serialize_def len_simps k_max_frame_bytes_def k_header_after_len_def
        write_float_le_def Let_def)
  then obtain c' where run: "channel_input tok ch (IRead False (encode_packet ?f)) sv =
      and_then (on_frame tok ch 1002 ?data (sv\<lparr>sv_channels := AList.update ch c' (sv_channels sv)\<rparr>))
        (\<lambda>sv. Done (sv_emit (ChannelEvent ch AsyncRead) sv))"
    using read_one_packet [OF running.reach_inv [OF assms(1)] assms(2,3), where f = ?f and tok = tok] by auto
  let ?sv = "sv\<lparr>sv_channels := AList.update ch c' (sv_channels sv)\<rparr>"
  let ?sv' = "sv_emit (ChannelEvent ch AsyncRead) (route_packet_to_map ch 0x1001 ?data ?sv)"
  have same: "sv_get_player_map ch ?sv = sv_get_player_map ch sv" by (simp add: sv_get_player_map_def)
  have "map_of (map_threads (mn_maps (sv_main ?sv'))) mid =
      (if mid = sv_get_player_map ch sv then Some (add_packet ch 0x1001 ?data mt)
       else map_of (map_threads (mn_maps (sv_main sv))) mid)" for mid
    using map_packet_routed [where sv = ?sv and ch = ch and mt = mt and mid = mid and cmd = "0x1001" and data = ?data] assms(4,5) by (simp add: same sv_emit_def)
  moreover have "channel_input tok ch (IRead False (pack 1002 flags ver seq ?data)) sv = Done ?sv'"
    using run assms(4) by (simp add: encode_packet_def on_frame_move)
  moreover have "snd (process_packets (add_packet ch 0x1001 ?data mt)) = snd (process_packets mt)
      @ [MoveLog ch (player_move_req_x mv) (player_move_req_y mv) (player_move_req_z mv)]"
    using movement_log [of ch mv] by (simp add: process_packets_eq add_packet_def)
  ultimately show ?thesis by (intro exI [of _ ?sv'] exI [of _ "add_packet ch 0x1001 ?data mt"]) simp
qed

lemma accept_result:
  "\<exists>sv'. accept_channel tok now sv = Done sv' \<and> sv_main sv' = sv_main sv \<and> sv_threads sv' = sv_threads sv
     \<and> map_of (sv_channels sv') (sv_next_channel_id sv)
         = Some (fst (start (new_channel (sv_next_channel_id sv) True True True) now))
     \<and> (sv_threads sv \<longrightarrow> sv_get_player_map (sv_next_channel_id sv) sv' = 1)"
  by (simp add: accept_channel_def Channel.start_def new_channel_def Let_def sv_on_accept_def sv_emit_def
      sv_update_player_map_def sv_get_player_map_def update_conv')

text \<open>A server with the map of id 1 and one connection.\<close>

definition forest_start :: game_server where
  "forest_start = init_state False False (new_game_server True
     [\<lparr>mc_id = 1, mc_name = str ''Forest'', mc_width = 0x447A0000, mc_height = 0x447A0000, mc_max_players = 100\<rparr>] 1800 1)"

lemma forest_start_facts:
  "sv_threads forest_start" "sv_next_channel_id forest_start = 1"
  "map_of (map_threads (mn_maps (sv_main forest_start))) 1 \<noteq> None"
  by (simp_all add: forest_start_def init_state_def new_game_server_def initialize_threading_system_def
      service_initialize_def gs_initialize_def GameService_def set_world_def Let_def mn_start_def
      mn_create_map_thread_def mn_on_maps_def create_map_thread_def MapThreadManager_def case_prod_unfold)

lemma forest_reach:
  "\<exists>sv mt. server_reach tok rnd 0 sv \<and> sv_threads sv \<and> sv_get_player_map 1 sv = 1
     \<and> map_of (sv_channels sv) 1 = Some demo_channel1 \<and> map_of (map_threads (mn_maps (sv_main sv))) 1 = Some mt"
proof -
  obtain mt where mt: "map_of (map_threads (mn_maps (sv_main forest_start))) 1 = Some mt"
    using forest_start_facts(3) by auto
  obtain sv where sv: "accept_channel tok 5 forest_start = Done sv" "sv_main sv = sv_main forest_start"
    "sv_threads sv" "map_of (sv_channels sv) 1 = Some demo_channel1" "sv_get_player_map 1 sv = 1"
    using accept_result [of tok 5 forest_start] forest_start_facts(1,2) by (auto simp: demo_channel1_def)
  have "server_reach tok rnd 0 forest_start" unfolding forest_start_def by (rule server_reach_init)
  from server_reach.step [OF this, where i = "Accepted 5" and sv' = sv] have "server_reach tok rnd 0 sv"
    using sv(1) by simp
  with sv mt show ?thesis by auto
qed

theorem move_reaches_map_witness:
  "\<exists>sv mt sv' mt'. server_reach (\<lambda>_. None) (\<lambda>_. 0) 0 sv
    \<and> map_of (map_threads (mn_maps (sv_main sv))) 1 = Some mt
    \<and> channel_input (\<lambda>_. None) 1 (IRead False (pack 1002 0 1 0 (player_move_req_serialize
         \<lparr>player_move_req_x = 0x3F800000, player_move_req_y = 0, player_move_req_z = 0,
          player_move_req_rotation = 0, player_move_req_timestamp = 9\<rparr>))) sv = Done sv'
    \<and> map_of (map_threads (mn_maps (sv_main sv'))) 1 = Some mt'
    \<and> snd (process_packets mt') = snd (process_packets mt) @ [MoveLog 1 0x3F800000 0 0]"
proof -
  obtain sv mt where sv: "server_reach (\<lambda>_. None) (\<lambda>_. 0) 0 sv" "sv_threads sv" "sv_get_player_map 1 sv = 1"
    "map_of (sv_channels sv) 1 = Some demo_channel1" "map_of (map_threads (mn_maps (sv_main sv))) 1 = Some mt"
    using forest_reach [of "\<lambda>_. None" "\<lambda>_. 0"] by blast
  have "drop (frame_acc_offset demo_channel1) (frame_acc demo_channel1) = []"
    by (simp add: demo_channel1_def Channel.start_def new_channel_def Let_def)
  from move_reaches_map [OF sv(1,4) this sv(2), of mt 0 1 0 "\<lparr>player_move_req_x = 0x3F800000,
      player_move_req_y = 0, player_move_req_z = 0, player_move_req_rotation = 0, player_move_req_timestamp = 9\<rparr>"]
  show ?thesis using sv(1,3,5) by (simp only: sv(3) player_move_req.select_convs) blast
qed

section \<open>Replies\<close>

lemma send_events_channels: "send_events True ch evs sv = Done sv' \<Longrightarrow> sv_channels sv' = sv_channels sv"
  by (induction "True" ch evs sv rule: send_events.induct) (auto simp: sv_emit_def)

lemma channel_send_other:
  "channel_send True a pkt sv = Done sv' \<Longrightarrow> ch \<noteq> a \<Longrightarrow> map_of (sv_channels sv') ch = map_of (sv_channels sv) ch"
  by (auto simp: channel_send_def case_prod_unfold Let_def update_conv' split: option.splits
      dest!: send_events_channels)

lemma broadcast_loop_other:
  "broadcast_loop chs pkt sv = Done sv' \<Longrightarrow> ch \<notin> set chs \<Longrightarrow>
     map_of (sv_channels sv') ch = map_of (sv_channels sv) ch"
proof (induction chs arbitrary: sv)
  case (Cons a chs)
  then show ?case
    using channel_send_other [of a pkt sv _ ch] by (cases "channel_send True a pkt sv") auto
qed simp

text \<open>A reply that returns has been queued for its channel.\<close>

lemma reply_queued:
  assumes "chan_live ch c" "map_of (sv_channels sv) ch = Some c" "length data + 16 < 2 ^ 31"
    and "send_test_frame ch msg_id data sv = Done sv'"
  shows "\<exists>c'. map_of (sv_channels sv') ch = Some c' \<and> pending_bytes c' = pending_bytes c @ pack msg_id 0 1 0 data"
proof -
  let ?pkt = "pack msg_id 0 1 0 data"
  have fr: "frame_ok ?pkt" by (rule frame_ok_pack [OF assms(3)])
  have "room c ?pkt"
    using channel_send_full [OF assms(2,1) fr] assms(4) by (auto simp: send_test_frame_def send_frame_def)
  then show ?thesis
    using channel_send_room [OF assms(2,1) fr, of True] send_with_room [OF assms(1) fr] assms(4)
    by (auto simp: send_test_frame_def send_frame_def update_conv')
qed

text \<open>A reply returns when its channel has room.\<close>

lemma reply_done:
  assumes "chan_live ch c" "map_of (sv_channels sv) ch = Some c"
    and "length (pending_bytes c) + length data + 16 \<le> 256 * 1024"
  shows "\<exists>sv'. send_test_frame ch msg_id data sv = Done sv'"
proof -
  have fr: "frame_ok (pack msg_id 0 1 0 data)" using assms(3) by (intro frame_ok_pack) simp
  have "room c (pack msg_id 0 1 0 data)" using room_iff [OF assms(1) fr] assms(3) by simp
  from channel_send_room [OF assms(2,1) fr this] show ?thesis
    unfolding send_test_frame_def send_frame_def by blast
qed

text \<open>What a frame for one channel with room does, whether the mutex is held or not.\<close>

lemma send_frame_room:
  assumes "chan_live ch c" "map_of (sv_channels sv) ch = Some c"
    and "length (pending_bytes c) + length data + 16 \<le> 256 * 1024"
  shows "\<exists>c' out. send_frame held ch msg_id data sv
      = Done (sv\<lparr>sv_channels := AList.update ch c' (sv_channels sv), sv_out := out\<rparr>)
    \<and> chan_live ch c' \<and> pending_bytes c' = pending_bytes c @ pack msg_id 0 1 0 data"
proof -
  let ?pkt = "pack msg_id 0 1 0 data"
  have fr: "frame_ok ?pkt" using assms(3) by (intro frame_ok_pack) simp
  have room: "room c ?pkt" using room_iff [OF assms(1) fr] assms(3) by simp
  show ?thesis
    using channel_send_room [OF assms(2,1) fr room, of held] send_with_room [OF assms(1) fr room]
    unfolding send_frame_def by blast
qed

text \<open>A step of the server that reads one frame.\<close>

lemma frame_step:
  assumes "server_reach tok rnd k sv" "map_of (sv_channels sv) ch = Some c"
    and "drop (frame_acc_offset c) (frame_acc c) = []" "packet_ok f"
  shows "\<exists>c'. chan_live ch c' \<and> pending_bytes c' = pending_bytes c
    \<and> (\<forall>sv'. on_frame tok ch (pk_cmd f) (pk_payload f)
          (sv\<lparr>sv_channels := AList.update ch c' (sv_channels sv)\<rparr>) = Done sv' \<longrightarrow>
        server_reach tok rnd (k + 2) (sv_emit (ChannelEvent ch AsyncRead) sv'))"
proof -
  have inv: "service_ok sv" by (rule running.reach_inv [OF assms(1)])
  obtain c' where c': "chan_live ch c'" "pending_bytes c' = pending_bytes c"
    "snd (read_handler c False (encode_packet f)) = [OnFrame ch (pk_cmd f) (pk_payload f), AsyncRead]"
    "channel_input tok ch (IRead False (encode_packet f)) sv =
      and_then (on_frame tok ch (pk_cmd f) (pk_payload f)
          (sv\<lparr>sv_channels := AList.update ch c' (sv_channels sv)\<rparr>))
        (\<lambda>sv. Done (sv_emit (ChannelEvent ch AsyncRead) sv))"
    using read_one_packet [OF inv assms(2,3,4), of tok] by blast
  have "server_reach tok rnd (k + 2) (sv_emit (ChannelEvent ch AsyncRead) sv')"
    if "on_frame tok ch (pk_cmd f) (pk_payload f)
      (sv\<lparr>sv_channels := AList.update ch c' (sv_channels sv)\<rparr>) = Done sv'" for sv'
  proof -
    let ?i = "ChannelInput ch (IRead False (encode_packet f))"
    have "srv_step tok rnd ?i sv = Done (sv_emit (ChannelEvent ch AsyncRead) sv')" using that c'(4) by simp
    moreover have "input_ok ?i sv" "step_events ?i sv = 2" using assms(2) c'(3) by simp_all
    ultimately show ?thesis using server_reach.step [OF assms(1), of ?i] by metis
  qed
  with c'(1,2) show ?thesis by blast
qed

text \<open>A reply to one channel and a notification of all the others.\<close>

lemma reply_and_notify:
  assumes "service_ok sv" "map_of (sv_channels sv) ch \<noteq> None" "length d1 \<le> 30" "length d2 \<le> 30"
    and "\<forall>i c. map_of (sv_channels sv) i = Some c \<longrightarrow> length (pending_bytes c) + 64 \<le> 256 * 1024"
  shows "\<exists>sv1 cs out. send_test_frame ch m d1 sv = Done sv1
    \<and> broadcast_except ch m d2 sv1 = Done (sv\<lparr>sv_channels := cs, sv_out := out\<rparr>)
    \<and> (\<forall>i c. map_of (sv_channels sv) i = Some c \<longrightarrow> (\<exists>c'. map_of cs i = Some c' \<and>
         pending_bytes c' = pending_bytes c @ pack m 0 1 0 (if i = ch then d1 else d2)))"
proof -
  note live = chans_okD [OF assms(1) [unfolded service_ok_def, THEN conjunct2]]
  obtain c where c: "map_of (sv_channels sv) ch = Some c" using assms(2) by auto
  then have room: "length (pending_bytes c) + length d1 + 16 \<le> 256 * 1024"
    using assms(3) assms(5) [rule_format, OF c] by simp
  obtain c1 out1 where r1: "send_test_frame ch m d1 sv
      = Done (sv\<lparr>sv_channels := AList.update ch c1 (sv_channels sv), sv_out := out1\<rparr>)"
    and c1: "chan_live ch c1" "pending_bytes c1 = pending_bytes c @ pack m 0 1 0 d1"
    using send_frame_room [OF live [OF c] c room, of True m] unfolding send_test_frame_def by blast
  define sv1 where "sv1 = sv\<lparr>sv_channels := AList.update ch c1 (sv_channels sv), sv_out := out1\<rparr>"
  have ok1: "service_ok sv1"
    using assms(1) chans_ok_update [OF _ c1(1)] by (simp add: service_ok_def sv1_def)
  have chans1: "map_of (sv_channels sv1) = (map_of (sv_channels sv))(ch \<mapsto> c1)" by (simp add: sv1_def update_conv')
  have "length (pending_bytes d) + length d2 + 16 \<le> 256 * 1024"
    if "map_of (sv_channels sv) i = Some d" for i d using assms(4) assms(5) [rule_format, OF that] by simp
  then have "\<forall>i d. map_of (sv_channels sv1) i = Some d \<and> i \<noteq> ch \<longrightarrow> length (pending_bytes d) + length d2 + 16 \<le> 256 * 1024"
    by (simp add: chans1)
  from broadcast_except_room [OF ok1 _ this, of m] assms(4) obtain cs out where
    r2: "broadcast_except ch m d2 sv1 = Done (sv1\<lparr>sv_channels := cs, sv_out := out\<rparr>)"
    and cs: "\<And>i d. map_of (sv_channels sv1) i = Some d \<Longrightarrow> \<exists>d'. map_of cs i = Some d' \<and>
      pending_bytes d' = pending_bytes d @ (if i = ch then [] else pack m 0 1 0 d2)"
    by auto
  have "\<exists>c'. map_of cs i = Some c' \<and> pending_bytes c' = pending_bytes d @ pack m 0 1 0 (if i = ch then d1 else d2)"
    if "map_of (sv_channels sv) i = Some d" for i d
    using cs [of i "if i = ch then c1 else d"] that c c1(2) by (cases "i = ch") (auto simp: chans1)
  then show ?thesis
    using r1 r2 by (intro exI [of _ sv1] exI [of _ cs] exI [of _ out]) (simp add: sv1_def)
qed

end
