(* ===== verification/Server_Guilds.thy ===== *)
theory Server_Guilds
  imports Server_Behaviour
begin

text \<open>
  The guild commands (\<open>handlers/guild_handlers.cpp\<close>): their two tables agree in every reachable state,
  and the commands implement an abstract map from channels to guilds.
\<close>

section \<open>Guild commands refine a membership map\<close>

definition guild_map :: "game_server \<Rightarrow> int \<rightharpoonup> u32" where
  "guild_map sv = map_of (sv_channel_to_guild sv)"

definition spec_create :: "u32 \<Rightarrow> int \<Rightarrow> (int \<rightharpoonup> u32) \<Rightarrow> (int \<rightharpoonup> u32)" where
  "spec_create gid ch m = (if ch \<in> dom m then m else m(ch \<mapsto> gid))"

definition spec_join :: "u32 \<Rightarrow> int \<Rightarrow> (int \<rightharpoonup> u32) \<Rightarrow> (int \<rightharpoonup> u32)" where
  "spec_join gid ch m = (if gid \<in> ran m \<and> ch \<notin> dom m then m(ch \<mapsto> gid) else m)"

definition spec_leave :: "int \<Rightarrow> (int \<rightharpoonup> u32) \<Rightarrow> (int \<rightharpoonup> u32)" where
  "spec_leave ch m = m(ch := None)"

lemma guild_exists:
  assumes "guild_rel sv" "guild_wf sv"
  shows "gid \<in> ran (guild_map sv) \<longleftrightarrow> map_of (sv_guilds sv) gid \<noteq> None"
proof
  assume "gid \<in> ran (guild_map sv)"
  then obtain ch where "map_of (sv_channel_to_guild sv) ch = Some gid" unfolding ran_def guild_map_def by blast
  from guild_relD [OF assms(1) this] show "map_of (sv_guilds sv) gid \<noteq> None" by (elim exE conjE) simp
next
  assume "map_of (sv_guilds sv) gid \<noteq> None"
  then obtain g where g: "map_of (sv_guilds sv) gid = Some g" by (elim not_None_eq [THEN iffD1, elim_format] exE)
  then have "hd (gd_members g) \<in> set (gd_members g)" using assms(2) by (simp add: guild_wf_def)
  from guild_rel_member [OF assms(1) g this] show "gid \<in> ran (guild_map sv)"
    unfolding guild_map_def by (rule ranI)
qed

lemma guild_map_core: "core sv' = core sv \<Longrightarrow> guild_map sv' = guild_map sv"
  unfolding guild_map_def by (rule arg_cong [OF core_fields(4)])

lemma key_dom: "ch \<in> fst ` set (sv_channel_to_guild sv) \<longleftrightarrow> ch \<in> dom (guild_map sv)"
  by (simp add: guild_map_def dom_map_of_conv_image_fst)

lemma changed_maps:
  "guild_map (create_guild ch name desc sv) = (guild_map sv)(ch \<mapsto> sv_next_guild_id sv)"
  "guild_map (join_guild ch gid g sv) = (guild_map sv)(ch \<mapsto> gid)"
  by (simp_all add: guild_map_def create_guild_def join_guild_def Let_def update_conv')

lemma create_refines:
  assumes "guild_create_req_wf r" "handle_guild_create ch (guild_create_req_serialize r) sv = Done sv'"
  shows "guild_map sv' = spec_create (sv_next_guild_id sv) ch (guild_map sv)"
proof -
  have "\<exists>m. send_test_frame ch 2001 m (if ch \<in> dom (guild_map sv) then sv
      else create_guild ch (guild_create_req_guild_name r) (guild_create_req_guild_description r) sv) = Done sv'"
    using assms(2) guild_create_req_codec.parse_serialize [OF assms(1)]
    by (auto simp: handle_guild_create_def key_dom Let_def guild_create_reply_def split: if_splits)
  then have "guild_map sv' = guild_map (if ch \<in> dom (guild_map sv) then sv
      else create_guild ch (guild_create_req_guild_name r) (guild_create_req_guild_description r) sv)"
    by (elim exE) (rule guild_map_core [OF send_test_frame_core])
  then show ?thesis by (simp add: spec_create_def changed_maps)
qed

lemma join_refines:
  assumes "guild_rel sv" "guild_wf sv"
    and "guild_join_req_wf r" "handle_guild_join ch (guild_join_req_serialize r) sv = Done sv'"
  shows "guild_map sv' = spec_join (guild_join_req_guild_id r) ch (guild_map sv)"
proof -
  let ?gid = "guild_join_req_guild_id r"
  note run = assms(4) guild_join_req_codec.parse_serialize [OF assms(3)]
  show ?thesis
  proof (cases "map_of (sv_guilds sv) ?gid")
    case None
    then have "core sv' = core sv"
      using run by (auto simp: handle_guild_join_def Let_def guild_join_reply_def dest: send_test_frame_core)
    then have "guild_map sv' = guild_map sv" by (rule guild_map_core)
    then show ?thesis using None guild_exists [OF assms(1,2), of ?gid] by (simp add: spec_join_def)
  next
    case (Some g)
    then have "core sv' = core (if ch \<in> dom (guild_map sv) then sv else join_guild ch ?gid g sv)"
      using run by (auto simp: handle_guild_join_def key_dom Let_def guild_join_reply_def
          dest: send_test_frame_core split: if_splits)
    then have "guild_map sv' = guild_map (if ch \<in> dom (guild_map sv) then sv else join_guild ch ?gid g sv)"
      by (rule guild_map_core)
    then show ?thesis using Some guild_exists [OF assms(1,2), of ?gid] by (simp add: spec_join_def changed_maps)
  qed
qed

lemma leave_refines:
  assumes "handle_guild_leave ch data sv = Done sv'"
  shows "guild_map sv' = spec_leave ch (guild_map sv)"
proof (cases "map_of (sv_channel_to_guild sv) ch")
  case None
  then show ?thesis using assms by (simp add: handle_guild_leave_def spec_leave_def guild_map_def fun_upd_idem)
next
  case (Some gid)
  then have "core sv' = core (leave_guild ch gid sv)"
    using assms by (auto simp: handle_guild_leave_def dest: send_test_frame_core)
  then have "guild_map sv' = guild_map (leave_guild ch gid sv)" by (rule guild_map_core)
  then show ?thesis
    by (simp add: guild_map_def spec_leave_def leave_guild_def Let_def delete_conv' split: option.split)
qed

section \<open>A server with a guild\<close>

definition demo_guild_req :: guild_create_req where
  "demo_guild_req = \<lparr>guild_create_req_guild_name = str ''red'', guild_create_req_guild_description = [],
     guild_create_req_max_members = 50, guild_create_req_guild_type = 1\<rparr>"

lemma demo_guild_wf: "guild_create_req_wf demo_guild_req"
  by (simp add: demo_guild_req_def guild_create_req_wf_def lp_ok_def)

lemma demo_create:
  assumes "chan_live 1 c" "map_of (sv_channels sv) 1 = Some c" "pending_bytes c = []"
    and "sv_channel_to_guild sv = []" "sv_next_guild_id sv = 1"
  shows "\<exists>sv'. handle_guild_create 1 (guild_create_req_serialize demo_guild_req) sv = Done sv'
    \<and> guild_map sv' = [1 \<mapsto> 1]"
proof -
  let ?sv = "create_guild 1 (str ''red'') [] sv"
  have "map_of (sv_channels ?sv) 1 = Some c" using assms(2) by (simp add: create_guild_def Let_def)
  then have "\<exists>sv'. guild_create_reply 1 True (str ''ok'') 1 ?sv = Done sv'"
    unfolding guild_create_reply_def
    by (rule reply_done [OF assms(1)]) (simp add: assms(3) guild_create_res_serialize_def len_simps write_bool_def)
  then obtain sv' where sv': "guild_create_reply 1 True (str ''ok'') 1 ?sv = Done sv'" ..
  have "handle_guild_create 1 (guild_create_req_serialize demo_guild_req) sv = Done sv'"
    using sv' assms(4,5) guild_create_req_codec.parse_serialize [OF demo_guild_wf]
    by (simp add: handle_guild_create_def Let_def demo_guild_req_def)
  moreover from create_refines [OF demo_guild_wf this] have "guild_map sv' = [1 \<mapsto> 1]"
    using assms(4,5) by (simp add: spec_create_def guild_map_def)
  ultimately show ?thesis by blast
qed

lemma demo_server_guilds:
  "sv_channel_to_guild demo_server = []" "sv_next_guild_id demo_server = 1"
  "map_of (sv_channels demo_server) 1 = Some demo_channel1" "chan_live 1 demo_channel1"
  "drop (frame_acc_offset demo_channel1) (frame_acc demo_channel1) = []"
  using started_live [of 1 5]
  by (simp_all add: demo_server_def demo_start_def init_state_def new_game_server_def demo_channel1_def
      Channel.start_def new_channel_def Let_def)

lemma guild_server_reach:
  "\<exists>sv. server_reach (\<lambda>_. None) (\<lambda>_. 0) 2 sv \<and> guild_map sv = [1 \<mapsto> 1]"
proof -
  let ?data = "guild_create_req_serialize demo_guild_req"
  let ?f = "\<lparr>pk_cmd = 2001, pk_flags = 0, pk_ver = 1, pk_seq = 0, pk_payload = ?data\<rparr>"
  have ok: "packet_ok ?f"
    by (simp add: packet_ok_def demo_guild_req_def guild_create_req_serialize_def len_simps
        k_max_frame_bytes_def k_header_after_len_def write_u8_def)
  obtain c' where c': "chan_live 1 c'" "pending_bytes c' = []"
    and reach: "\<And>sv'. on_frame (\<lambda>_. None) 1 2001 ?data
        (demo_server\<lparr>sv_channels := AList.update 1 c' (sv_channels demo_server)\<rparr>) = Done sv' \<Longrightarrow>
      server_reach (\<lambda>_. None) (\<lambda>_. 0) 2 (sv_emit (ChannelEvent 1 AsyncRead) sv')"
    using frame_step [OF demo_server_reach demo_server_guilds(3,5) ok, of "\<lambda>_. None" "\<lambda>_. 0"]
    by (auto simp: demo_pending numeral_2_eq_2)
  let ?sv = "demo_server\<lparr>sv_channels := AList.update 1 c' (sv_channels demo_server)\<rparr>"
  obtain sv' where sv': "handle_guild_create 1 ?data ?sv = Done sv'" "guild_map sv' = [1 \<mapsto> 1]"
    using demo_create [of c' ?sv] c' demo_server_guilds(1,2) by (auto simp: update_conv')
  have "on_frame (\<lambda>_. None) 1 2001 ?data ?sv = Done sv'"
    using sv'(1) by (simp add: on_frame_def sv_dispatcher_def bind_player_handlers_def bind_guild_handlers_def
        dispatch_bind as_handler_def Let_def)
  from reach [OF this] have "server_reach (\<lambda>_. None) (\<lambda>_. 0) 2 (sv_emit (ChannelEvent 1 AsyncRead) sv')" .
  moreover have "guild_map (sv_emit (ChannelEvent 1 AsyncRead) sv') = [1 \<mapsto> 1]"
    using sv'(2) by (simp add: guild_map_def sv_emit_def)
  ultimately show ?thesis by blast
qed

section \<open>The guild commands and the guild tables\<close>

text \<open>
  C8: The guild commands implement an abstract map from channels to guilds. Creating puts a channel
  that has no guild into a guild that nobody was in, joining adds a channel without a guild to a guild
  that somebody is in, leaving removes it, and in every other case nothing changes.
\<close>

theorem guild_commands_refine:
  assumes "server_reach tok rnd k sv" "k < 2 ^ 32 - 2" "guild_create_req_wf rc" "guild_join_req_wf rj"
  shows "(handle_guild_create ch (guild_create_req_serialize rc) sv = Done sv1 \<longrightarrow>
        guild_map sv1 = spec_create (sv_next_guild_id sv) ch (guild_map sv)
        \<and> sv_next_guild_id sv \<notin> ran (guild_map sv))
    \<and> (handle_guild_join ch (guild_join_req_serialize rj) sv = Done sv2 \<longrightarrow>
        guild_map sv2 = spec_join (guild_join_req_guild_id rj) ch (guild_map sv))
    \<and> (handle_guild_leave ch data sv = Done sv3 \<longrightarrow> guild_map sv3 = spec_leave ch (guild_map sv))"
proof -
  have inv: "guild_rel sv" "guild_wf sv"
    using guilds.reach_inv [OF assms(1)] assms(2) by (simp_all add: guild_ok_def)
  have "map_of (sv_guilds sv) (sv_next_guild_id sv) = None"
    using inv(2) by (cases "map_of (sv_guilds sv) (sv_next_guild_id sv)") (auto simp: guild_wf_def)
  then have fresh: "sv_next_guild_id sv \<notin> ran (guild_map sv)" by (simp add: guild_exists [OF inv])
  show ?thesis
    by (intro conjI impI) (erule create_refines [OF assms(3)], rule fresh,
        erule join_refines [OF inv assms(4)], erule leave_refines)
qed

theorem guild_commands_refine_witness:
  "\<exists>sv. handle_guild_create 1 (guild_create_req_serialize demo_guild_req) demo_server = Done sv
    \<and> guild_map sv = spec_create 1 1 (guild_map demo_server) \<and> 1 \<notin> ran (guild_map demo_server)"
proof -
  have "guild_join_req_wf \<lparr>guild_join_req_guild_id = 1, guild_join_req_application_message = []\<rparr>"
    by (simp add: guild_join_req_wf_def lp_ok_def)
  note refine = guild_commands_refine [OF demo_server_reach _ demo_guild_wf this, THEN conjunct1, of 1]
  obtain sv where "handle_guild_create 1 (guild_create_req_serialize demo_guild_req) demo_server = Done sv"
    using demo_create [OF demo_server_guilds(4,3) demo_pending demo_server_guilds(1,2)] by blast
  then show ?thesis using refine [of sv] demo_server_guilds(2) by simp
qed

text \<open>
  C9: The two guild tables never disagree, in any state that the server reaches before guild ids can
  wrap around: a channel is mapped to a guild exactly when that guild exists and lists the channel, so
  a channel is in at most one guild; no guild is empty, lists a member twice or carries a wrong id.
\<close>

theorem guild_tables_agree:
  assumes "server_reach tok rnd k sv" "k < 2 ^ 32 - 2"
  shows "(map_of (sv_channel_to_guild sv) ch = Some gid \<longleftrightarrow>
      (\<exists>g. map_of (sv_guilds sv) gid = Some g \<and> ch \<in> set (gd_members g)))
    \<and> (\<forall>g. map_of (sv_guilds sv) gid = Some g \<longrightarrow>
         gd_id g = gid \<and> distinct (gd_members g) \<and> gd_members g \<noteq> [])"
proof -
  have "guild_rel sv" "guild_wf sv" using guilds.reach_inv [OF assms(1)] assms(2) by (simp_all add: guild_ok_def)
  then show ?thesis unfolding guild_rel_def guild_wf_def by blast
qed

theorem guild_tables_agree_witness:
  "\<exists>sv g. server_reach (\<lambda>_. None) (\<lambda>_. 0) 2 sv \<and> map_of (sv_guilds sv) 1 = Some g
    \<and> 1 \<in> set (gd_members g) \<and> gd_id g = 1 \<and> distinct (gd_members g)"
proof -
  obtain sv where sv: "server_reach (\<lambda>_. None) (\<lambda>_. 0) 2 sv" "guild_map sv = [1 \<mapsto> 1]"
    using guild_server_reach by blast
  have "map_of (sv_channel_to_guild sv) 1 = Some 1" using sv(2) by (simp add: guild_map_def)
  then show ?thesis using guild_tables_agree [OF sv(1), of 1 1] sv(1) by auto
qed

end
