(* ===== verification/Server_Players.thy ===== *)
theory Server_Players
  imports Server_Behaviour
begin

text \<open>
  The player handlers (\<open>handlers/player_handlers.cpp\<close>) and the end of a connection
  (\<open>game_server::on_close\<close>): what a login creates with and without a database, what an attack does to
  the two players and to the other clients, and what is saved of a player who disconnects.
\<close>

section \<open>Replies and players\<close>

text \<open>The frame is appended to the outgoing bytes of one channel; the other channels are as before.\<close>

definition replied :: "int \<Rightarrow> u16 \<Rightarrow> bytes \<Rightarrow> game_server \<Rightarrow> game_server \<Rightarrow> bool" where
  "replied ch msg_id data sv sv' \<longleftrightarrow>
    (\<exists>c c'. map_of (sv_channels sv) ch = Some c \<and> map_of (sv_channels sv') = (map_of (sv_channels sv))(ch \<mapsto> c')
       \<and> pending_bytes c' = pending_bytes c @ pack msg_id 0 1 0 data)"

text \<open>The channel is bound to the entity, which has the four components of a player; nothing else moved.\<close>

definition player_spawned ::
  "int \<Rightarrow> entity \<Rightarrow> position \<Rightarrow> player \<Rightarrow> health \<Rightarrow> game_server \<Rightarrow> game_server \<Rightarrow> bool" where
  "player_spawned ch e p pl h sv sv' \<longleftrightarrow>
    map_of (sv_channel_to_entity sv') = (map_of (sv_channel_to_entity sv))(ch \<mapsto> e)
    \<and> w_entities (sv_world sv') = fst (create_entity (w_entities (sv_world sv)))
    \<and> e = snd (create_entity (w_entities (sv_world sv)))
    \<and> w_get_component position_slot (sv_world sv') = (w_get_component position_slot (sv_world sv))(e \<mapsto> p)
    \<and> w_get_component velocity_slot (sv_world sv') = (w_get_component velocity_slot (sv_world sv))(e \<mapsto> Velocity 0 0 0)
    \<and> w_get_component player_slot (sv_world sv') = (w_get_component player_slot (sv_world sv))(e \<mapsto> pl)
    \<and> w_get_component health_slot (sv_world sv') = (w_get_component health_slot (sv_world sv))(e \<mapsto> h)"

lemma reply_room:
  assumes "chan_live ch c" "map_of (sv_channels sv) ch = Some c"
    and "length (pending_bytes c) + length data + 16 \<le> 256 * 1024"
  shows "\<exists>sv'. send_frame held ch msg_id data sv = Done sv' \<and> replied ch msg_id data sv sv' \<and> core sv' = core sv"
  using send_frame_room [OF assms, of held msg_id] assms(2)
  by (auto simp: replied_def update_conv' core_def)

lemma player_component_of_add:
  "w_get_component player_slot (w_add_component player_slot e pl wd) k
     = (if k = e then Some pl else w_get_component player_slot wd k)"
  by (simp add: w_get_component_def w_add_component_def player_sl.component_of_add)

lemma sv_world_set [simp]: "sv_world (set_world w sv) = w"
  by (simp add: sv_world_def set_world_def)

lemma spawn_result:
  assumes "sv_service_up sv"
  shows "\<exists>w e. spawn_player ch name pid x y z mid h sv
      = Done ((set_world w sv)\<lparr>sv_channel_to_entity := AList.update ch e (sv_channel_to_entity sv)\<rparr>, e)
    \<and> player_spawned ch e (Position x y z) (Player name (pid e) ch mid) h sv
        ((set_world w sv)\<lparr>sv_channel_to_entity := AList.update ch e (sv_channel_to_entity sv)\<rparr>)"
proof -
  let ?e = "snd (w_create_entity (sv_world sv))"
  define w where "w = w_add_component health_slot ?e h (w_add_component player_slot ?e (Player name (pid ?e) ch mid)
    (w_add_component velocity_slot ?e (Velocity 0 0 0) (w_add_component position_slot ?e (Position x y z)
      (fst (w_create_entity (sv_world sv))))))"
  have "sv_channel_to_entity (set_world w sv) = sv_channel_to_entity sv" by (simp add: set_world_def)
  then have run: "spawn_player ch name pid x y z mid h sv
      = Done ((set_world w sv)\<lparr>sv_channel_to_entity := AList.update ch ?e (sv_channel_to_entity sv)\<rparr>, ?e)"
    using assms by (simp add: spawn_player_def service_world_def case_prod_unfold Let_def w_def)
  have "sv_world ((set_world w sv)\<lparr>sv_channel_to_entity := as\<rparr>) = w" for as
    by (simp add: sv_world_def set_world_def)
  moreover have "w_entities w = fst (create_entity (w_entities (sv_world sv)))"
    by (simp add: w_def w_create_entity_def case_prod_unfold Let_def)
  moreover have "?e = snd (create_entity (w_entities (sv_world sv)))"
    by (simp add: w_create_entity_def case_prod_unfold Let_def)
  moreover have "w_get_component position_slot w = (w_get_component position_slot (sv_world sv))(?e \<mapsto> Position x y z)"
    "w_get_component velocity_slot w = (w_get_component velocity_slot (sv_world sv))(?e \<mapsto> Velocity 0 0 0)"
    "w_get_component player_slot w = (w_get_component player_slot (sv_world sv))(?e \<mapsto> Player name (pid ?e) ch mid)"
    "w_get_component health_slot w = (w_get_component health_slot (sv_world sv))(?e \<mapsto> h)"
    by (auto simp: w_def player_component_of_add fun_eq_iff)
  ultimately show ?thesis
    using run by (intro exI [of _ w] exI [of _ ?e]) (simp add: player_spawned_def update_conv')
qed

section \<open>Login\<close>

abbreviation login_answer :: "bool \<Rightarrow> bytes \<Rightarrow> u32 \<Rightarrow> u32 \<Rightarrow> bytes" where
  "login_answer ok msg pid mid \<equiv> login_res_serialize \<lparr>login_res_success = ok, login_res_message = msg,
     login_res_player_id = pid, login_res_map_id = mid\<rparr>"

definition token_refused :: "(bytes \<Rightarrow> int option) \<Rightarrow> login_req \<Rightarrow> game_server \<Rightarrow> bool" where
  "token_refused tok r sv \<longleftrightarrow> sv_redis sv \<and> login_req_session_token r \<noteq> [] \<and> tok (login_req_session_token r) = None"

lemma login_reply_room:
  assumes "chan_live ch c" "map_of (sv_channels sv) ch = Some c"
    and "length (pending_bytes c) + 64 \<le> 256 * 1024" "length msg \<le> 20"
  shows "\<exists>sv'. login_reply ch ok msg pid mid sv = Done sv'
    \<and> replied ch 1001 (login_answer ok msg pid mid) sv sv' \<and> core sv' = core sv"
  unfolding login_reply_def
  by (rule reply_room [OF assms(1,2)])
    (use assms(3,4) in \<open>simp add: login_res_serialize_def len_simps write_bool_def\<close>)

lemma spawned_core:
  assumes "player_spawned ch e p pl h sv sv1" "core sv2 = core sv1"
  shows "player_spawned ch e p pl h sv sv2"
  using assms(1) core_fields [OF assms(2)] by (simp add: player_spawned_def)

lemma replied_cong: "sv_channels sv1 = sv_channels sv \<Longrightarrow> replied ch m d sv1 sv2 = replied ch m d sv sv2"
  by (simp add: replied_def)

lemma login_refused:
  assumes "chan_live ch c" "map_of (sv_channels sv) ch = Some c" "length (pending_bytes c) + 64 \<le> 256 * 1024"
    and "login_req_wf r" "token_refused tok r sv"
  shows "\<exists>sv'. handle_login tok ch (login_req_serialize r) sv = Done sv' \<and> core sv' = core sv
    \<and> replied ch 1001 (login_answer False (str ''invalid_token'') 0 0) sv sv'"
  using login_reply_room [OF assms(1-3), of "str ''invalid_token''" False 0 0] assms(5)
    login_req_codec.parse_serialize [OF assms(4)]
  by (auto simp: handle_login_def token_refused_def)

lemma login_posted:
  assumes "login_req_wf r" "\<not> token_refused tok r sv" "sv_dao sv"
  shows "handle_login tok ch (login_req_serialize r) sv = Done (if ch \<in> set (sv_db_strands sv)
    then post_db ch (LoginJob (login_req_player_name r)) sv else sv)"
  using assms(2,3) login_req_codec.parse_serialize [OF assms(1)]
  by (auto simp: handle_login_def token_refused_def)

lemma login_spawned:
  assumes "chan_live ch c" "map_of (sv_channels sv) ch = Some c" "length (pending_bytes c) + 64 \<le> 256 * 1024"
    and "login_req_wf r" "\<not> token_refused tok r sv" "\<not> sv_dao sv" "sv_use_ecs sv" "sv_service_up sv"
  shows "\<exists>sv' e. handle_login tok ch (login_req_serialize r) sv = Done sv'
    \<and> player_spawned ch e (Position 0 0 0) (Player (login_req_player_name r) e ch 1) (Health 100 50) sv sv'
    \<and> replied ch 1001 (login_answer True (str ''ok'') e 1) sv sv' \<and> sv_main sv' = sv_main (set_world (sv_world sv') sv)"
proof -
  let ?name = "login_req_player_name r"
  obtain w e where sp: "spawn_player ch ?name (\<lambda>e. e) 0 0 0 1 (Health 100 50) sv
      = Done ((set_world w sv)\<lparr>sv_channel_to_entity := AList.update ch e (sv_channel_to_entity sv)\<rparr>, e)"
    "player_spawned ch e (Position 0 0 0) (Player ?name e ch 1) (Health 100 50) sv
      ((set_world w sv)\<lparr>sv_channel_to_entity := AList.update ch e (sv_channel_to_entity sv)\<rparr>)"
    using spawn_result [OF assms(8), of ch ?name "\<lambda>e. e" 0 0 0 1 "Health 100 50"] by auto
  define sv1 where "sv1 = (set_world w sv)\<lparr>sv_channel_to_entity := AList.update ch e (sv_channel_to_entity sv)\<rparr>"
  have chans: "sv_channels sv1 = sv_channels sv" by (simp add: sv1_def set_world_def)
  with assms(2) have "map_of (sv_channels sv1) ch = Some c" by simp
  from login_reply_room [OF assms(1) this assms(3), of "str ''ok''" True e 1]
  obtain sv' where sv': "login_reply ch True (str ''ok'') e 1 sv1 = Done sv'"
    "replied ch 1001 (login_answer True (str ''ok'') e 1) sv1 sv'" "core sv' = core sv1" by auto
  have "handle_login tok ch (login_req_serialize r) sv = Done sv'"
    using assms(5-7) login_req_codec.parse_serialize [OF assms(4)] sp(1) sv'(1)
    by (auto simp: handle_login_def token_refused_def login_default_def sv1_def)
  moreover have "player_spawned ch e (Position 0 0 0) (Player ?name e ch 1) (Health 100 50) sv sv'"
    by (rule spawned_core [OF sp(2) [folded sv1_def] sv'(3)])
  moreover have "sv_main sv' = sv_main (set_world (sv_world sv') sv)"
    using core_fields(1,7) [OF sv'(3)] by (simp add: sv1_def set_world_def sv_world_def)
  ultimately show ?thesis using sv'(2) replied_cong [OF chans] by blast
qed

section \<open>The second half of a login with a database\<close>

abbreviation stored_health :: "player_record \<Rightarrow> health" where
  "stored_health r \<equiv> (Health (to_u32 (pr_max_hp r)) 50)\<lparr>hp := to_u32 (pr_hp r)\<rparr>"

abbreviation stored_id :: "player_record \<Rightarrow> entity \<Rightarrow> u32" where
  "stored_id r e \<equiv> (if pr_id r > 0 then to_u32 (pr_id r) else e)"

lemma continue_gone: "map_of (sv_channels sv) ch = None \<Longrightarrow> login_continue ch name rec sv = Done sv"
  by (simp add: login_continue_def map_of_eq_None_iff)

lemma continue_failed:
  assumes "chan_live ch c" "map_of (sv_channels sv) ch = Some c" "length (pending_bytes c) + 64 \<le> 256 * 1024"
  shows "\<exists>sv'. login_continue ch name None sv = Done sv' \<and> core sv' = core sv
    \<and> replied ch 1001 (login_answer False (str ''db_error'') 0 0) sv sv'"
  using login_reply_room [OF assms, of "str ''db_error''" False 0 0] map_of_Some_key [OF assms(2)]
  by (auto simp: login_continue_def)

lemma continue_found:
  assumes "chan_live ch c" "map_of (sv_channels sv) ch = Some c" "length (pending_bytes c) + 64 \<le> 256 * 1024"
    and "sv_use_ecs sv" "sv_service_up sv"
  shows "\<exists>sv' e. login_continue ch name (Some r) sv = Done sv'
    \<and> player_spawned ch e (Position (pr_pos_x r) (pr_pos_y r) (pr_pos_z r))
        (Player name (stored_id r e) ch (to_u32 (pr_map_id r))) (stored_health r) sv sv'
    \<and> map_of (sv_channel_to_db_id sv') = (if pr_id r > 0 then (map_of (sv_channel_to_db_id sv))(ch \<mapsto> pr_id r)
        else map_of (sv_channel_to_db_id sv))
    \<and> replied ch 1001 (login_answer True (str ''ok'') (stored_id r e) (to_u32 (pr_map_id r))) sv sv'
    \<and> sv_use_ecs sv' = sv_use_ecs sv \<and> sv_dao sv' = sv_dao sv \<and> sv_db_strands sv' = sv_db_strands sv"
proof -
  obtain w e where sp: "spawn_player ch name (stored_id r) (pr_pos_x r) (pr_pos_y r) (pr_pos_z r)
        (to_u32 (pr_map_id r)) (stored_health r) sv
      = Done ((set_world w sv)\<lparr>sv_channel_to_entity := AList.update ch e (sv_channel_to_entity sv)\<rparr>, e)"
    "player_spawned ch e (Position (pr_pos_x r) (pr_pos_y r) (pr_pos_z r))
      (Player name (stored_id r e) ch (to_u32 (pr_map_id r))) (stored_health r) sv
      ((set_world w sv)\<lparr>sv_channel_to_entity := AList.update ch e (sv_channel_to_entity sv)\<rparr>)"
    using spawn_result [OF assms(5), of ch name "stored_id r" "pr_pos_x r" "pr_pos_y r" "pr_pos_z r"
        "to_u32 (pr_map_id r)" "stored_health r"] by auto
  define sv1 where "sv1 = (set_world w sv)\<lparr>sv_channel_to_entity := AList.update ch e (sv_channel_to_entity sv)\<rparr>"
  define sv2 where "sv2 = (if pr_id r > 0
    then sv1\<lparr>sv_channel_to_db_id := AList.update ch (pr_id r) (sv_channel_to_db_id sv1)\<rparr> else sv1)"
  have chans: "sv_channels sv2 = sv_channels sv" by (simp add: sv2_def sv1_def set_world_def)
  have spawned: "player_spawned ch e (Position (pr_pos_x r) (pr_pos_y r) (pr_pos_z r))
      (Player name (stored_id r e) ch (to_u32 (pr_map_id r))) (stored_health r) sv sv2"
    using sp(2) [folded sv1_def] by (simp add: player_spawned_def sv2_def sv_world_def)
  have "map_of (sv_channels sv2) ch = Some c" using chans assms(2) by simp
  from login_reply_room [OF assms(1) this assms(3), of "str ''ok''" True "stored_id r e" "to_u32 (pr_map_id r)"]
  obtain sv' where sv': "login_reply ch True (str ''ok'') (stored_id r e) (to_u32 (pr_map_id r)) sv2 = Done sv'"
    "replied ch 1001 (login_answer True (str ''ok'') (stored_id r e) (to_u32 (pr_map_id r))) sv2 sv'"
    "core sv' = core sv2" by auto
  have "login_continue ch name (Some r) sv = Done sv'"
    using map_of_Some_key [OF assms(2)] assms(4) sp(1) sv'(1)
    by (auto simp: login_continue_def sv2_def sv1_def)
  moreover have "map_of (sv_channel_to_db_id sv') = (if pr_id r > 0
      then (map_of (sv_channel_to_db_id sv))(ch \<mapsto> pr_id r) else map_of (sv_channel_to_db_id sv))"
    using core_fields(8) [OF sv'(3)] by (simp add: sv2_def sv1_def set_world_def update_conv')
  moreover have "sv_use_ecs sv' = sv_use_ecs sv \<and> sv_dao sv' = sv_dao sv \<and> sv_db_strands sv' = sv_db_strands sv"
    using core_fields(11-13) [OF sv'(3)] by (simp add: sv2_def sv1_def set_world_def)
  ultimately show ?thesis using sv'(2) replied_cong [OF chans] spawned_core [OF spawned sv'(3)] by blast
qed

text \<open>
  C12: A login over a connection with room in its queue ends in one of three ways. A session token that
  Redis does not know is answered with \<open>invalid_token\<close> and changes nothing else. With a database the
  request is handed to the strand of the connection and nothing else happens yet. Without one a new entity
  with position, velocity, player and health components is bound to the channel, no other entity changes,
  and the client is told the id of the entity.
\<close>

theorem login_correct:
  assumes "server_reach tok rnd k sv" "map_of (sv_channels sv) ch = Some c"
    and "length (pending_bytes c) + 64 \<le> 256 * 1024" "login_req_wf r" "sv_use_ecs sv"
  shows "\<exists>sv'. handle_login tok ch (login_req_serialize r) sv = Done sv' \<and>
    (if token_refused tok r sv
     then core sv' = core sv \<and> replied ch 1001 (login_answer False (str ''invalid_token'') 0 0) sv sv'
     else if sv_dao sv
     then sv' = (if ch \<in> set (sv_db_strands sv) then post_db ch (LoginJob (login_req_player_name r)) sv else sv)
     else \<exists>e. player_spawned ch e (Position 0 0 0) (Player (login_req_player_name r) e ch 1) (Health 100 50) sv sv'
       \<and> replied ch 1001 (login_answer True (str ''ok'') e 1) sv sv')"
proof -
  have inv: "service_ok sv" by (rule running.reach_inv [OF assms(1)])
  then have live: "chan_live ch c" and up: "sv_service_up sv"
    using assms(2,5) chans_okD by (auto simp: service_ok_def)
  note refused = login_refused [OF live assms(2-4)] and posted = login_posted [OF assms(4)]
    and spawned = login_spawned [OF live assms(2-4) _ _ assms(5) up]
  consider "token_refused tok r sv" | "\<not> token_refused tok r sv" "sv_dao sv" | "\<not> token_refused tok r sv" "\<not> sv_dao sv"
    by blast
  then show ?thesis
  proof cases
    case 1
    from refused [OF 1] 1 show ?thesis by auto
  next
    case 2
    from posted [OF 2] 2 show ?thesis by simp
  next
    case 3
    from spawned [OF 3] 3 show ?thesis by auto
  qed
qed

text \<open>
  C13: When the database has answered, the login of a client that is gone changes nothing, so no entity is
  left behind; a failed lookup is answered with \<open>db_error\<close> and changes nothing else; and a stored player
  gets an entity with the stored position, map and hit points, is remembered under the database id for
  saving, and is told that id and map.
\<close>

theorem database_login_correct:
  assumes "server_reach tok rnd k sv" "sv_use_ecs sv"
    and "\<forall>c. map_of (sv_channels sv) ch = Some c \<longrightarrow> length (pending_bytes c) + 64 \<le> 256 * 1024"
  shows "\<exists>sv'. login_continue ch name rec sv = Done sv' \<and>
    (if map_of (sv_channels sv) ch = None then sv' = sv
     else case rec of
       None \<Rightarrow> core sv' = core sv \<and> replied ch 1001 (login_answer False (str ''db_error'') 0 0) sv sv'
     | Some r \<Rightarrow> \<exists>e. player_spawned ch e (Position (pr_pos_x r) (pr_pos_y r) (pr_pos_z r))
           (Player name (stored_id r e) ch (to_u32 (pr_map_id r))) (stored_health r) sv sv'
         \<and> map_of (sv_channel_to_db_id sv') = (if pr_id r > 0 then (map_of (sv_channel_to_db_id sv))(ch \<mapsto> pr_id r)
             else map_of (sv_channel_to_db_id sv))
         \<and> replied ch 1001 (login_answer True (str ''ok'') (stored_id r e) (to_u32 (pr_map_id r))) sv sv')"
proof (cases "map_of (sv_channels sv) ch")
  case None
  then show ?thesis using continue_gone by auto
next
  case (Some c)
  have inv: "service_ok sv" by (rule running.reach_inv [OF assms(1)])
  then have live: "chan_live ch c" and up: "sv_service_up sv"
    using Some assms(2) chans_okD by (auto simp: service_ok_def)
  have room: "length (pending_bytes c) + 64 \<le> 256 * 1024" using assms(3) Some by simp
  show ?thesis
  proof (cases rec)
    case None
    then show ?thesis using continue_failed [OF live Some room, of name] Some by auto
  next
    case (Some r)
    then show ?thesis using continue_found [OF live \<open>map_of (sv_channels sv) ch = Some c\<close> room assms(2) up, of name r]
        \<open>map_of (sv_channels sv) ch = Some c\<close> by (simp only: option.simps if_False not_False_eq_True) blast
  qed
qed

section \<open>Attack\<close>

lemma health_of_modify:
  "w_get_component health_slot (w_modify_component health_slot e f wd) k
     = (if k = e then map_option f (w_get_component health_slot wd k) else w_get_component health_slot wd k)"
  by (simp add: w_get_component_def w_modify_component_def health_sl.component_of_modify)

lemma destroy_keeps_components [simp]: "w_get_component sl (w_destroy_entity e wd) = w_get_component sl wd"
  by (simp add: w_get_component_def fun_eq_iff)

definition strike :: "u32 \<Rightarrow> health \<Rightarrow> health" where
  "strike damage h = h\<lparr>hp := (if hp h > damage then hp h - damage else 0)\<rparr>"

lemma combat_strike: "w\<lparr>w_components := combat_take_damage t d (w_components w)\<rparr> = w_modify_component health_slot t (strike d) w"
proof -
  have "(\<lambda>h. h\<lparr>hp := (if hp h > d then hp h - d else 0)\<rparr>) = strike d" by (simp add: strike_def fun_eq_iff)
  then show ?thesis unfolding combat_take_damage_def w_modify_component_def by simp
qed

text \<open>The end of an attack: the two kinds of frames have been sent and a dead target is removed.\<close>

definition removed :: "bool \<Rightarrow> int \<Rightarrow> entity \<Rightarrow> game_server \<Rightarrow> game_server" where
  "removed dead tch t sv = (if dead
     then (set_world (w_destroy_entity t (sv_world sv)) sv)
       \<lparr>sv_channel_to_entity := AList.delete tch (sv_channel_to_entity sv)\<rparr>
     else sv)"

lemma removed_fields:
  "sv_channels (removed dead tch t sv) = sv_channels sv"
  "w_get_component sl (sv_world (removed dead tch t sv)) = w_get_component sl (sv_world sv)"
  "map_of (sv_channel_to_entity (removed dead tch t sv))
     = (if dead then (map_of (sv_channel_to_entity sv))(tch := None) else map_of (sv_channel_to_entity sv))"
  "w_entities (sv_world (removed dead tch t sv))
     = (if dead then destroy_entity t (w_entities (sv_world sv)) else w_entities (sv_world sv))"
proof -
  have w: "sv_world ((set_world w sv)\<lparr>sv_channel_to_entity := as\<rparr>) = w" for w as
    by (simp add: sv_world_def set_world_def)
  show "w_get_component sl (sv_world (removed dead tch t sv)) = w_get_component sl (sv_world sv)"
    by (simp add: removed_def w)
  show "w_entities (sv_world (removed dead tch t sv))
     = (if dead then destroy_entity t (w_entities (sv_world sv)) else w_entities (sv_world sv))"
    by (simp add: removed_def w w_destroy_entity_def Let_def)
  show "map_of (sv_channel_to_entity (removed dead tch t sv))
     = (if dead then (map_of (sv_channel_to_entity sv))(tch := None) else map_of (sv_channel_to_entity sv))"
    by (simp add: removed_def set_world_def delete_conv')
  show "sv_channels (removed dead tch t sv) = sv_channels sv" by (simp add: removed_def set_world_def)
qed

abbreviation attack_answer :: "bool \<Rightarrow> u32 \<Rightarrow> u32 \<Rightarrow> bytes" where
  "attack_answer dead damage left \<equiv> attack_res_serialize \<lparr>attack_res_success = True,
     attack_res_message = (if dead then str ''killed'' else str ''hit''), attack_res_attack_id = 1,
     attack_res_damage = damage, attack_res_target_remaining_hp = left\<rparr>"

abbreviation attack_notice :: "int \<Rightarrow> attack_req \<Rightarrow> u32 \<Rightarrow> u32 \<Rightarrow> bytes" where
  "attack_notice ch r damage left \<equiv> damage_notify_serialize \<lparr>damage_notify_attacker_id = to_u32 ch,
     damage_notify_target_id = attack_req_target_id r, damage_notify_damage = damage,
     damage_notify_remaining_hp = left, damage_notify_attack_id = 1, damage_notify_timestamp = attack_req_timestamp r\<rparr>"

lemma attack_runs:
  fixes r :: attack_req
  assumes "entity_of ch sv \<noteq> 0" "entity_of (to_int (attack_req_target_id r)) sv = t" "t \<noteq> 0"
    and "sv_service_up sv" "get_system CombatSystem (mn_systems (sv_main sv)) \<noteq> None"
    and "w_get_component health_slot (sv_world sv) t = Some h"
  defines "damage \<equiv> 10 + attack_req_skill_id r * 5"
  defines "left \<equiv> hp (strike damage h)"
  shows "handle_attack ch (attack_req_serialize r) sv =
    and_then (send_test_frame ch 1004 (attack_answer (left = 0) damage left)
        (set_world (w_modify_component health_slot t (strike damage) (sv_world sv)) sv))
      (\<lambda>sv1. and_then (broadcast_except ch 1004 (attack_notice ch r damage left) sv1)
         (\<lambda>sv2. Done (removed (left = 0) (to_int (attack_req_target_id r)) t sv2)))"
proof -
  let ?w = "w_modify_component health_slot t (strike damage) (sv_world sv)"
  have "w_get_component health_slot ?w t = Some (strike damage h)" by (simp add: health_of_modify assms(6))
  then have hp: "get_hp t (w_components ?w) = left"
    by (simp add: get_hp_def w_get_component_def left_def)
  have "attack_req_parse (attack_req_serialize r) = Parsed r []"
    by (rule attack_req_codec.parse_serialize) (simp add: attack_req_wf_def)
  moreover obtain cs where "get_system CombatSystem (mn_systems (sv_main sv)) = Some cs" using assms(5) by auto
  ultimately show ?thesis
    using assms(1-4) hp
    by (simp add: handle_attack_def Let_def service_world_def combat_strike attack_reply_def removed_def
        damage_def [symmetric])
qed

lemma length_attack_frames:
  "length (attack_answer dead damage left) \<le> 30" "length (attack_notice ch r damage left) \<le> 30"
  by (simp_all add: attack_res_serialize_def damage_notify_serialize_def len_simps write_bool_def)

text \<open>
  C11: An attack takes \<open>10 + 5 * skill_id\<close> hit points (computed in 32 bits) from the target and never
  leaves fewer than none; no other entity and no other component changes. The attacker gets one reply with the
  damage and the hit points left, and every other client gets one notification. Exactly when no hit
  point is left, the entity of the target is destroyed and its channel loses it.
\<close>

theorem attack_correct:
  assumes "server_reach tok rnd k sv" "map_of (sv_channels sv) ch \<noteq> None"
    and "\<forall>i c. map_of (sv_channels sv) i = Some c \<longrightarrow> length (pending_bytes c) + 64 \<le> 256 * 1024"
    and "entity_of ch sv \<noteq> 0" "entity_of (to_int (attack_req_target_id r)) sv = t" "t \<noteq> 0"
    and "get_system CombatSystem (mn_systems (sv_main sv)) \<noteq> None"
    and "w_get_component health_slot (sv_world sv) t = Some h" "em_inv n (w_entities (sv_world sv))"
  shows "let damage = 10 + attack_req_skill_id r * 5; left = (if hp h > damage then hp h - damage else 0)
    in \<exists>sv'. handle_attack ch (attack_req_serialize r) sv = Done sv'
      \<and> w_get_component health_slot (sv_world sv') = (w_get_component health_slot (sv_world sv))(t \<mapsto> h\<lparr>hp := left\<rparr>)
      \<and> w_get_component position_slot (sv_world sv') = w_get_component position_slot (sv_world sv)
      \<and> w_get_component player_slot (sv_world sv') = w_get_component player_slot (sv_world sv)
      \<and> (\<forall>e. is_valid (w_entities (sv_world sv')) e \<longleftrightarrow> is_valid (w_entities (sv_world sv)) e \<and> \<not> (left = 0 \<and> e = t))
      \<and> map_of (sv_channel_to_entity sv') = (if left = 0
          then (map_of (sv_channel_to_entity sv))(to_int (attack_req_target_id r) := None)
          else map_of (sv_channel_to_entity sv))
      \<and> (\<forall>i c. map_of (sv_channels sv) i = Some c \<longrightarrow> (\<exists>c'. map_of (sv_channels sv') i = Some c'
          \<and> pending_bytes c' = pending_bytes c @ pack 1004 0 1 0
              (if i = ch then attack_answer (left = 0) damage left else attack_notice ch r damage left)))"
proof -
  define damage where "damage = 10 + attack_req_skill_id r * 5"
  define left where "left = (if hp h > damage then hp h - damage else 0)"
  have strike: "strike damage h = h\<lparr>hp := left\<rparr>" "hp (strike damage h) = left" by (simp_all add: strike_def left_def)
  have inv: "service_ok sv" by (rule running.reach_inv [OF assms(1)])
  have up: "sv_service_up sv" by (rule running.entity_up [OF inv assms(4)])
  define w where "w = w_modify_component health_slot t (strike damage) (sv_world sv)"
  define sv0 where "sv0 = set_world w sv"
  have sv0: "sv_channels sv0 = sv_channels sv" "service_ok sv0"
    using inv by (simp_all add: sv0_def set_world_def service_ok_def)
  obtain sv1 cs out where r1: "send_test_frame ch 1004 (attack_answer (left = 0) damage left) sv0 = Done sv1"
    and r2: "broadcast_except ch 1004 (attack_notice ch r damage left) sv1 = Done (sv0\<lparr>sv_channels := cs, sv_out := out\<rparr>)"
    and frames: "\<forall>i c. map_of (sv_channels sv) i = Some c \<longrightarrow> (\<exists>c'. map_of cs i = Some c' \<and> pending_bytes c' =
        pending_bytes c @ pack 1004 0 1 0 (if i = ch then attack_answer (left = 0) damage left
          else attack_notice ch r damage left))"
    using reply_and_notify [OF sv0(2) _ length_attack_frames, where ch = ch and m = 1004] assms(2,3)
    unfolding sv0(1) by blast
  define sv2 where "sv2 = sv0\<lparr>sv_channels := cs, sv_out := out\<rparr>"
  have sv2: "sv_world sv2 = w" "sv_channel_to_entity sv2 = sv_channel_to_entity sv" "sv_channels sv2 = cs"
    by (simp_all add: sv2_def sv0_def set_world_def sv_world_def)
  have run: "handle_attack ch (attack_req_serialize r) sv = Done (removed (left = 0) (to_int (attack_req_target_id r)) t sv2)"
    using attack_runs [OF assms(4,5,6) up assms(7,8)] r1 r2
    by (simp add: damage_def [symmetric] strike(2) w_def [symmetric] sv0_def [symmetric] sv2_def [symmetric])
  have comps: "w_get_component health_slot w = (w_get_component health_slot (sv_world sv))(t \<mapsto> h\<lparr>hp := left\<rparr>)"
    "w_get_component position_slot w = w_get_component position_slot (sv_world sv)"
    "w_get_component player_slot w = w_get_component player_slot (sv_world sv)" "w_entities w = w_entities (sv_world sv)"
    by (auto simp: w_def health_of_modify fun_eq_iff assms(8) strike(1))
  show ?thesis
    unfolding Let_def damage_def [symmetric] left_def [symmetric]
    by (rule exI, intro conjI, rule run) (use frames in \<open>auto simp: removed_fields sv2 comps is_valid_destroy [OF assms(9)]\<close>)
qed

section \<open>The end of a connection\<close>

lemma close_result_saved:
  assumes "sv_service_up sv" "sv_use_ecs sv" "sv_dao sv" "ch \<in> set (sv_db_strands sv)"
    and "map_of (sv_channel_to_db_id sv) ch = Some i" "i > 0" "entity_of ch sv = e" "e \<noteq> 0"
  shows "\<exists>sv'. sv_on_close ch sv = Done sv' \<and> sv_channels sv' = AList.delete ch (sv_channels sv)
    \<and> sv_channel_to_entity sv' = AList.delete ch (sv_channel_to_entity sv)
    \<and> sv_channel_to_db_id sv' = AList.delete ch (sv_channel_to_db_id sv)
    \<and> sv_db_jobs sv' = sv_db_jobs sv @ [(ch, close_save_job (sv_world sv) e i)]
    \<and> sv_world sv' = w_destroy_entity e (sv_world sv) \<and> sv_channel_to_guild sv' = sv_channel_to_guild sv"
proof -
  define sv1 where "sv1 = sv\<lparr>sv_channels := AList.delete ch (sv_channels sv),
    sv_channel_to_entity := AList.delete ch (sv_channel_to_entity sv),
    sv_channel_to_db_id := AList.delete ch (sv_channel_to_db_id sv), sv_db_strands := remove1 ch (sv_db_strands sv)\<rparr>"
  define sv2 where "sv2 = post_db ch (close_save_job (sv_world sv) e i) sv1"
  define sv3 where "sv3 = (if sv_redis sv2 then sv_emit (CacheDel i) sv2 else sv2)"
  define sv4 where "sv4 = (if sv_threads sv3 then sv3\<lparr>sv_player_map := AList.delete ch (sv_player_map sv3)\<rparr> else sv3)"
  have f1: "sv_world sv1 = sv_world sv" "sv_service_up sv1 = sv_service_up sv" "sv_dao sv1 = sv_dao sv"
    by (simp_all add: sv1_def sv_world_def)
  have f4: "sv_world sv4 = sv_world sv1" "sv_service_up sv4 = sv_service_up sv1" "sv_use_ecs sv4 = sv_use_ecs sv"
    by (simp_all add: sv4_def sv3_def sv2_def post_db_def sv_emit_def sv_world_def sv1_def)
  have "sv_on_close ch sv = Done (set_world (w_destroy_entity e (sv_world sv)) sv4)"
    unfolding sv_on_close_def Let_def assms(5,7) option.case sv1_def [symmetric]
    using assms(1-4,6,8) f1 f4 by (simp add: service_world_def sv2_def [symmetric] sv3_def [symmetric] sv4_def [symmetric] cong: if_cong split del: if_split)
  moreover have "sv_channels sv4 = sv_channels sv1" "sv_channel_to_entity sv4 = sv_channel_to_entity sv1"
    "sv_channel_to_db_id sv4 = sv_channel_to_db_id sv1" "sv_channel_to_guild sv4 = sv_channel_to_guild sv1"
    "sv_db_jobs sv4 = sv_db_jobs sv1 @ [(ch, close_save_job (sv_world sv) e i)]"
    by (simp_all add: sv4_def sv3_def sv2_def post_db_def sv_emit_def)
  ultimately show ?thesis
    by (intro exI [of _ "set_world (w_destroy_entity e (sv_world sv)) sv4"]) (simp add: set_world_def sv_world_def sv1_def)
qed

lemma emit_all: "fold (\<lambda>out. sv_emit (SinkEvent out)) outs sv = sv\<lparr>sv_out := sv_out sv @ map SinkEvent outs\<rparr>"
  by (induction outs arbitrary: sv) (simp_all add: sv_emit_def)

lemma save_job_result:
  "sv_out (run_db_job db ch (SaveJob i name x y z mid lv ex h) sv) = sv_out sv @
    (if saved_by (da_save db (position_query i x y z mid)) \<and> saved_by (da_save db (stats_query i lv ex h)) then []
     else map SinkEvent (sink_record (da_file_open db) (da_write_fails db) (da_timestamp db)
       (close_snapshot (saved_by (da_save db (position_query i x y z mid))) i name x y z mid lv ex h)))"
  using save_loop_correct by (simp add: Let_def save_position_def save_stats_def emit_all)


section \<open>A player from login to disconnect\<close>

text \<open>A server with the game service, with or without a database, and one connection.\<close>

definition ecs_start :: "bool \<Rightarrow> game_server" where
  "ecs_start db = init_state db False (new_game_server True [] 1800 1)"

definition ecs_server :: "bool \<Rightarrow> game_server" where
  "ecs_server db = (ecs_start db)\<lparr>sv_next_channel_id := 2, sv_accepted := [1], sv_channels := [(1, demo_channel1)],
     sv_db_strands := [1], sv_player_map := [(1, 1)],
     sv_out := map (ChannelEvent 1) [AsyncRead, ArmIdleTimer, ArmPingTimer, ArmStatsTimer]\<rparr>"

lemma ecs_start_fields:
  "sv_next_channel_id (ecs_start db) = 1" "sv_accepted (ecs_start db) = []" "sv_channels (ecs_start db) = []"
  "sv_db_strands (ecs_start db) = []" "sv_player_map (ecs_start db) = []" "sv_out (ecs_start db) = []"
  "sv_db_pool (ecs_start db)" "sv_threads (ecs_start db)" "sv_use_ecs (ecs_start db)" "sv_dao (ecs_start db) = db"
  "sv_redis (ecs_start db) = False" "sv_service_up (ecs_start db)" "sv_channel_to_entity (ecs_start db) = []"
  "sv_channel_to_db_id (ecs_start db) = []" "sv_db_jobs (ecs_start db) = []" "sv_io_jobs (ecs_start db) = []"
  by (simp_all add: ecs_start_def init_state_def new_game_server_def initialize_threading_system_def
      service_initialize_def gs_initialize_def GameService_def set_world_def Let_def)

lemma initialize_all_id: "initialize_all sm g = g"
proof -
  have "fold (\<lambda>(k, s) g. g) xs g = g" for xs :: "(system_kind \<times> system) list" by (induction xs) auto
  then show ?thesis by (simp add: initialize_all_def)
qed

lemma ecs_start_world:
  "w_entities (sv_world (ecs_start db)) = EntityManager"
  "get_system CombatSystem (mn_systems (sv_main (ecs_start db))) \<noteq> None"
  by (simp_all add: ecs_start_def init_state_def new_game_server_def initialize_threading_system_def sv_world_def
      service_initialize_def gs_initialize_def GameService_def set_world_def Let_def mn_start_def initialize_all_id
      new_world_def get_system_def register_system_def rebuild_update_order_def SystemManager_def)

lemma ecs_server_fields:
  "map_of (sv_channels (ecs_server db)) = [1 \<mapsto> demo_channel1]" "sv_db_strands (ecs_server db) = [1]"
  "sv_use_ecs (ecs_server db)" "sv_dao (ecs_server db) = db"
  "sv_redis (ecs_server db) = False" "sv_service_up (ecs_server db)" "sv_channel_to_entity (ecs_server db) = []"
  "sv_channel_to_db_id (ecs_server db) = []" "sv_db_jobs (ecs_server db) = []" "sv_io_jobs (ecs_server db) = []"
  "w_entities (sv_world (ecs_server db)) = EntityManager" "sv_main (ecs_server db) = sv_main (ecs_start db)"
  using ecs_start_world(1) [of db] by (simp_all add: ecs_server_def ecs_start_fields sv_world_def fun_eq_iff)

lemma ecs_accept: "accept_channel tok 5 (ecs_start db) = Done (ecs_server db)"
  by (simp add: accept_channel_def ecs_server_def ecs_start_fields demo_channel1_def Channel.start_def new_channel_def
      Let_def sv_on_accept_def sv_emit_def uset_insert_def to_int_def to_u32_def sv_update_player_map_def)

lemma ecs_reach: "server_reach tok rnd 0 (ecs_server db)"
proof -
  have "server_reach tok rnd 0 (ecs_start db)" unfolding ecs_start_def by (rule server_reach_init)
  from server_reach.step [OF this, where i = "Accepted 5" and sv' = "ecs_server db"] show ?thesis
    by (simp add: ecs_accept)
qed

definition demo_login :: login_req where
  "demo_login = \<lparr>login_req_player_name = str ''ann'', login_req_session_token = []\<rparr>"

definition demo_record :: player_record where
  "demo_record = \<lparr>pr_id = 7, pr_name = str ''ann'', pr_level = 1, pr_exp = 0, pr_hp = 80, pr_max_hp = 100,
     pr_pos_x = 0x3F800000, pr_pos_y = 0, pr_pos_z = 0, pr_map_id = 1\<rparr>"

lemma demo_login_wf: "login_req_wf demo_login" "\<not> token_refused tok demo_login (sv\<lparr>sv_channels := cs\<rparr>)"
  by (simp_all add: demo_login_def login_req_wf_def lp_ok_def token_refused_def)

lemma demo_live: "chan_live 1 demo_channel1"
  using started_live [of 1 5] by (simp add: demo_channel1_def)

lemma demo_idle: "drop (frame_acc_offset demo_channel1) (frame_acc demo_channel1) = []"
  by (simp add: demo_channel1_def Channel.start_def new_channel_def Let_def)

theorem login_correct_witness:
  "\<exists>sv' e. handle_login (\<lambda>_. None) 1 (login_req_serialize demo_login) (ecs_server False) = Done sv'
    \<and> player_spawned 1 e (Position 0 0 0) (Player (str ''ann'') e 1 1) (Health 100 50) (ecs_server False) sv'"
proof -
  have "\<not> token_refused (\<lambda>_. None) demo_login (ecs_server False)" by (simp add: token_refused_def ecs_server_fields)
  then show ?thesis
    using login_correct [OF ecs_reach [of "\<lambda>_. None" "\<lambda>_. 0" False], of 1 demo_channel1 demo_login] demo_login_wf(1)
    by (auto simp: ecs_server_fields demo_pending demo_login_def)
qed

theorem database_login_correct_witness:
  "\<exists>sv' e. login_continue 1 (str ''ann'') (Some demo_record) (ecs_server True) = Done sv'
    \<and> map_of (sv_channel_to_db_id sv') 1 = Some 7 \<and> map_of (sv_channel_to_entity sv') 1 = Some e
    \<and> w_get_component position_slot (sv_world sv') e = Some (Position 0x3F800000 0 0)"
  using database_login_correct [OF ecs_reach [of "\<lambda>_. None" "\<lambda>_. 0" True], of 1 "str ''ann''" "Some demo_record"]
  by (fastforce simp: ecs_server_fields demo_pending demo_record_def player_spawned_def)

text \<open>The states after a login without and with a database.\<close>

lemma on_frame_login: "on_frame tok ch 1001 data sv = handle_login tok ch data sv"
  by (simp add: on_frame_def sv_dispatcher_def bind_player_handlers_def bind_guild_handlers_def
      dispatch_bind as_handler_def Let_def)

lemma login_frame:
  "\<exists>c. chan_live 1 c \<and> pending_bytes c = [] \<and> (\<forall>sv'. handle_login tok 1 (login_req_serialize demo_login)
      ((ecs_server db)\<lparr>sv_channels := AList.update 1 c (sv_channels (ecs_server db))\<rparr>) = Done sv' \<longrightarrow>
    server_reach tok rnd 2 (sv_emit (ChannelEvent 1 AsyncRead) sv'))"
proof -
  let ?f = "\<lparr>pk_cmd = 1001, pk_flags = 0, pk_ver = 1, pk_seq = 0, pk_payload = login_req_serialize demo_login\<rparr>"
  have ok: "packet_ok ?f"
    by (simp add: packet_ok_def demo_login_def login_req_serialize_def len_simps k_max_frame_bytes_def
        k_header_after_len_def)
  have "map_of (sv_channels (ecs_server db)) 1 = Some demo_channel1" by (simp add: ecs_server_fields)
  from frame_step [OF ecs_reach this demo_idle ok, of tok rnd] show ?thesis
    by (simp add: on_frame_login demo_pending numeral_2_eq_2)
qed

lemma first_entity:
  "snd (create_entity EntityManager) = 1" "em_inv 1 (fst (create_entity EntityManager))"
  using em_inv_create [OF em_inv_init] by (simp_all add: create_entity_def EntityManager_def Let_def)

lemma spawned_first:
  assumes "player_spawned ch e p pl h sv sv'" "w_entities (sv_world sv) = EntityManager"
  shows "e = 1" "em_inv 1 (w_entities (sv_world sv'))" "entity_of ch sv' = 1"
    "w_get_component position_slot (sv_world sv') 1 = Some p" "w_get_component player_slot (sv_world sv') 1 = Some pl"
    "w_get_component health_slot (sv_world sv') 1 = Some h"
  using assms first_entity by (simp_all add: player_spawned_def entity_of_def)

lemma emit_fields:
  "sv_world (sv_emit ev sv) = sv_world sv" "sv_channels (sv_emit ev sv) = sv_channels sv"
  "entity_of ch (sv_emit ev sv) = entity_of ch sv" "sv_main (sv_emit ev sv) = sv_main sv"
  by (simp_all add: sv_emit_def sv_world_def entity_of_def)

lemma logged_in:
  "\<exists>sv c. server_reach (\<lambda>_. None) (\<lambda>_. 0) 2 sv \<and> map_of (sv_channels sv) = [1 \<mapsto> c] \<and> length (pending_bytes c) \<le> 40
    \<and> entity_of 1 sv = 1 \<and> w_get_component health_slot (sv_world sv) 1 = Some (Health 100 50)
    \<and> em_inv 1 (w_entities (sv_world sv)) \<and> get_system CombatSystem (mn_systems (sv_main sv)) \<noteq> None"
proof -
  obtain c where c: "chan_live 1 c" "pending_bytes c = []"
    and reach: "\<And>sv'. handle_login (\<lambda>_. None) 1 (login_req_serialize demo_login)
        ((ecs_server False)\<lparr>sv_channels := AList.update 1 c (sv_channels (ecs_server False))\<rparr>) = Done sv' \<Longrightarrow>
      server_reach (\<lambda>_. None) (\<lambda>_. 0) 2 (sv_emit (ChannelEvent 1 AsyncRead) sv')"
    using login_frame [of "\<lambda>_. None" False "\<lambda>_. 0"] by blast
  define sv where "sv = (ecs_server False)\<lparr>sv_channels := AList.update 1 c (sv_channels (ecs_server False))\<rparr>"
  have chans: "map_of (sv_channels sv) = [1 \<mapsto> c]" by (simp add: sv_def update_conv' ecs_server_fields)
  have sv: "\<not> token_refused (\<lambda>_. None) demo_login sv" "\<not> sv_dao sv" "sv_use_ecs sv" "sv_service_up sv"
    "w_entities (sv_world sv) = EntityManager" "sv_main sv = sv_main (ecs_start False)"
    using ecs_server_fields(11) [of False]
    by (simp_all add: sv_def token_refused_def ecs_server_fields sv_world_def)
  obtain sv' e where sv': "handle_login (\<lambda>_. None) 1 (login_req_serialize demo_login) sv = Done sv'"
    "player_spawned 1 e (Position 0 0 0) (Player (login_req_player_name demo_login) e 1 1) (Health 100 50) sv sv'"
    "replied 1 1001 (login_answer True (str ''ok'') e 1) sv sv'" "sv_main sv' = sv_main (set_world (sv_world sv') sv)"
    using login_spawned [OF c(1) _ _ demo_login_wf(1) sv(1-4)] c(2) by (auto simp: chans)
  obtain c' where c': "map_of (sv_channels sv') = [1 \<mapsto> c']" "pending_bytes c' = pack 1001 0 1 0 (login_answer True (str ''ok'') e 1)"
    using sv'(3) c(2) by (auto simp: replied_def chans)
  have "length (pending_bytes c') \<le> 40"
    unfolding c'(2) by (simp add: login_res_serialize_def len_simps write_bool_def)
  moreover have "get_system CombatSystem (mn_systems (sv_main sv')) \<noteq> None"
    using sv'(4) sv(6) ecs_start_world(2) by (simp add: set_world_def)
  moreover note spawned_first [OF sv'(2) sv(5)] reach [folded sv_def, OF sv'(1)] c'(1)
  ultimately show ?thesis
    by (intro exI [of _ "sv_emit (ChannelEvent 1 AsyncRead) sv'"] exI [of _ c']) (simp add: emit_fields)
qed

definition demo_attack :: attack_req where
  "demo_attack = \<lparr>attack_req_target_id = 1, attack_req_skill_id = 2, attack_req_x = 0, attack_req_y = 0,
     attack_req_z = 0, attack_req_timestamp = 5\<rparr>"

theorem attack_correct_witness:
  "\<exists>sv sv'. server_reach (\<lambda>_. None) (\<lambda>_. 0) 2 sv
    \<and> handle_attack 1 (attack_req_serialize demo_attack) sv = Done sv'
    \<and> w_get_component health_slot (sv_world sv') 1 = Some ((Health 100 50)\<lparr>hp := 80\<rparr>)"
proof -
  obtain sv c where sv: "server_reach (\<lambda>_. None) (\<lambda>_. 0) 2 sv" "map_of (sv_channels sv) = [1 \<mapsto> c]"
    "length (pending_bytes c) \<le> 40" "entity_of 1 sv = 1"
    "w_get_component health_slot (sv_world sv) 1 = Some (Health 100 50)" "em_inv 1 (w_entities (sv_world sv))"
    "get_system CombatSystem (mn_systems (sv_main sv)) \<noteq> None"
    using logged_in by blast
  have "map_of (sv_channels sv) 1 \<noteq> None" "entity_of 1 sv \<noteq> 0" "(1 :: entity) \<noteq> 0"
    "entity_of (to_int (attack_req_target_id demo_attack)) sv = 1"
    "\<forall>i c. map_of (sv_channels sv) i = Some c \<longrightarrow> length (pending_bytes c) + 64 \<le> 256 * 1024"
    using sv(2-4) by (simp_all add: demo_attack_def to_int_def)
  note hit = attack_correct [OF sv(1) this(1,5,2,4,3) sv(7,5,6)]
  have dmg: "10 + attack_req_skill_id demo_attack * 5 = 20" "hp (Health 100 50) = 100"
    by (simp_all add: demo_attack_def Health_def)
  have left: "(if (20 :: u32) < 100 then 100 - 20 else 0) = (80 :: u32)" by simp
  show ?thesis
    using hit unfolding Let_def dmg left
    by (elim exE conjE) (intro exI conjI, rule sv(1), assumption, simp)
qed

text \<open>The same over the database: the request, the job on the strand and the closure that it posts back.\<close>

definition demo_answers :: db_answers where
  "demo_answers = \<lparr>da_create = (\<lambda>_. \<lparr>ca_connected = True, ca_insert = InsertOk,
       ca_select = \<lparr>fc_init = True, fc_prepare = 0, fc_bind_param = False, fc_execute = 0, fc_bind_result = False,
         fc_fetch = 0, fc_row = demo_record\<rparr>\<rparr>), da_save = (\<lambda>_ _. QueryOk), da_file_open = True,
     da_write_fails = False, da_timestamp = []\<rparr>"

lemma demo_found: "find_or_create (da_create demo_answers) = (Some demo_record, [])"
  by (simp add: find_or_create_def find_or_create_loop.simps demo_answers_def fetch_by_conn_def kMaxAttempts_def
      MYSQL_NO_DATA_def)

lemma stored_login_reach:
  "\<exists>sv c. server_reach tok rnd 2 sv \<and> map_of (sv_channels sv) = [1 \<mapsto> c] \<and> chan_live 1 c \<and> pending_bytes c = []
    \<and> sv_io_jobs sv = [(1, str ''ann'', Some demo_record)] \<and> sv_use_ecs sv \<and> sv_dao sv \<and> sv_db_strands sv = [1]
    \<and> sv_service_up sv \<and> w_entities (sv_world sv) = EntityManager"
proof -
  obtain c where c: "chan_live 1 c" "pending_bytes c = []"
    and reach: "\<And>sv'. handle_login tok 1 (login_req_serialize demo_login)
        ((ecs_server True)\<lparr>sv_channels := AList.update 1 c (sv_channels (ecs_server True))\<rparr>) = Done sv' \<Longrightarrow>
      server_reach tok rnd 2 (sv_emit (ChannelEvent 1 AsyncRead) sv')"
    using login_frame [of tok True rnd] by blast
  define sv where "sv = (ecs_server True)\<lparr>sv_channels := AList.update 1 c (sv_channels (ecs_server True))\<rparr>"
  have sv: "\<not> token_refused tok demo_login sv" "sv_dao sv" "1 \<in> set (sv_db_strands sv)" "sv_redis sv = False"
    by (simp_all add: sv_def token_refused_def ecs_server_fields)
  define sv1 where "sv1 = sv_emit (ChannelEvent 1 AsyncRead) (post_db 1 (LoginJob (str ''ann'')) sv)"
  have "server_reach tok rnd 2 sv1"
    using reach [folded sv_def, OF login_posted [OF demo_login_wf(1) sv(1,2)]] sv(3)
    by (simp add: sv1_def demo_login_def)
  moreover have jobs: "sv_db_jobs sv1 = [(1, LoginJob (str ''ann''))]" "sv_io_jobs sv1 = []" "sv_redis sv1 = False"
    using sv(4) by (simp_all add: sv1_def post_db_def sv_emit_def sv_def ecs_server_fields)
  ultimately have "server_reach tok rnd 2 (run_job_at 0 demo_answers sv1)"
    using server_reach.step [of tok rnd 2 sv1 "DbJob 0 demo_answers"] by simp
  moreover have "run_job_at 0 demo_answers sv1
      = sv1\<lparr>sv_db_jobs := [], sv_io_jobs := [(1, str ''ann'', Some demo_record)]\<rparr>"
    by (simp add: run_job_at_def jobs run_login_job_def demo_found)
  ultimately show ?thesis
    using c ecs_server_fields(11) [of True]
    by (intro exI [of _ "sv1\<lparr>sv_db_jobs := [], sv_io_jobs := [(1, str ''ann'', Some demo_record)]\<rparr>"] exI [of _ c])
      (simp add: sv1_def sv_def post_db_def sv_emit_def ecs_server_fields sv_world_def update_conv')
qed

lemma stored_player_reach:
  "\<exists>sv pl. server_reach tok rnd 2 sv \<and> sv_use_ecs sv \<and> sv_dao sv \<and> 1 \<in> set (sv_db_strands sv)
    \<and> map_of (sv_channel_to_db_id sv) 1 = Some 7 \<and> entity_of 1 sv = 1 \<and> em_inv 1 (w_entities (sv_world sv))
    \<and> w_get_component position_slot (sv_world sv) 1 = Some (Position 0x3F800000 0 0)
    \<and> w_get_component player_slot (sv_world sv) 1 = Some pl
    \<and> w_get_component health_slot (sv_world sv) 1 = Some (stored_health demo_record)"
proof -
  obtain sv c where sv: "server_reach tok rnd 2 sv" "map_of (sv_channels sv) = [1 \<mapsto> c]" "chan_live 1 c"
    "pending_bytes c = []" "sv_io_jobs sv = [(1, str ''ann'', Some demo_record)]" "sv_use_ecs sv" "sv_dao sv"
    "sv_db_strands sv = [1]" "sv_service_up sv" "w_entities (sv_world sv) = EntityManager"
    using stored_login_reach [of tok rnd] by blast
  define sv0 where "sv0 = sv\<lparr>sv_io_jobs := []\<rparr>"
  have sv0: "map_of (sv_channels sv0) 1 = Some c" "sv_use_ecs sv0" "sv_service_up sv0" "sv_dao sv0"
    "sv_db_strands sv0 = [1]" "w_entities (sv_world sv0) = EntityManager"
    using sv by (simp_all add: sv0_def sv_world_def)
  have room: "length (pending_bytes c) + 64 \<le> 256 * 1024" using sv(4) by simp
  obtain sv' e where sv': "login_continue 1 (str ''ann'') (Some demo_record) sv0 = Done sv'"
    and spawned: "player_spawned 1 e (Position (pr_pos_x demo_record) (pr_pos_y demo_record) (pr_pos_z demo_record))
      (Player (str ''ann'') (stored_id demo_record e) 1 (to_u32 (pr_map_id demo_record))) (stored_health demo_record) sv0 sv'"
    and ids: "map_of (sv_channel_to_db_id sv') 1 = Some 7"
    and same: "sv_use_ecs sv'" "sv_dao sv'" "sv_db_strands sv' = [1]"
    using continue_found [OF sv(3) sv0(1) room sv0(2,3), of "str ''ann''" demo_record] sv0(2,4,5)
    by (auto simp: demo_record_def)
  have "srv_step tok rnd IoJob sv = Done sv'" using sv' by (simp add: sv(5) sv0_def)
  then have "server_reach tok rnd 2 sv'" using server_reach.step [OF sv(1), of IoJob sv'] by simp
  moreover have "Position (pr_pos_x demo_record) (pr_pos_y demo_record) (pr_pos_z demo_record) = Position 0x3F800000 0 0"
    by (simp add: demo_record_def)
  moreover note spawned_first [OF spawned sv0(6)] ids same
  ultimately show ?thesis by (intro exI [of _ sv']) simp
qed


end
