(* ===== verification/Db_Manager.thy ===== *)
theory Db_Manager
  imports Player_Dao Server_Config
begin

text \<open>
  The connection pools by role: \<open>DbManager\<close> of \<open>server/db/db_manager.hpp\<close> and
  \<open>server/db/db_manager.cpp\<close>, with \<open>DbConnectionPool\<close> built from a \<open>DbConfig\<close>.  Whether connection
  \<open>i\<close> of the pool of a role can be established is the parameter \<open>connect\<close> of \<open>dm_init\<close>, the answer of
  the MySQL client library.
\<close>

section \<open>Roles\<close>

datatype db_role = RoleGame | RoleGuild | RoleCommon

definition roles :: "db_role list" where
  "roles = [RoleGame, RoleGuild, RoleCommon]"

fun role_key :: "db_role \<Rightarrow> bytes" where
  "role_key RoleGame = str ''game''"
| "role_key RoleGuild = str ''guild''"
| "role_key RoleCommon = str ''common''"

fun role_index :: "db_role \<Rightarrow> nat" where
  "role_index RoleGame = 0"
| "role_index RoleGuild = 1"
| "role_index RoleCommon = 2"

section \<open>The manager\<close>

text \<open>\<open>pools_\<close>: an array of three owning pointers.\<close>

type_synonym db_manager = "db_pool option list"

definition DbManager :: db_manager where
  "DbManager = replicate 3 None"

definition dm_pool :: "db_role \<Rightarrow> db_manager \<Rightarrow> db_pool option" where
  "dm_pool role dm = (if role_index role < length dm then dm ! role_index role else None)"

text \<open>
  One round of the loop of \<open>init\<close>.  A negative \<open>pool_size\<close> becomes a size beyond \<open>max_size()\<close> when
  \<open>connections_\<close> is resized, which throws: \<open>None\<close>.
\<close>

definition dm_open_role ::
  "(bytes \<times> db_config) list \<Rightarrow> (db_role \<Rightarrow> nat \<Rightarrow> bool) \<Rightarrow> db_role \<Rightarrow> db_manager \<times> int \<Rightarrow> (db_manager \<times> int) option" where
  "dm_open_role configs connect role st =
    (case st of (dm, opened) \<Rightarrow>
     case map_of configs (role_key role) of
       None \<Rightarrow> Some st
     | Some cfg \<Rightarrow>
         if \<not> dc_enabled cfg then Some st
         else if dc_pool_size cfg < 0 then None
         else (case db_open (connect role) (DbConnectionPool (nat (dc_pool_size cfg))) of
            (p, ok) \<Rightarrow> if ok then Some (dm[role_index role := Some p], opened + 1) else Some st))"

fun dm_open_roles ::
  "(bytes \<times> db_config) list \<Rightarrow> (db_role \<Rightarrow> nat \<Rightarrow> bool) \<Rightarrow> db_role list \<Rightarrow> db_manager \<times> int \<Rightarrow> (db_manager \<times> int) option" where
  "dm_open_roles configs connect [] st = Some st"
| "dm_open_roles configs connect (r # rs) st =
     (case dm_open_role configs connect r st of
        None \<Rightarrow> None
      | Some st \<Rightarrow> dm_open_roles configs connect rs st)"

definition dm_init ::
  "(bytes \<times> db_config) list \<Rightarrow> (db_role \<Rightarrow> nat \<Rightarrow> bool) \<Rightarrow> db_manager \<Rightarrow> (db_manager \<times> bool) option" where
  "dm_init configs connect dm =
    (case dm_open_roles configs connect roles (dm, 0) of
       None \<Rightarrow> None
     | Some (dm, opened) \<Rightarrow> Some (dm, opened > 0))"

definition dm_close :: "db_manager \<Rightarrow> db_manager" where
  "dm_close dm = map (\<lambda>_. None) dm"

section \<open>What the configuration asks for\<close>

text \<open>A role is usable when it is configured, enabled and every one of its connections can be opened.\<close>

definition role_usable ::
  "(bytes \<times> db_config) list \<Rightarrow> (db_role \<Rightarrow> nat \<Rightarrow> bool) \<Rightarrow> db_role \<Rightarrow> bool" where
  "role_usable configs connect role \<longleftrightarrow>
    (case map_of configs (role_key role) of
       None \<Rightarrow> False
     | Some cfg \<Rightarrow> dc_enabled cfg \<and> (\<forall>i < nat (dc_pool_size cfg). connect role i))"

text \<open>The sizes that \<open>init\<close> relies on.\<close>

definition sizes_ok :: "(bytes \<times> db_config) list \<Rightarrow> bool" where
  "sizes_ok configs \<longleftrightarrow>
    (\<forall>role \<in> set roles. case map_of configs (role_key role) of
       None \<Rightarrow> True
     | Some cfg \<Rightarrow> dc_enabled cfg \<longrightarrow> 0 \<le> dc_pool_size cfg)"

text \<open>A freshly opened pool of \<open>n\<close> connections.\<close>

definition opened_pool :: "nat \<Rightarrow> db_pool" where
  "opened_pool n = \<lparr>dp_size = n, dp_connections = n, dp_free_indices = [0..<n], dp_open = True\<rparr>"

definition role_pool ::
  "(bytes \<times> db_config) list \<Rightarrow> (db_role \<Rightarrow> nat \<Rightarrow> bool) \<Rightarrow> db_role \<Rightarrow> db_pool option" where
  "role_pool configs connect role =
    (if role_usable configs connect role
     then Some (opened_pool (nat (dc_pool_size (the (map_of configs (role_key role))))))
     else None)"

lemma db_open_loop_result:
  "db_open_loop connect is p =
    (if \<forall>i \<in> set is. connect i
     then (p\<lparr>dp_free_indices := dp_free_indices p @ is, dp_open := True\<rparr>, True)
     else (p\<lparr>dp_connections := 0, dp_free_indices := [], dp_open := False\<rparr>, False))"
  by (induction "is" arbitrary: p) (auto simp: db_close_def)

lemma db_open_result:
  "db_open connect (DbConnectionPool n) =
    (if \<forall>i < n. connect i then (opened_pool n, True) else (DbConnectionPool n, False))"
  by (simp add: db_open_def DbConnectionPool_def db_open_loop_result opened_pool_def)

lemma dm_open_role_result:
  "dm_open_role configs connect role (dm, k) =
    (case map_of configs (role_key role) of
       Some cfg \<Rightarrow>
         if dc_enabled cfg \<and> dc_pool_size cfg < 0 then None
         else if role_usable configs connect role
         then Some (dm[role_index role := role_pool configs connect role], k + 1)
         else Some (dm, k)
     | None \<Rightarrow> Some (dm, k))"
  by (auto simp: dm_open_role_def role_usable_def role_pool_def db_open_result split: option.split)

lemma dm_open_role_ok:
  "role \<in> set roles \<Longrightarrow> sizes_ok configs \<Longrightarrow>
   dm_open_role configs connect role (dm, k) =
    Some (if role_usable configs connect role
          then (dm[role_index role := role_pool configs connect role], k + 1) else (dm, k))"
  by (auto simp: dm_open_role_result sizes_ok_def role_usable_def split: option.split)

lemma role_in_roles [simp]: "role \<in> set roles"
  by (cases role) (simp_all add: roles_def)

lemma dm_init_ok:
  assumes "sizes_ok configs"
  shows "dm_init configs connect DbManager =
    Some (map (role_pool configs connect) roles, \<exists>role \<in> set roles. role_usable configs connect role)"
proof -
  note step = dm_open_role_ok [OF role_in_roles assms]
  show ?thesis
    by (simp add: dm_init_def roles_def step DbManager_def numeral_3_eq_3 numeral_2_eq_2)
       (auto simp: role_pool_def)
qed

lemma dm_open_roles_throws:
  "role \<in> set rs \<Longrightarrow> map_of configs (role_key role) = Some cfg \<Longrightarrow> dc_enabled cfg \<Longrightarrow> dc_pool_size cfg < 0
   \<Longrightarrow> dm_open_roles configs connect rs st = None"
proof (induction rs arbitrary: st)
  case (Cons r rs)
  obtain dm k where "st = (dm, k)" by fastforce
  with Cons show ?case by (cases "r = role") (auto simp: dm_open_role_result split: option.split)
qed simp

lemma dm_init_throws:
  assumes "\<not> sizes_ok configs"
  shows "dm_init configs connect dm = None"
proof -
  obtain role cfg where "map_of configs (role_key role) = Some cfg" "dc_enabled cfg" "dc_pool_size cfg < 0"
    using assms by (fastforce simp: sizes_ok_def split: option.splits)
  from dm_open_roles_throws [OF role_in_roles this] show ?thesis by (simp add: dm_init_def)
qed

lemma dm_pool_roles: "dm_pool role (map f roles) = f role"
  by (cases role) (simp_all add: dm_pool_def roles_def)

lemma length_opened: "length (dp_free_indices (opened_pool n)) = n"
  by (simp add: opened_pool_def)

lemma opened_pool_reach: "pool_reach n (opened_pool n) []"
  using pool_reach.opened [of "\<lambda>_. True" n] by (simp add: db_open_result)

text \<open>
  Initialising a fresh \<open>DbManager\<close> returns exactly when no enabled role has a negative pool size.
  Then each role has a pool if and only if the role is configured, enabled and all its connections could
  be opened; that pool has the configured number of connections, all of them free; the result says
  whether some role has a pool; and after \<open>close\<close> no role has one.
\<close>

lemma db_manager_correct:
  "(dm_init configs connect DbManager = None \<longleftrightarrow> \<not> sizes_ok configs)
   \<and> (sizes_ok configs \<longrightarrow>
      (\<exists>dm ok. dm_init configs connect DbManager = Some (dm, ok)
        \<and> ok = (\<exists>role. dm_pool role dm \<noteq> None)
        \<and> (\<forall>role. dm_pool role dm \<noteq> None \<longleftrightarrow> role_usable configs connect role)
        \<and> (\<forall>role p. dm_pool role dm = Some p \<longrightarrow>
             (\<exists>cfg. map_of configs (role_key role) = Some cfg
                \<and> pool_reach (nat (dc_pool_size cfg)) p []
                \<and> length (dp_free_indices p) = nat (dc_pool_size cfg)))
        \<and> (\<forall>role. dm_pool role (dm_close dm) = None)))"
proof (cases "sizes_ok configs")
  case True
  have pool: "dm_pool role (map (role_pool configs connect) roles) = role_pool configs connect role" for role
    by (rule dm_pool_roles)
  have closed: "dm_pool role (dm_close dm) = None" for role dm
    by (simp add: dm_pool_def dm_close_def)
  have some: "\<exists>cfg. map_of configs (role_key role) = Some cfg \<and> pool_reach (nat (dc_pool_size cfg)) p []
      \<and> length (dp_free_indices p) = nat (dc_pool_size cfg)"
    if "role_pool configs connect role = Some p" for role p
    using that
    by (auto simp: role_pool_def role_usable_def opened_pool_reach length_opened split: if_splits option.splits)
  have usable: "role_pool configs connect role \<noteq> None \<longleftrightarrow> role_usable configs connect role" for role
    by (simp add: role_pool_def)
  show ?thesis using True by (simp add: dm_init_ok pool closed usable some Bex_def del: not_None_eq)
qed (simp add: dm_init_throws)

lemma db_manager_correct_witness:
  "\<exists>dm. dm_init [(str ''game'', DbConfig\<lparr>dc_enabled := True\<rparr>), (str ''guild'', DbConfig)] (\<lambda>_ _. True) DbManager
      = Some (dm, True)
    \<and> dm_pool RoleGame dm \<noteq> None \<and> dm_pool RoleGuild dm = None \<and> dm_pool RoleCommon dm = None"
proof -
  let ?c = "[(str ''game'', DbConfig\<lparr>dc_enabled := True\<rparr>), (str ''guild'', DbConfig)]"
  let ?u = "\<lambda>_ _. True"
  have u: "role_usable ?c ?u RoleGame" "\<not> role_usable ?c ?u RoleGuild" "\<not> role_usable ?c ?u RoleCommon"
    by (simp_all add: role_usable_def DbConfig_def str_def)
  have "sizes_ok ?c" by (simp add: sizes_ok_def roles_def DbConfig_def str_def)
  with db_manager_correct [of ?c ?u] obtain dm ok where
    "dm_init ?c ?u DbManager = Some (dm, ok)" "ok = (\<exists>role. dm_pool role dm \<noteq> None)"
    "\<forall>role. dm_pool role dm \<noteq> None \<longleftrightarrow> role_usable ?c ?u role" by blast
  with u show ?thesis by (intro exI [of _ dm]) auto
qed

end
