(* ===== verification/Redis_Client.thy ===== *)
theory Redis_Client
  imports Player_Dao Server_Config
begin

text \<open>
  The session and player cache: \<open>RedisClient\<close> of \<open>server/db/redis_client.hpp\<close> and
  \<open>server/db/redis_client.cpp\<close>.  The vendored hiredis library and the Redis server behind it are not
  modelled: they are the parameter \<open>api\<close> of the operations, a function for
  \<open>redisConnectWithTimeout\<close> and one for \<open>redisCommand\<close> over an unknown state \<open>'s\<close> of the outside world.
  Every public operation holds \<open>mtx_\<close> for its whole body, so that operations are atomic.
\<close>

section \<open>The library\<close>

datatype redis_command =
    AUTH bytes
  | SELECT int
  | SET bytes bytes int
  | GET bytes
  | DEL bytes

datatype redis_reply =
    ReplyError
  | ReplyStatus
  | ReplyNil
  | ReplyInteger int
  | ReplyString bytes

text \<open>
  A connection attempt gives no context, or a context with its error flag.  A command gives no reply or
  a reply, and the error flag the context has afterwards.
\<close>

record 's redis_api =
  ra_connect :: "bytes \<Rightarrow> int \<Rightarrow> int \<times> int \<Rightarrow> 's \<Rightarrow> 's \<times> bool option"
  ra_command :: "redis_command \<Rightarrow> 's \<Rightarrow> 's \<times> redis_reply option \<times> bool"

section \<open>State\<close>

record redis_client_config =
  rcc_host :: bytes
  rcc_port :: int
  rcc_password :: bytes
  rcc_db_index :: int
  rcc_timeout_ms :: int

definition RedisClientConfig :: redis_client_config where
  "RedisClientConfig = \<lparr>rcc_host = str ''127.0.0.1'', rcc_port = 6379, rcc_password = [],
     rcc_db_index = 0, rcc_timeout_ms = 1000\<rparr>"

text \<open>
  \<open>rd_ctx\<close> is the context pointer with the error flag of what it points to.  Two fields record what a
  pointer cannot show: how many contexts are allocated, and whether a null context was passed on.
\<close>

record 's redis_client =
  rd_cfg :: redis_client_config
  rd_ctx :: "bool option"
  rd_world :: 's
  rd_allocated :: int
  rd_null_used :: bool

definition RedisClient :: "redis_client_config \<Rightarrow> 's \<Rightarrow> 's redis_client" where
  "RedisClient cfg s = \<lparr>rd_cfg = cfg, rd_ctx = None, rd_world = s, rd_allocated = 0, rd_null_used = False\<rparr>"

definition redisFree :: "'s redis_client \<Rightarrow> 's redis_client" where
  "redisFree rd = rd\<lparr>rd_ctx := None, rd_allocated := rd_allocated rd - 1\<rparr>"

definition redisCommand ::
  "'s redis_api \<Rightarrow> redis_command \<Rightarrow> 's redis_client \<Rightarrow> 's redis_client \<times> redis_reply option" where
  "redisCommand api cmd rd =
    (case rd_ctx rd of
       None \<Rightarrow> (rd\<lparr>rd_null_used := True\<rparr>, None)
     | Some _ \<Rightarrow>
         (case ra_command api cmd (rd_world rd) of
            (s, r, err) \<Rightarrow> (rd\<lparr>rd_world := s, rd_ctx := Some err\<rparr>, r)))"

definition reply_ok :: "redis_reply option \<Rightarrow> bool" where
  "reply_ok r \<longleftrightarrow> r \<noteq> None \<and> r \<noteq> Some ReplyError"

section \<open>The connection\<close>

text \<open>\<open>struct timeval\<close> of the time-out; C++ division truncates, and the time-out is not negative.\<close>

definition timeval :: "redis_client_config \<Rightarrow> int \<times> int" where
  "timeval cfg = (rcc_timeout_ms cfg div 1000, (rcc_timeout_ms cfg mod 1000) * 1000)"

definition redisConnectWithTimeout :: "'s redis_api \<Rightarrow> 's redis_client \<Rightarrow> 's redis_client" where
  "redisConnectWithTimeout api rd =
    (case ra_connect api (c_str (rcc_host (rd_cfg rd))) (rcc_port (rd_cfg rd)) (timeval (rd_cfg rd)) (rd_world rd) of
       (s, c) \<Rightarrow> rd\<lparr>rd_world := s, rd_ctx := c,
                   rd_allocated := rd_allocated rd + (if c = None then 0 else 1)\<rparr>)"

text \<open>A command of the handshake: when it fails the context is freed.\<close>

definition handshake ::
  "'s redis_api \<Rightarrow> bool \<Rightarrow> redis_command \<Rightarrow> 's redis_client \<Rightarrow> 's redis_client \<times> bool" where
  "handshake api needed cmd rd =
    (if \<not> needed then (rd, True)
     else case redisCommand api cmd rd of
       (rd, r) \<Rightarrow> if reply_ok r then (rd, True) else (redisFree rd, False))"

definition rd_connect :: "'s redis_api \<Rightarrow> 's redis_client \<Rightarrow> 's redis_client \<times> bool" where
  "rd_connect api rd =
    (let rd = redisConnectWithTimeout api rd
     in if rd_ctx rd = None then (rd, False)
        else if rd_ctx rd = Some True then (redisFree rd, False)
        else case handshake api (rcc_password (rd_cfg rd) \<noteq> []) (AUTH (c_str (rcc_password (rd_cfg rd)))) rd of
          (rd, ok) \<Rightarrow>
            if \<not> ok then (rd, False)
            else handshake api (rcc_db_index (rd_cfg rd) \<noteq> 0) (SELECT (rcc_db_index (rd_cfg rd))) rd)"

definition rd_disconnect :: "'s redis_client \<Rightarrow> 's redis_client" where
  "rd_disconnect rd = (if rd_ctx rd \<noteq> None then redisFree rd else rd)"

definition is_connected :: "'s redis_client \<Rightarrow> bool" where
  "is_connected rd \<longleftrightarrow> rd_ctx rd = Some False"

text \<open>After freeing a broken context, \<open>reconnect_if_needed\<close> repeats the body of \<open>connect\<close>.\<close>

definition reconnect_if_needed :: "'s redis_api \<Rightarrow> 's redis_client \<Rightarrow> 's redis_client \<times> bool" where
  "reconnect_if_needed api rd =
    (if rd_ctx rd = Some False then (rd, True)
     else rd_connect api (if rd_ctx rd \<noteq> None then redisFree rd else rd))"

section \<open>Commands\<close>

definition exec_set :: "'s redis_api \<Rightarrow> bytes \<Rightarrow> bytes \<Rightarrow> int \<Rightarrow> 's redis_client \<Rightarrow> 's redis_client \<times> bool" where
  "exec_set api key v ttl_sec rd =
    (case reconnect_if_needed api rd of
       (rd, ok) \<Rightarrow>
         if \<not> ok then (rd, False)
         else case redisCommand api (SET (c_str key) (c_str v) ttl_sec) rd of (rd, r) \<Rightarrow> (rd, reply_ok r))"

definition exec_get :: "'s redis_api \<Rightarrow> bytes \<Rightarrow> 's redis_client \<Rightarrow> 's redis_client \<times> bytes option" where
  "exec_get api key rd =
    (case reconnect_if_needed api rd of
       (rd, ok) \<Rightarrow>
         if \<not> ok then (rd, None)
         else case redisCommand api (GET (c_str key)) rd of
           (rd, r) \<Rightarrow> (rd, case r of Some (ReplyString v) \<Rightarrow> Some v | _ \<Rightarrow> None))"

definition exec_del :: "'s redis_api \<Rightarrow> bytes \<Rightarrow> 's redis_client \<Rightarrow> 's redis_client \<times> bool" where
  "exec_del api key rd =
    (case reconnect_if_needed api rd of
       (rd, ok) \<Rightarrow>
         if \<not> ok then (rd, False)
         else case redisCommand api (DEL (c_str key)) rd of (rd, r) \<Rightarrow> (rd, r \<noteq> None))"

text \<open>\<open>std::stoll\<close>: white space, a sign, the longest run of digits; \<open>None\<close> when it throws.\<close>

definition is_space :: "byte \<Rightarrow> bool" where
  "is_space c \<longleftrightarrow> c = 0x20 \<or> 9 \<le> c \<and> c \<le> 13"

definition is_digit :: "byte \<Rightarrow> bool" where
  "is_digit c \<longleftrightarrow> 0x30 \<le> c \<and> c \<le> 0x39"

definition digits_value :: "bytes \<Rightarrow> nat" where
  "digits_value ds = foldl (\<lambda>n d. n * 10 + unat (d - 0x30)) 0 ds"

definition stoll :: "bytes \<Rightarrow> int option" where
  "stoll s =
    (let s = dropWhile is_space s;
         neg = (s \<noteq> [] \<and> hd s = 0x2D);
         s = (if s \<noteq> [] \<and> (hd s = 0x2D \<or> hd s = 0x2B) then tl s else s);
         ds = takeWhile is_digit s;
         v = (if neg then - int (digits_value ds) else int (digits_value ds))
     in if ds = [] \<or> v < - (2 ^ 63) \<or> 2 ^ 63 \<le> v then None else Some v)"

definition token_key :: "bytes \<Rightarrow> bytes" where
  "token_key token = str ''token:'' @ token"

definition player_key :: "int \<Rightarrow> bytes" where
  "player_key pid = str ''player:'' @ fmt_d pid @ str '':data''"

definition set_token :: "'s redis_api \<Rightarrow> bytes \<Rightarrow> int \<Rightarrow> int \<Rightarrow> 's redis_client \<Rightarrow> 's redis_client \<times> bool" where
  "set_token api token pid ttl_sec rd = exec_set api (token_key token) (fmt_d pid) ttl_sec rd"

definition get_player_id_by_token :: "'s redis_api \<Rightarrow> bytes \<Rightarrow> 's redis_client \<Rightarrow> 's redis_client \<times> int option" where
  "get_player_id_by_token api token rd =
    (case exec_get api (token_key token) rd of (rd, v) \<Rightarrow> (rd, Option.bind v stoll))"

definition del_token :: "'s redis_api \<Rightarrow> bytes \<Rightarrow> 's redis_client \<Rightarrow> 's redis_client \<times> bool" where
  "del_token api token rd = exec_del api (token_key token) rd"

definition set_player_cache ::
  "'s redis_api \<Rightarrow> int \<Rightarrow> bytes \<Rightarrow> int \<Rightarrow> 's redis_client \<Rightarrow> 's redis_client \<times> bool" where
  "set_player_cache api pid json_data ttl_sec rd = exec_set api (player_key pid) json_data ttl_sec rd"

definition get_player_cache :: "'s redis_api \<Rightarrow> int \<Rightarrow> 's redis_client \<Rightarrow> 's redis_client \<times> bytes option" where
  "get_player_cache api pid rd = exec_get api (player_key pid) rd"

definition del_player_cache :: "'s redis_api \<Rightarrow> int \<Rightarrow> 's redis_client \<Rightarrow> 's redis_client \<times> bool" where
  "del_player_cache api pid rd = exec_del api (player_key pid) rd"

section \<open>The context is never null when it is used, and never lost\<close>

datatype redis_call =
    SetToken bytes int int
  | GetToken bytes
  | DelToken bytes
  | SetCache int bytes int
  | GetCache int
  | DelCache int

datatype redis_result = Flag bool | Id "int option" | Data "bytes option"

fun rd_call :: "'s redis_api \<Rightarrow> redis_call \<Rightarrow> 's redis_client \<Rightarrow> 's redis_client \<times> redis_result" where
  "rd_call api (SetToken t i ttl) rd = apsnd Flag (set_token api t i ttl rd)"
| "rd_call api (GetToken t) rd = apsnd Id (get_player_id_by_token api t rd)"
| "rd_call api (DelToken t) rd = apsnd Flag (del_token api t rd)"
| "rd_call api (SetCache i j ttl) rd = apsnd Flag (set_player_cache api i j ttl rd)"
| "rd_call api (GetCache i) rd = apsnd Data (get_player_cache api i rd)"
| "rd_call api (DelCache i) rd = apsnd Flag (del_player_cache api i rd)"

text \<open>What a client can go through: one \<open>connect\<close>, as in \<open>game_server::init\<close>, calls and
  disconnections, while the outside world also changes by itself.\<close>

inductive redis_reach :: "'s redis_api \<Rightarrow> redis_client_config \<Rightarrow> 's redis_client \<Rightarrow> bool"
  for api cfg where
  connected: "redis_reach api cfg (fst (rd_connect api (RedisClient cfg s)))"
| called: "redis_reach api cfg rd \<Longrightarrow> redis_reach api cfg (fst (rd_call api c rd))"
| disconnected: "redis_reach api cfg rd \<Longrightarrow> redis_reach api cfg (rd_disconnect rd)"
| elapsed: "redis_reach api cfg rd \<Longrightarrow> redis_reach api cfg (rd\<lparr>rd_world := s\<rparr>)"

definition rd_inv :: "'s redis_client \<Rightarrow> bool" where
  "rd_inv rd \<longleftrightarrow> \<not> rd_null_used rd \<and> rd_allocated rd = (if rd_ctx rd = None then 0 else 1)"

lemma rd_inv_free: "rd_inv rd \<Longrightarrow> rd_ctx rd \<noteq> None \<Longrightarrow> rd_inv (redisFree rd)"
  by (auto simp: rd_inv_def redisFree_def)

lemma rd_inv_command:
  "rd_inv rd \<Longrightarrow> rd_ctx rd \<noteq> None \<Longrightarrow> redisCommand api c rd = (rd', r) \<Longrightarrow> rd_inv rd' \<and> rd_ctx rd' \<noteq> None"
  by (auto simp: rd_inv_def redisCommand_def split: option.splits prod.splits)

lemma redisFree_ctx [simp]: "rd_ctx (redisFree rd) = None"
  by (simp add: redisFree_def)

lemma rd_inv_handshake:
  assumes "rd_inv rd" "rd_ctx rd \<noteq> None" "handshake api b c rd = (rd', ok)"
  shows "rd_inv rd' \<and> (ok \<longleftrightarrow> rd_ctx rd' \<noteq> None)"
proof (cases b)
  case True
  obtain rd1 r where r: "redisCommand api c rd = (rd1, r)" by fastforce
  note inv = rd_inv_command [OF assms(1,2) r]
  show ?thesis
  proof (cases "reply_ok r")
    case True
    with \<open>b\<close> assms(3) r have "rd' = rd1" "ok" by (simp_all add: handshake_def)
    with inv show ?thesis by simp
  next
    case False
    with \<open>b\<close> assms(3) r have "rd' = redisFree rd1" "\<not> ok" by (simp_all add: handshake_def)
    with inv rd_inv_free [of rd1] show ?thesis by simp
  qed
qed (use assms in \<open>auto simp: handshake_def\<close>)

lemma rd_inv_connect:
  assumes "rd_inv rd" "rd_ctx rd = None" "rd_connect api rd = (rd', ok)"
  shows "rd_inv rd' \<and> (ok \<longleftrightarrow> rd_ctx rd' \<noteq> None)"
proof -
  define rd1 where "rd1 = redisConnectWithTimeout api rd"
  have inv: "rd_inv rd1"
    using assms(1,2) by (auto simp: rd1_def redisConnectWithTimeout_def rd_inv_def split: prod.split)
  note result = assms(3) [unfolded rd_connect_def rd1_def [symmetric] Let_def]
  consider "rd_ctx rd1 = None" | "rd_ctx rd1 = Some True" | "rd_ctx rd1 = Some False"
    by (cases "rd_ctx rd1") auto
  then show ?thesis
  proof cases
    case 1
    with result have "rd' = rd1" "\<not> ok" by simp_all
    with inv 1 show ?thesis by simp
  next
    case 2
    with result have "rd' = redisFree rd1" "\<not> ok" by simp_all
    with rd_inv_free [OF inv] 2 show ?thesis by (simp add: redisFree_def)
  next
    case 3
    obtain rd2 ok2 where auth: "handshake api (rcc_password (rd_cfg rd1) \<noteq> [])
        (AUTH (c_str (rcc_password (rd_cfg rd1)))) rd1 = (rd2, ok2)" by fastforce
    from 3 have "rd_ctx rd1 \<noteq> None" by simp
    note inv2 = rd_inv_handshake [OF inv this auth]
    show ?thesis
    proof (cases ok2)
      case True
      with inv2 have ctx: "rd_inv rd2" "rd_ctx rd2 \<noteq> None" by simp_all
      from result 3 auth True have "handshake api (rcc_db_index (rd_cfg rd2) \<noteq> 0)
        (SELECT (rcc_db_index (rd_cfg rd2))) rd2 = (rd', ok)" by simp
      from rd_inv_handshake [OF ctx this] show ?thesis .
    next
      case False
      with result 3 auth have "rd' = rd2" "\<not> ok" by simp_all
      with inv2 False show ?thesis by simp
    qed
  qed
qed

lemma rd_inv_reconnect:
  assumes "rd_inv rd" "reconnect_if_needed api rd = (rd', ok)"
  shows "rd_inv rd' \<and> (ok \<longleftrightarrow> rd_ctx rd' \<noteq> None)"
proof (cases "rd_ctx rd = Some False")
  case False
  define rd1 where "rd1 = (if rd_ctx rd \<noteq> None then redisFree rd else rd)"
  have "rd_inv rd1" "rd_ctx rd1 = None"
    using assms(1) rd_inv_free [OF assms(1)] by (auto simp: rd1_def redisFree_def)
  moreover have "rd_connect api rd1 = (rd', ok)"
    using assms(2) False by (simp add: reconnect_if_needed_def rd1_def)
  ultimately show ?thesis by (rule rd_inv_connect)
qed (use assms in \<open>auto simp: reconnect_if_needed_def\<close>)

lemma rd_inv_exec:
  assumes "rd_inv rd"
  shows "rd_inv (fst (exec_set api k v t rd))" "rd_inv (fst (exec_get api k rd))" "rd_inv (fst (exec_del api k rd))"
proof -
  obtain rd' ok where r: "reconnect_if_needed api rd = (rd', ok)" by fastforce
  note inv = rd_inv_reconnect [OF assms r]
  have cmd: "rd_inv (fst (redisCommand api c rd'))" if ok for c
    using rd_inv_command [of rd' api c] inv that by (cases "redisCommand api c rd'") simp
  show "rd_inv (fst (exec_set api k v t rd))" "rd_inv (fst (exec_get api k rd))" "rd_inv (fst (exec_del api k rd))"
    using inv cmd by (simp_all add: exec_set_def exec_get_def exec_del_def r case_prod_beta)
qed

lemmas call_defs = set_token_def get_player_id_by_token_def del_token_def set_player_cache_def
  get_player_cache_def del_player_cache_def

lemma rd_inv_call: "rd_inv rd \<Longrightarrow> rd_inv (fst (rd_call api c rd))"
  using rd_inv_exec [of rd api] by (cases c) (simp_all add: call_defs case_prod_beta)

lemma redis_reach_inv: "redis_reach api cfg rd \<Longrightarrow> rd_inv rd"
proof (induction rule: redis_reach.induct)
  case (connected s)
  have "rd_inv (RedisClient cfg s)" by (simp add: rd_inv_def RedisClient_def)
  from rd_inv_connect [OF this, of api] show ?case
    by (cases "rd_connect api (RedisClient cfg s)") (simp add: RedisClient_def)
next
  case (disconnected rd)
  then show ?case using rd_inv_free by (auto simp: rd_disconnect_def)
next
  case (elapsed rd s)
  then show ?case by (simp add: rd_inv_def)
qed (rule rd_inv_call)

text \<open>
  C19: Whatever the Redis server and the network answer, a client that connects once and is then used and
  disconnected in any order never passes a null context to the library, owns exactly one context when its
  pointer is not null and none otherwise, and owns none after \<open>disconnect\<close>.
\<close>

theorem redis_client_safe:
  assumes "redis_reach api cfg rd"
  shows "\<not> rd_null_used rd \<and> rd_allocated rd = (if rd_ctx rd = None then 0 else 1)
    \<and> \<not> rd_null_used (fst (rd_call api c rd)) \<and> rd_allocated (rd_disconnect rd) = 0"
proof -
  note inv = redis_reach_inv [OF assms]
  note inv' = redis_reach_inv [OF redis_reach.called [OF assms, of c]]
  note inv'' = redis_reach_inv [OF redis_reach.disconnected [OF assms]]
  have "rd_ctx (rd_disconnect rd) = None" by (simp add: rd_disconnect_def)
  with inv inv' inv'' show ?thesis by (simp add: rd_inv_def)
qed

text \<open>\<open>connect\<close> on a connected client overwrites the pointer: the old context is never freed.\<close>

lemma second_connect_leaks:
  assumes "rd_ctx rd = Some False" "rd_allocated rd = 1" "rcc_password (rd_cfg rd) = []" "rcc_db_index (rd_cfg rd) = 0"
    and "\<And>h p t s. ra_connect api h p t s = (s, Some False)"
  shows "rd_allocated (rd_disconnect (fst (rd_connect api rd))) = 1"
  using assms by (simp add: rd_connect_def redisConnectWithTimeout_def handshake_def rd_disconnect_def redisFree_def)

section \<open>Keys\<close>

lemma unat_digit: "unat (digit n - 0x30) = n mod 10"
  by (simp add: digit_def unat_of_nat)

lemma is_digit_digit: "is_digit (digit n)"
proof -
  have "unat (digit n) = 48 + n mod 10" by (simp add: digit_def unat_word_ariths(1) unat_of_nat)
  then show ?thesis by (simp add: is_digit_def word_le_nat_alt)
qed

lemma dec_digits_are_digits: "\<forall>d \<in> set (dec_digits n). is_digit d"
proof (induction n rule: dec_digits.induct)
  case (1 n)
  then show ?case by (subst dec_digits.simps) (simp add: is_digit_digit)
qed

lemma dec_digits_nonempty [simp]: "dec_digits n \<noteq> []"
  by (subst dec_digits.simps) simp

lemma digits_value_dec_digits: "digits_value (dec_digits n) = n"
  by (induction n rule: dec_digits.induct)
     (subst dec_digits.simps, auto simp: digits_value_def unat_digit)

lemma digit_not_special: "is_digit d \<Longrightarrow> d \<noteq> 0 \<and> \<not> is_space d \<and> d \<noteq> 0x2D \<and> d \<noteq> 0x2B \<and> d \<noteq> 0x3A"
  by (auto simp: is_digit_def is_space_def word_le_nat_alt)

lemma takeWhile_digits: "takeWhile is_digit (dec_digits n) = dec_digits n"
  using dec_digits_are_digits by (simp add: takeWhile_eq_all_conv)

lemma hd_dec_digits: "is_digit (hd (dec_digits n))"
  by (rule bspec [OF dec_digits_are_digits hd_in_set]) simp

lemma dropWhile_space: "\<not> is_space (hd s) \<Longrightarrow> dropWhile is_space s = s"
  by (cases s) simp_all

lemma stoll_fmt_d:
  assumes "- (2 ^ 63) \<le> i" "i < 2 ^ 63"
  shows "stoll (fmt_d i) = Some i"
proof (cases "i < 0")
  case True
  then have "fmt_d i = 0x2D # dec_digits (nat (- i))" by (simp add: fmt_d_def str_def)
  then show ?thesis using True assms
    by (simp add: stoll_def is_space_def takeWhile_digits digits_value_dec_digits)
next
  case False
  then have "fmt_d i = dec_digits (nat i)" by (simp add: fmt_d_def)
  then show ?thesis using False assms digit_not_special [OF hd_dec_digits, of "nat i"]
    by (simp add: stoll_def dropWhile_space takeWhile_digits digits_value_dec_digits)
qed

lemma c_str_id: "0 \<notin> set s \<Longrightarrow> c_str s = s"
  unfolding c_str_def by (rule takeWhile_eq_all_conv [THEN iffD2]) auto

lemma fmt_d_no_zero: "0 \<notin> set (fmt_d i)"
proof -
  have "0 \<notin> set (dec_digits n)" for n using dec_digits_are_digits digit_not_special by blast
  then show ?thesis by (simp add: fmt_d_def str_def)
qed

lemma fmt_d_inject: "fmt_d i = fmt_d j \<longleftrightarrow> i = j"
proof -
  have minus: "hd (dec_digits n) \<noteq> 0x2D" for n using digit_not_special [OF hd_dec_digits] by blast
  have "\<bar>i\<bar> = \<bar>j\<bar>" if "dec_digits (nat \<bar>i\<bar>) = dec_digits (nat \<bar>j\<bar>)"
    using that digits_value_dec_digits by (metis abs_ge_zero nat_eq_iff)
  then show ?thesis
    using minus [of "nat \<bar>i\<bar>"] minus [of "nat \<bar>j\<bar>"]
    by (auto simp: fmt_d_def str_def split: if_splits) (metis list.sel(1))+
qed

lemma c_str_token: "0 \<notin> set t \<Longrightarrow> c_str (token_key t) = token_key t"
  by (rule c_str_id) (simp add: token_key_def str_def)

lemma c_str_player: "c_str (player_key i) = player_key i"
  by (rule c_str_id) (simp add: player_key_def str_def fmt_d_no_zero)

lemma key_inject [simp]:
  "token_key t = token_key t' \<longleftrightarrow> t = t'" "player_key i = player_key j \<longleftrightarrow> i = j"
  "token_key t \<noteq> player_key i" "player_key i \<noteq> token_key t"
  by (simp_all add: token_key_def player_key_def fmt_d_inject) (simp_all add: str_def)

section \<open>The client is a pair of maps\<close>

text \<open>
  The documented behaviour of the commands on a working connection, in terms of the contents of the
  selected database: \<open>SET\<close> with a positive time to live stores, \<open>GET\<close> reads, \<open>DEL\<close> removes.  Expiry only
  removes entries later; it is not part of an uninterrupted sequence of calls.
\<close>

definition redis_serves :: "'s redis_api \<Rightarrow> ('s \<Rightarrow> bytes \<Rightarrow> bytes option) \<Rightarrow> bool" where
  "redis_serves api contents \<longleftrightarrow>
    (\<forall>s k v ttl. 0 < ttl \<longrightarrow>
       (\<exists>s'. ra_command api (SET k v ttl) s = (s', Some ReplyStatus, False) \<and> contents s' = (contents s)(k \<mapsto> v)))
    \<and> (\<forall>s k. \<exists>s'. ra_command api (GET k) s =
         (s', Some (case contents s k of None \<Rightarrow> ReplyNil | Some v \<Rightarrow> ReplyString v), False) \<and> contents s' = contents s)
    \<and> (\<forall>s k. \<exists>s' n. ra_command api (DEL k) s = (s', Some (ReplyInteger n), False)
         \<and> contents s' = (contents s)(k := None))"

type_synonym cache_spec = "(bytes \<Rightarrow> int option) \<times> (int \<Rightarrow> bytes option)"

fun spec_call :: "redis_call \<Rightarrow> cache_spec \<Rightarrow> cache_spec \<times> redis_result" where
  "spec_call (SetToken t i ttl) (T, C) = ((T(t \<mapsto> i), C), Flag True)"
| "spec_call (GetToken t) (T, C) = ((T, C), Id (T t))"
| "spec_call (DelToken t) (T, C) = ((T(t := None), C), Flag True)"
| "spec_call (SetCache i j ttl) (T, C) = ((T, C(i \<mapsto> c_str j)), Flag True)"
| "spec_call (GetCache i) (T, C) = ((T, C), Data (C i))"
| "spec_call (DelCache i) (T, C) = ((T, C(i := None)), Flag True)"

fun call_ok :: "redis_call \<Rightarrow> bool" where
  "call_ok (SetToken t i ttl) \<longleftrightarrow> 0 \<notin> set t \<and> - (2 ^ 63) \<le> i \<and> i < 2 ^ 63 \<and> 0 < ttl"
| "call_ok (GetToken t) \<longleftrightarrow> 0 \<notin> set t"
| "call_ok (DelToken t) \<longleftrightarrow> 0 \<notin> set t"
| "call_ok (SetCache i j ttl) \<longleftrightarrow> 0 < ttl"
| "call_ok (GetCache i) \<longleftrightarrow> True"
| "call_ok (DelCache i) \<longleftrightarrow> True"

fun rd_run :: "'s redis_api \<Rightarrow> redis_call list \<Rightarrow> 's redis_client \<Rightarrow> 's redis_client \<times> redis_result list" where
  "rd_run api [] rd = (rd, [])"
| "rd_run api (c # cs) rd =
     (case rd_call api c rd of (rd, r) \<Rightarrow> case rd_run api cs rd of (rd, rs) \<Rightarrow> (rd, r # rs))"

fun spec_run :: "redis_call list \<Rightarrow> cache_spec \<Rightarrow> cache_spec \<times> redis_result list" where
  "spec_run [] v = (v, [])"
| "spec_run (c # cs) v =
     (case spec_call c v of (v, r) \<Rightarrow> case spec_run cs v of (v, rs) \<Rightarrow> (v, r # rs))"

definition cache_view :: "(bytes \<Rightarrow> bytes option) \<Rightarrow> cache_spec" where
  "cache_view m = (\<lambda>t. Option.bind (m (token_key t)) stoll, \<lambda>i. m (player_key i))"

lemma exec_set_connected:
  assumes "redis_serves api contents" "is_connected rd" "0 < ttl"
  shows "\<exists>rd'. exec_set api k v ttl rd = (rd', True) \<and> is_connected rd'
    \<and> contents (rd_world rd') = (contents (rd_world rd))(c_str k \<mapsto> c_str v)"
proof -
  obtain s' where "ra_command api (SET (c_str k) (c_str v) ttl) (rd_world rd) = (s', Some ReplyStatus, False)"
    "contents s' = (contents (rd_world rd))(c_str k \<mapsto> c_str v)"
    using assms(1,3) unfolding redis_serves_def by blast
  with assms(2) show ?thesis
    by (simp add: exec_set_def reconnect_if_needed_def is_connected_def redisCommand_def reply_ok_def)
qed

lemma exec_get_connected:
  assumes "redis_serves api contents" "is_connected rd"
  shows "\<exists>rd'. exec_get api k rd = (rd', contents (rd_world rd) (c_str k)) \<and> is_connected rd'
    \<and> contents (rd_world rd') = contents (rd_world rd)"
proof -
  obtain s' where "ra_command api (GET (c_str k)) (rd_world rd) =
      (s', Some (case contents (rd_world rd) (c_str k) of None \<Rightarrow> ReplyNil | Some v \<Rightarrow> ReplyString v), False)"
    "contents s' = contents (rd_world rd)"
    using assms(1) unfolding redis_serves_def by blast
  with assms(2) show ?thesis
    by (simp add: exec_get_def reconnect_if_needed_def is_connected_def redisCommand_def split: option.split)
qed

lemma exec_del_connected:
  assumes "redis_serves api contents" "is_connected rd"
  shows "\<exists>rd'. exec_del api k rd = (rd', True) \<and> is_connected rd'
    \<and> contents (rd_world rd') = (contents (rd_world rd))(c_str k := None)"
proof -
  obtain s' n where "ra_command api (DEL (c_str k)) (rd_world rd) = (s', Some (ReplyInteger n), False)"
    "contents s' = (contents (rd_world rd))(c_str k := None)"
    using assms(1) unfolding redis_serves_def by blast
  with assms(2) show ?thesis
    by (simp add: exec_del_def reconnect_if_needed_def is_connected_def redisCommand_def)
qed

lemma cache_view_upd:
  "- (2 ^ 63) \<le> i \<Longrightarrow> i < 2 ^ 63 \<Longrightarrow>
   cache_view (m(token_key t \<mapsto> fmt_d i)) = ((fst (cache_view m))(t \<mapsto> i), snd (cache_view m))"
  "cache_view (m(token_key t := None)) = ((fst (cache_view m))(t := None), snd (cache_view m))"
  "cache_view (m(player_key j := w)) = (fst (cache_view m), (snd (cache_view m))(j := w))"
  by (auto simp: cache_view_def fun_eq_iff stoll_fmt_d)

lemma rd_call_refines:
  assumes "redis_serves api contents" "is_connected rd" "call_ok c"
  shows "\<exists>rd' r. rd_call api c rd = (rd', r) \<and> is_connected rd'
    \<and> (cache_view (contents (rd_world rd')), r) = spec_call c (cache_view (contents (rd_world rd)))"
proof -
  obtain T C where view: "cache_view (contents (rd_world rd)) = (T, C)" by fastforce
  then have TC: "T = (\<lambda>t. Option.bind (contents (rd_world rd) (token_key t)) stoll)"
    "C = (\<lambda>i. contents (rd_world rd) (player_key i))" by (simp_all add: cache_view_def)
  note set_case = exec_set_connected [OF assms(1,2)]
    and get_case = exec_get_connected [OF assms(1,2)] and del_case = exec_del_connected [OF assms(1,2)]
  show ?thesis
  proof (cases c)
    case (SetToken t i ttl)
    with assms(3) set_case [of ttl "token_key t" "fmt_d i"] view show ?thesis
      by (auto simp: call_defs c_str_token c_str_id [OF fmt_d_no_zero] cache_view_upd)
  next
    case (SetCache i j ttl)
    with assms(3) set_case [of ttl "player_key i" j] view show ?thesis
      by (auto simp: call_defs c_str_player cache_view_upd)
  next
    case (GetToken t)
    with assms(3) get_case [of "token_key t"] view show ?thesis
      by (auto simp: call_defs c_str_token TC)
  next
    case (GetCache i)
    with get_case [of "player_key i"] view show ?thesis by (auto simp: call_defs c_str_player TC)
  next
    case (DelToken t)
    with assms(3) del_case [of "token_key t"] view show ?thesis
      by (auto simp: call_defs c_str_token cache_view_upd)
  next
    case (DelCache i)
    with del_case [of "player_key i"] view show ?thesis
      by (auto simp: call_defs c_str_player cache_view_upd)
  qed
qed


text \<open>A server that keeps its database in a map.\<close>

definition map_api :: "(bytes \<Rightarrow> bytes option) redis_api" where
  "map_api = \<lparr>ra_connect = \<lambda>h p t s. (s, Some False),
     ra_command = \<lambda>c s. case c of
         AUTH pw \<Rightarrow> (s, Some ReplyStatus, False)
       | SELECT n \<Rightarrow> (s, Some ReplyStatus, False)
       | SET k v ttl \<Rightarrow> if 0 < ttl then (s(k \<mapsto> v), Some ReplyStatus, False) else (s, Some ReplyError, False)
       | GET k \<Rightarrow> (s, Some (case s k of None \<Rightarrow> ReplyNil | Some v \<Rightarrow> ReplyString v), False)
       | DEL k \<Rightarrow> (s(k := None), Some (ReplyInteger (if s k = None then 0 else 1)), False)\<rparr>"

lemma map_api_serves: "redis_serves map_api (\<lambda>s. s)"
  by (simp add: redis_serves_def map_api_def)


theorem redis_client_safe_witness:
  "\<exists>rd. redis_reach map_api RedisClientConfig rd \<and> rd_ctx rd = Some False \<and> rd_allocated rd = 1
    \<and> rd_allocated (rd_disconnect rd) = 0"
proof -
  have reach: "redis_reach map_api RedisClientConfig
      (fst (rd_connect map_api (RedisClient RedisClientConfig Map.empty)))" (is "redis_reach _ _ ?rd")
    by (rule connected)
  have "rd_ctx ?rd = Some False"
    by (simp add: rd_connect_def redisConnectWithTimeout_def map_api_def RedisClient_def RedisClientConfig_def
        handshake_def)
  with reach redis_client_safe [OF reach] show ?thesis by (intro exI [of _ ?rd]) simp
qed

text \<open>
  A token is passed on as a C string: whatever follows a zero byte is ignored, so that a client can
  extend a valid token at will.
\<close>

lemma token_suffix_ignored:
  "get_player_id_by_token api (t @ 0 # junk) rd = get_player_id_by_token api t rd"
proof -
  have cut: "c_str (p @ 0 # junk) = c_str p" for p by (induction p) (simp_all add: c_str_def)
  have "c_str (token_key (t @ 0 # junk)) = c_str (token_key t)"
    using cut [of "token_key t"] by (simp add: token_key_def)
  then show ?thesis unfolding get_player_id_by_token_def exec_get_def by (simp only:)
qed

end
