(* ===== verification/Asio_Server.thy ===== *)
theory Asio_Server
  imports Server_Invariants
begin

text \<open>
  The listening side of the network layer: \<open>asio_server\<close> of \<open>server/network/asio_server.cpp\<close>.  The
  acceptor belongs to the asio library: whether the address can be parsed and whether opening, setting
  the option, binding and listening succeed are parameters, and the completion of an \<open>async_accept\<close> is a step
  that happens at any time while one is outstanding.  On an acceptor that is not open a completion always
  carries an error, as asio documents for an operation on a closed or aborted acceptor.
\<close>

record asio_server =
  as_handler :: bool
  as_option :: socket_option
  as_open :: bool
  as_backlog :: int
  as_reuse :: bool
  as_outstanding :: nat
  as_next_channel_id :: int
  as_channels :: "int list"
  as_errors :: nat

definition new_asio_server :: asio_server where
  "new_asio_server = \<lparr>as_handler = False, as_option = socket_option_default, as_open = False, as_backlog = 0,
     as_reuse = False, as_outstanding = 0, as_next_channel_id = 1, as_channels = [], as_errors = 0\<rparr>"

definition as_init :: "bool \<Rightarrow> socket_option \<Rightarrow> asio_server \<Rightarrow> asio_server \<times> bool" where
  "as_init handler opt a = (a\<lparr>as_handler := handler, as_option := opt\<rparr>, True)"

text \<open>\<open>do_accept\<close> starts one asynchronous accept.\<close>

definition do_accept :: "asio_server \<Rightarrow> asio_server" where
  "do_accept a = a\<lparr>as_outstanding := as_outstanding a + 1\<rparr>"

text \<open>What the operating system answers to the calls of \<open>listen\<close>.\<close>

record listen_answers =
  la_address_ok :: bool
  la_open_ok :: bool
  la_option_ok :: bool
  la_bind_ok :: bool
  la_listen_ok :: bool

text \<open>\<open>None\<close>: \<open>make_address\<close> throws. An acceptor that was open is closed first; assigning a new one leaves it closed.\<close>

definition as_listen :: "listen_answers \<Rightarrow> asio_server \<Rightarrow> (asio_server \<times> bool) option" where
  "as_listen la a =
    (if \<not> la_address_ok la then None
     else let a = a\<lparr>as_open := False\<rparr>
     in if \<not> la_open_ok la then Some (a, False)
     else let a = a\<lparr>as_open := True\<rparr>
     in if \<not> la_option_ok la then Some (a, False)
     else let a = a\<lparr>as_reuse := so_reuse_address (as_option a)\<rparr>
     in if \<not> la_bind_ok la then Some (a, False)
     else if \<not> la_listen_ok la then Some (a, False)
     else Some (do_accept (a\<lparr>as_backlog := so_backlog (as_option a)\<rparr>), True))"

text \<open>\<open>closed_ok\<close>: whether closing the acceptor reported no error; it is closed in any case.\<close>

definition as_stop :: "bool \<Rightarrow> asio_server \<Rightarrow> asio_server \<times> bool" where
  "as_stop closed_ok a = (a\<lparr>as_open := False\<rparr>, closed_ok)"

definition as_release :: "bool \<Rightarrow> asio_server \<Rightarrow> asio_server" where
  "as_release closed_ok a = (fst (as_stop closed_ok a))\<lparr>as_handler := False\<rparr>"

definition set_net_handler :: "bool \<Rightarrow> asio_server \<Rightarrow> asio_server" where
  "set_net_handler handler a = a\<lparr>as_handler := handler\<rparr>"

text \<open>
  The completion handler of the accept. \<open>next_channel_id_\<close> is an \<open>std::atomic<int>\<close>, which wraps around.
\<close>

definition accept_handler :: "bool \<Rightarrow> asio_server \<Rightarrow> asio_server" where
  "accept_handler ec a =
    (let a = a\<lparr>as_outstanding := as_outstanding a - 1\<rparr>
     in if ec then do_accept (a\<lparr>as_errors := as_errors a + 1\<rparr>)
        else let ch = as_next_channel_id a
             in do_accept (a\<lparr>as_next_channel_id := to_int (to_u32 (ch + 1)), as_channels := uset_insert ch (as_channels a)\<rparr>))"

text \<open>The close callback of a channel.\<close>

definition channel_removed :: "int \<Rightarrow> asio_server \<Rightarrow> asio_server" where
  "channel_removed ch a = a\<lparr>as_channels := remove1 ch (as_channels a)\<rparr>"

section \<open>The accept loop\<close>

text \<open>
  A server that is initialised and listens once, as \<open>game_server\<close> does: completions, closed channels and a
  stop in any order. \<open>n\<close> counts the accepted connections.
\<close>

inductive accept_reach :: "nat \<Rightarrow> asio_server \<Rightarrow> bool" where
  listening: "as_listen la (fst (as_init h opt new_asio_server)) = Some (a, True) \<Longrightarrow> accept_reach 0 a"
| accepted: "accept_reach n a \<Longrightarrow> as_outstanding a > 0 \<Longrightarrow> as_open a \<Longrightarrow> accept_reach (Suc n) (accept_handler False a)"
| failed: "accept_reach n a \<Longrightarrow> as_outstanding a > 0 \<Longrightarrow> accept_reach n (accept_handler True a)"
| removed: "accept_reach n a \<Longrightarrow> ch \<in> set (as_channels a) \<Longrightarrow> accept_reach n (channel_removed ch a)"
| stopped: "accept_reach n a \<Longrightarrow> accept_reach n (fst (as_stop closed_ok a))"

definition accept_inv :: "nat \<Rightarrow> asio_server \<Rightarrow> bool" where
  "accept_inv n a \<longleftrightarrow> as_outstanding a = 1 \<and> distinct (as_channels a)
    \<and> (n < 2 ^ 31 - 1 \<longrightarrow> as_next_channel_id a = int n + 1 \<and> set (as_channels a) \<subseteq> {1..int n})"

lemma to_int_small: "0 \<le> i \<Longrightarrow> i < 2 ^ 31 \<Longrightarrow> to_int (to_u32 i) = i"
  using to_int_of_nat [of "nat i"] by (simp add: to_u32_def)

lemma as_listen_outstanding:
  "as_listen la a = Some (a', ok) \<Longrightarrow> as_outstanding a' = as_outstanding a + (if ok then 1 else 0)
    \<and> as_channels a' = as_channels a \<and> as_next_channel_id a' = as_next_channel_id a"
  by (auto simp: as_listen_def do_accept_def Let_def split: if_splits)

lemma accept_reach_inv: "accept_reach n a \<Longrightarrow> accept_inv n a"
proof (induction rule: accept_reach.induct)
  case (listening la h opt a)
  then show ?case
    by (auto simp: accept_inv_def as_init_def new_asio_server_def dest!: as_listen_outstanding)
next
  case (accepted n a)
  have id: "to_int (to_u32 (int n + 2)) = int n + 2" if "Suc n < 2 ^ 31 - 1"
    using that by (intro to_int_small) simp_all
  have "distinct (uset_insert ch xs)" if "distinct xs" for ch :: int and xs
    using that by (simp add: uset_insert_def)
  with accepted.IH id show ?case
    by (auto simp: accept_inv_def accept_handler_def do_accept_def Let_def uset_insert_def add.commute)
next
  case (removed n a ch)
  then show ?case by (auto simp: accept_inv_def channel_removed_def dest: notin_set_remove1)
qed (auto simp: accept_inv_def accept_handler_def do_accept_def as_stop_def Let_def)

text \<open>
  C34: After a successful \<open>listen\<close> exactly one accept is outstanding at any time, whatever completes, fails,
  closes or stops; the channels in the table are different, and as long as fewer than \<open>2\<^sup>3\<^sup>1 - 1\<close> connections were accepted each new one gets an id that no
  earlier one had. An accept that fails changes nothing but the error count.
\<close>

theorem accept_loop_correct:
  assumes "accept_reach n a"
  shows "as_outstanding a = 1 \<and> distinct (as_channels a)
    \<and> accept_handler True a = a\<lparr>as_errors := as_errors a + 1\<rparr>
    \<and> (n < 2 ^ 31 - 1 \<longrightarrow> as_next_channel_id a = int n + 1 \<and> as_next_channel_id a \<notin> set (as_channels a)
        \<and> as_channels (accept_handler False a) = as_channels a @ [int n + 1])"
  using accept_reach_inv [OF assms]
  by (auto simp: accept_inv_def accept_handler_def do_accept_def Let_def uset_insert_def)

theorem accept_loop_correct_witness:
  "\<exists>a. accept_reach 1 a \<and> as_outstanding a = 1 \<and> as_channels a = [1] \<and> as_next_channel_id a = 2
    \<and> as_channels (accept_handler False a) = [1, 2]"
proof -
  let ?la = "\<lparr>la_address_ok = True, la_open_ok = True, la_option_ok = True, la_bind_ok = True, la_listen_ok = True\<rparr>"
  obtain a where a: "as_listen ?la (fst (as_init True socket_option_default new_asio_server)) = Some (a, True)"
    "as_open a" "as_channels a = []"
    by (auto simp: as_listen_def as_init_def new_asio_server_def do_accept_def Let_def)
  from listening [OF a(1)] have r0: "accept_reach 0 a" .
  with accept_loop_correct [OF r0] a(2) have r1: "accept_reach (Suc 0) (accept_handler False a)"
    by (intro accepted) simp_all
  from accept_loop_correct [OF r0] a(3) have ch: "as_channels (accept_handler False a) = [1]" by simp
  from accept_loop_correct [OF r1] ch r1 show ?thesis by (intro exI [of _ "accept_handler False a"]) simp
qed

text \<open>
  Stopping does not end the loop: the completion of the aborted accept starts the next one on the closed
  acceptor, which fails again, and so on.
\<close>

lemma stop_keeps_accepting:
  assumes "accept_reach n a"
  shows "(accept_handler True ^^ k) (fst (as_stop closed_ok a)) = (fst (as_stop closed_ok a))\<lparr>as_errors := as_errors a + k\<rparr>
    \<and> as_outstanding ((accept_handler True ^^ k) (fst (as_stop closed_ok a))) = 1"
  using accept_reach_inv [OF assms]
  by (induction k) (auto simp: accept_inv_def as_stop_def accept_handler_def do_accept_def Let_def)

section \<open>The server accepts what the listener hands over\<close>

text \<open>The part of the game server's state that belongs to the listener.\<close>

definition listener_agrees :: "asio_server \<Rightarrow> game_server \<Rightarrow> bool" where
  "listener_agrees a sv \<longleftrightarrow> as_next_channel_id a = sv_next_channel_id sv \<and> as_channels a = sv_accepted sv"

lemma accept_channel_refines:
  assumes "listener_agrees a sv" "accept_channel tok now sv = Done sv'"
  shows "listener_agrees (accept_handler False a) sv'"
  using assms
  by (auto simp: listener_agrees_def accept_channel_def accept_handler_def do_accept_def Channel.start_def
      new_channel_def sv_on_accept_def sv_update_player_map_def sv_emit_def Let_def)

end
