(* ===== verification/Server_Start.thy ===== *)
theory Server_Start
  imports Server_Players Db_Manager Redis_Client Asio_Server
begin

text \<open>
  Starting the server: \<open>main\<close> of \<open>server/main.cpp\<close> with the parts of \<open>game_server::init\<close> that open the
  databases and the cache from the configuration.  What the file system, the databases, the Redis server
  and the acceptor do are parameters: the contents of the configuration file, whether connection \<open>i\<close> of a
  role can be opened, the hiredis library, and what the acceptor answers.
\<close>

definition set_config :: "server_config \<Rightarrow> u32 \<Rightarrow> game_server" where
  "set_config cfg seed = new_game_server (sc_use_ecs cfg) (sc_maps cfg) (rc_player_ttl_sec (sc_redis cfg)) seed"

text \<open>The size of the pool of database threads.\<close>

definition db_threads :: "server_config \<Rightarrow> int" where
  "db_threads cfg =
    (case map_of (sc_databases cfg) (str ''game'') of
       None \<Rightarrow> 4
     | Some c \<Rightarrow> if dc_enabled c then max 1 (dc_pool_size c) else 4)"

text \<open>The manager, unless no pool could be opened, and the pool of the player DAO; \<open>None\<close> when opening throws.\<close>

definition open_databases ::
  "server_config \<Rightarrow> (db_role \<Rightarrow> nat \<Rightarrow> bool) \<Rightarrow> (db_manager option \<times> db_pool option) option" where
  "open_databases cfg connect =
    (case dm_init (sc_databases cfg) connect DbManager of
       None \<Rightarrow> None
     | Some (dm, ok) \<Rightarrow> Some (if ok then (Some dm, dm_pool RoleGame dm) else (None, None)))"

definition redis_settings :: "redis_config \<Rightarrow> redis_client_config" where
  "redis_settings rc = RedisClientConfig\<lparr>rcc_host := rc_host rc, rcc_port := uint (rc_port rc),
     rcc_password := rc_password rc, rcc_db_index := rc_db_index rc\<rparr>"

definition open_redis :: "server_config \<Rightarrow> 's redis_api \<Rightarrow> 's \<Rightarrow> 's redis_client option" where
  "open_redis cfg api s =
    (if rc_enabled (sc_redis cfg)
     then case rd_connect api (RedisClient (redis_settings (sc_redis cfg)) s) of
            (rd, ok) \<Rightarrow> if ok then Some rd else None
     else None)"

record 's running_server =
  rs_server :: game_server
  rs_db_threads :: int
  rs_databases :: "db_manager option"
  rs_redis :: "'s redis_client option"
  rs_listener :: "asio_server option"

text \<open>\<open>init\<close> after \<open>set_config\<close>, with its result; \<open>None\<close> when opening a database or parsing the address throws.\<close>

definition start_server ::
  "server_config \<Rightarrow> socket_option \<Rightarrow> (db_role \<Rightarrow> nat \<Rightarrow> bool) \<Rightarrow> 's redis_api \<Rightarrow> 's \<Rightarrow> listen_answers \<Rightarrow> u32
     \<Rightarrow> ('s running_server \<times> bool) option" where
  "start_server cfg opt connect api s la seed =
    (case open_databases cfg connect of
       None \<Rightarrow> None
     | Some (dm, game_pool) \<Rightarrow>
         let rd = open_redis cfg api s;
             l = fst (as_init True opt new_asio_server)
         in case as_listen la l of
              None \<Rightarrow> None
            | Some (l, listening) \<Rightarrow>
                (case sv_init (game_pool \<noteq> None) (rd \<noteq> None) listening (set_config cfg seed) of
                   (sv, ok) \<Rightarrow> Some (\<lparr>rs_server = sv, rs_db_threads = db_threads cfg, rs_databases = dm,
                     rs_redis = rd, rs_listener = Some l\<rparr>, ok)))"

text \<open>\<open>stop\<close> also destroys the listener, closes the databases and the connection to the cache.\<close>

definition stop_server :: "db_answers \<Rightarrow> 's running_server \<Rightarrow> 's running_server" where
  "stop_server db rs = rs\<lparr>rs_server := sv_stop db (rs_server rs), rs_databases := None,
     rs_redis := map_option rd_disconnect (rs_redis rs), rs_listener := None\<rparr>"

datatype 's main_result =
    Uncaught
  | ExitCode int
  | Serving "'s running_server" socket_option level_enum

definition server_main ::
  "config_file \<Rightarrow> (db_role \<Rightarrow> nat \<Rightarrow> bool) \<Rightarrow> 's redis_api \<Rightarrow> 's \<Rightarrow> listen_answers \<Rightarrow> u32 \<Rightarrow> 's main_result" where
  "server_main file connect api s la seed =
    (case load file of
       Inl err \<Rightarrow> Uncaught
     | Inr cfg \<Rightarrow>
         (case start_server cfg (main_options cfg) connect api s la seed of
            None \<Rightarrow> Uncaught
          | Some (rs, ok) \<Rightarrow>
              if \<not> ok then ExitCode 1 else Serving rs (main_options cfg) (parse_log_level (sc_log_level cfg))))"

lemma open_databases_ok:
  assumes "sizes_ok (sc_databases cfg)"
  shows "\<exists>dm gp. open_databases cfg connect = Some (dm, gp)
    \<and> (gp \<noteq> None \<longleftrightarrow> role_usable (sc_databases cfg) connect RoleGame)"
proof -
  have game: "dm_pool RoleGame (map (role_pool (sc_databases cfg) connect) roles) \<noteq> None
      \<longleftrightarrow> role_usable (sc_databases cfg) connect RoleGame"
    by (simp add: dm_pool_roles role_pool_def)
  then show ?thesis
    using role_in_roles [of RoleGame] by (auto simp: open_databases_def dm_init_ok [OF assms] simp del: role_in_roles)
qed

lemma init_state_fields:
  "sv_dao (init_state db redis sv) = db" "sv_redis (init_state db redis sv) = redis"
  by (simp_all add: init_state_def Let_def)

lemma init_state_listener:
  "sv_next_channel_id (init_state db redis (set_config cfg seed)) = 1"
  "sv_accepted (init_state db redis (set_config cfg seed)) = []"
  by (simp_all add: init_state_def Let_def set_config_def new_game_server_def initialize_threading_system_def
      service_initialize_def set_world_def split: option.split)

definition listens :: "listen_answers \<Rightarrow> bool" where
  "listens la \<longleftrightarrow> la_open_ok la \<and> la_option_ok la \<and> la_bind_ok la \<and> la_listen_ok la"

lemma as_listen_result:
  assumes "la_address_ok la"
  shows "\<exists>l. as_listen la (fst (as_init True opt new_asio_server)) = Some (l, listens la)
    \<and> as_next_channel_id l = 1 \<and> as_channels l = []
    \<and> (listens la \<longrightarrow> as_open l \<and> as_backlog l = so_backlog opt \<and> as_reuse l = so_reuse_address opt)"
  using assms by (auto simp: as_listen_def as_init_def new_asio_server_def do_accept_def listens_def Let_def)

text \<open>What a started server is made of.\<close>

definition started ::
  "server_config \<Rightarrow> socket_option \<Rightarrow> (db_role \<Rightarrow> nat \<Rightarrow> bool) \<Rightarrow> 's redis_api \<Rightarrow> 's \<Rightarrow> 's running_server \<Rightarrow> bool" where
  "started cfg opt connect api s rs \<longleftrightarrow>
    (sv_dao (rs_server rs) \<longleftrightarrow> role_usable (sc_databases cfg) connect RoleGame)
    \<and> (sv_redis (rs_server rs) \<longleftrightarrow> rc_enabled (sc_redis cfg)
         \<and> snd (rd_connect api (RedisClient (redis_settings (sc_redis cfg)) s)))
    \<and> (\<forall>rd. rs_redis rs = Some rd \<longrightarrow> rd_inv rd \<and> rd_ctx rd \<noteq> None)
    \<and> (\<exists>l. rs_listener rs = Some l \<and> accept_reach 0 l \<and> listener_agrees l (rs_server rs)
         \<and> as_open l \<and> as_backlog l = so_backlog opt \<and> as_reuse l = so_reuse_address opt)"

lemma open_redis_result:
  "(open_redis cfg api s \<noteq> None \<longleftrightarrow> rc_enabled (sc_redis cfg)
      \<and> snd (rd_connect api (RedisClient (redis_settings (sc_redis cfg)) s)))
   \<and> (\<forall>rd. open_redis cfg api s = Some rd \<longrightarrow> rd_inv rd \<and> rd_ctx rd \<noteq> None)"
proof -
  have fresh: "rd_inv (RedisClient (redis_settings (sc_redis cfg)) s)"
    "rd_ctx (RedisClient (redis_settings (sc_redis cfg)) s) = None"
    by (simp_all add: rd_inv_def RedisClient_def)
  show ?thesis
    using rd_inv_connect [OF fresh, of api]
    by (cases "rd_connect api (RedisClient (redis_settings (sc_redis cfg)) s)") (auto simp: open_redis_def)
qed

lemma start_server_ok:
  assumes "sizes_ok (sc_databases cfg)" "la_address_ok la"
  shows "\<exists>rs. start_server cfg opt connect api s la seed = Some (rs, listens la)
    \<and> server_reach tok rnd 0 (rs_server rs) \<and> (listens la \<longrightarrow> started cfg opt connect api s rs)"
proof -
  obtain dm gp where db: "open_databases cfg connect = Some (dm, gp)"
    "gp \<noteq> None \<longleftrightarrow> role_usable (sc_databases cfg) connect RoleGame"
    using open_databases_ok [OF assms(1)] by blast
  obtain l where l: "as_listen la (fst (as_init True opt new_asio_server)) = Some (l, listens la)"
    "as_next_channel_id l = 1" "as_channels l = []"
    "listens la \<longrightarrow> as_open l \<and> as_backlog l = so_backlog opt \<and> as_reuse l = so_reuse_address opt"
    using as_listen_result [OF assms(2)] by blast
  define sv where "sv = init_state (gp \<noteq> None) (open_redis cfg api s \<noteq> None) (set_config cfg seed)"
  define rs where "rs = \<lparr>rs_server = sv, rs_db_threads = db_threads cfg, rs_databases = dm,
    rs_redis = open_redis cfg api s, rs_listener = Some l\<rparr>"
  have run: "start_server cfg opt connect api s la seed = Some (rs, listens la)"
    using db(1) l(1) by (simp add: start_server_def sv_init_def rs_def sv_def Let_def)
  have agrees: "listener_agrees l sv" using l(2,3) by (simp add: listener_agrees_def sv_def init_state_listener)
  have "server_reach tok rnd 0 sv" unfolding sv_def set_config_def by (rule server_reach_init)
  moreover have "started cfg opt connect api s rs" if "listens la"
  proof -
    from that l(1) have "accept_reach 0 l" by (intro listening [of la True opt]) simp
    moreover have "sv_dao sv \<longleftrightarrow> gp \<noteq> None" "sv_redis sv \<longleftrightarrow> open_redis cfg api s \<noteq> None"
      by (simp_all add: sv_def init_state_fields)
    ultimately show ?thesis
      using that l(4) agrees db(2) open_redis_result [of cfg api s] unfolding started_def rs_def by simp
  qed
  ultimately show ?thesis using run by (intro exI [of _ rs]) (simp add: rs_def)
qed



section \<open>Tokens\<close>

text \<open>The token table that the login handler consults, as the client answers.\<close>

definition redis_tokens :: "'s redis_api \<Rightarrow> 's redis_client \<Rightarrow> bytes \<Rightarrow> int option" where
  "redis_tokens api rd t = snd (get_player_id_by_token api t rd)"

text \<open>
  With Redis, a login is refused exactly when it carries a token that the store does not hold; and a token
  that has just been set is accepted.
\<close>

lemma token_refused_redis:
  assumes "redis_serves api contents" "is_connected rd" "0 \<notin> set (login_req_session_token r)"
  shows "token_refused (redis_tokens api rd) r sv \<longleftrightarrow> sv_redis sv \<and> login_req_session_token r \<noteq> []
    \<and> fst (cache_view (contents (rd_world rd))) (login_req_session_token r) = None"
proof -
  have "call_ok (GetToken (login_req_session_token r))" using assms(3) by simp
  from rd_call_refines [OF assms(1,2) this] show ?thesis
    by (cases "cache_view (contents (rd_world rd))")
       (auto simp: token_refused_def redis_tokens_def apsnd_def map_prod_def split: prod.splits)
qed

lemma set_token_accepted:
  assumes "redis_serves api contents" "is_connected rd" "call_ok (SetToken (login_req_session_token r) i ttl)"
  shows "\<not> token_refused (redis_tokens api (fst (set_token api (login_req_session_token r) i ttl rd))) r sv"
proof -
  let ?t = "login_req_session_token r"
  from rd_call_refines [OF assms] obtain rd' where rd': "set_token api ?t i ttl rd = (rd', True)" "is_connected rd'"
    "fst (cache_view (contents (rd_world rd'))) ?t = Some i"
    by (cases "set_token api ?t i ttl rd"; cases "cache_view (contents (rd_world rd))") auto
  have "0 \<notin> set ?t" using assms(3) by simp
  from token_refused_redis [OF assms(1) rd'(2) this] rd'(1,3) show ?thesis by simp
qed

end
