(* ===== verification/Game_Bot.thy ===== *)
theory Game_Bot
  imports Server_Players
begin

text \<open>
  The clients (\<open>client/game_bot.cpp\<close>, \<open>client/simple_client.cpp\<close>, \<open>client/game_client.cpp\<close>).  The
  socket is outside the repository: resolving and connecting are parameters that say whether they
  succeed, \<open>asio::write\<close> appends to what was sent while the connection is open, and a read hands over a
  chunk of the incoming bytes.  What a client prints is recorded as a list of events.  The receiving
  thread shares nothing with the sending one but the socket, which \<open>send_mutex_\<close> guards, so that every
  frame is one write.
\<close>

section \<open>The receive loop\<close>

text \<open>
  \<open>recv_loop\<close> is the same in both clients up to what they do with a frame (\<open>h\<close>) and with a frame whose
  checksum is wrong (\<open>bad\<close>).  \<open>None\<close> is a read beyond the accumulator.
\<close>

function frame_loop ::
  "(u16 \<Rightarrow> bytes \<Rightarrow> 'a \<Rightarrow> 'a) \<Rightarrow> (u16 \<Rightarrow> 'a \<Rightarrow> 'a) \<Rightarrow> bytes \<Rightarrow> nat \<Rightarrow> 'a \<Rightarrow> ('a \<times> nat) option" where
  "frame_loop h bad acc acc_offset st =
    (case try_parse_one acc acc_offset of
       NoFrame off \<Rightarrow> Some (st, off)
     | Frame hdr payload crc_ok off \<Rightarrow>
         if \<not> crc_ok then frame_loop h bad acc off (bad (hdr_cmd hdr) st)
         else frame_loop h bad acc off (h (hdr_cmd hdr) payload st)
     | Overrun \<Rightarrow> None)"
  by pat_completeness auto
termination
  by (relation "measure (\<lambda>(h, bad, acc, off, st). length acc - off)") (auto dest!: try_parse_one_progress)

declare frame_loop.simps [simp del]

definition compact :: "bytes \<Rightarrow> nat \<Rightarrow> bytes \<times> nat" where
  "compact acc acc_offset =
    (if acc_offset > length acc div 2 then (drop acc_offset acc, 0) else (acc, acc_offset))"

definition receive ::
  "(u16 \<Rightarrow> bytes \<Rightarrow> 'a \<Rightarrow> 'a) \<Rightarrow> (u16 \<Rightarrow> 'a \<Rightarrow> 'a) \<Rightarrow> bytes \<Rightarrow> (bytes \<times> nat) \<times> 'a \<Rightarrow> ((bytes \<times> nat) \<times> 'a) option" where
  "receive h bad data s =
    (case s of ((acc, acc_offset), st) \<Rightarrow>
     case frame_loop h bad (acc @ data) acc_offset st of
       None \<Rightarrow> None
     | Some (st, off) \<Rightarrow> Some (compact (acc @ data) off, st))"

text \<open>The reads of a connection until it is closed.\<close>

fun receive_all ::
  "(u16 \<Rightarrow> bytes \<Rightarrow> 'a \<Rightarrow> 'a) \<Rightarrow> (u16 \<Rightarrow> 'a \<Rightarrow> 'a) \<Rightarrow> bytes list \<Rightarrow> (bytes \<times> nat) \<times> 'a \<Rightarrow> ((bytes \<times> nat) \<times> 'a) option" where
  "receive_all h bad [] s = Some s"
| "receive_all h bad (chunk # chunks) s = Option.bind (receive h bad chunk s) (receive_all h bad chunks)"

section \<open>The bot\<close>

datatype bot_event =
    ResolveFailed
  | ConnectFailed
  | Connected
  | SendFailed u16
  | SentLogin bytes
  | SentMove f32 f32 f32
  | SentChat bytes
  | SentPing
  | CrcMismatch u16
  | GotPing
  | GotPong
  | GotLogin bool u32 u32
  | GotLoginRaw nat
  | GotMoveBroadcast nat
  | GotChat nat
  | GotOther u16 nat
  | BotReadOutOfBounds

record game_bot =
  gb_player_name :: bytes
  gb_session_token :: bytes
  gb_host :: bytes
  gb_port :: int
  gb_running :: bool
  gb_open :: bool
  gb_sent :: bytes
  gb_log :: "bot_event list"

definition GameBot :: "bytes \<Rightarrow> bytes \<Rightarrow> int \<Rightarrow> game_bot" where
  "GameBot name host port = \<lparr>gb_player_name = name, gb_session_token = [], gb_host = host, gb_port = port,
     gb_running = False, gb_open = False, gb_sent = [], gb_log = []\<rparr>"

definition bot_print :: "bot_event \<Rightarrow> game_bot \<Rightarrow> game_bot" where
  "bot_print ev b = b\<lparr>gb_log := gb_log b @ [ev]\<rparr>"

definition authenticate :: bytes where
  "authenticate = []"

definition bot_send_frame :: "u16 \<Rightarrow> bytes \<Rightarrow> game_bot \<Rightarrow> game_bot" where
  "bot_send_frame cmd data b =
    (let pkt = pack cmd 0 k_proto_ver 0 data
     in if gb_open b then b\<lparr>gb_sent := gb_sent b @ pkt\<rparr>
        else if gb_running b then bot_print (SendFailed cmd) b else b)"

definition bot_login :: "game_bot \<Rightarrow> login_req" where
  "bot_login b = \<lparr>login_req_player_name = gb_player_name b, login_req_session_token = gb_session_token b\<rparr>"

definition send_login :: "game_bot \<Rightarrow> game_bot" where
  "send_login b =
    (let payload = login_req_serialize (bot_login b)
     in bot_print (SentLogin (gb_player_name b)) (bot_send_frame 1001 payload b))"

definition bot_move :: "f32 \<Rightarrow> f32 \<Rightarrow> f32 \<Rightarrow> player_move_req" where
  "bot_move x y z = \<lparr>player_move_req_x = x, player_move_req_y = y, player_move_req_z = z,
     player_move_req_rotation = 0, player_move_req_timestamp = 0\<rparr>"

definition send_move :: "f32 \<Rightarrow> f32 \<Rightarrow> f32 \<Rightarrow> game_bot \<Rightarrow> game_bot" where
  "send_move x y z b =
    (let payload = player_move_req_serialize (bot_move x y z)
     in bot_print (SentMove x y z) (bot_send_frame 1002 payload b))"

definition send_chat :: "bytes \<Rightarrow> game_bot \<Rightarrow> game_bot" where
  "send_chat msg b = bot_print (SentChat msg) (bot_send_frame 1003 msg b)"

definition bot_send_ping :: "game_bot \<Rightarrow> game_bot" where
  "bot_send_ping b = bot_print SentPing (bot_send_frame 1 [] b)"

definition bot_connect :: "bool \<Rightarrow> bool \<Rightarrow> game_bot \<Rightarrow> game_bot \<times> bool" where
  "bot_connect resolved connected b =
    (let b = b\<lparr>gb_session_token := authenticate\<rparr>
     in if \<not> resolved then (bot_print ResolveFailed b, False)
        else if \<not> connected then (bot_print ConnectFailed b, False)
        else (send_login ((bot_print Connected (b\<lparr>gb_open := True\<rparr>))\<lparr>gb_running := True\<rparr>), True))"

text \<open>The rounds \<open>i, i + 1, \<dots>\<close> of the loop of \<open>run\<close>, of which \<open>n\<close> are left.\<close>

fun bot_rounds :: "nat \<Rightarrow> int \<Rightarrow> game_bot \<Rightarrow> game_bot" where
  "bot_rounds 0 i b = b"
| "bot_rounds (Suc n) i b =
    (if \<not> gb_running b then b
     else let b = send_move (f_of_int (i * 5)) 0 (f_of_int (i * 3)) b;
              b = (if i mod 3 = 0
                   then send_chat (str ''step='' @ fmt_d i @ str '' from '' @ gb_player_name b) b else b)
          in bot_rounds n (i + 1) b)"

definition bot_run :: "int \<Rightarrow> game_bot \<Rightarrow> game_bot" where
  "bot_run move_count b = bot_send_ping (bot_rounds (nat move_count) 0 b)"

definition bot_disconnect :: "game_bot \<Rightarrow> game_bot" where
  "bot_disconnect b = b\<lparr>gb_running := False, gb_open := False\<rparr>"

definition bot_on_frame :: "u16 \<Rightarrow> bytes \<Rightarrow> game_bot \<Rightarrow> game_bot" where
  "bot_on_frame cmd payload b =
    (if cmd = 1 then bot_print GotPing (bot_send_frame 2 [] b)
     else if cmd = 2 then bot_print GotPong b
     else if cmd = 1001 then
       (case login_res_parse payload of
          Parsed res rest \<Rightarrow>
            bot_print (GotLogin (login_res_success res) (login_res_player_id res) (login_res_map_id res)) b
        | Reject \<Rightarrow> bot_print (GotLoginRaw (length payload)) b
        | OutOfBounds \<Rightarrow> bot_print BotReadOutOfBounds b)
     else if cmd = 1002 then bot_print (GotMoveBroadcast (length payload)) b
     else if cmd = 1003 then bot_print (GotChat (length payload)) b
     else bot_print (GotOther cmd (length payload)) b)"

definition bot_bad_crc :: "u16 \<Rightarrow> game_bot \<Rightarrow> game_bot" where
  "bot_bad_crc cmd b = bot_print (CrcMismatch cmd) b"

definition bot_receive :: "bytes list \<Rightarrow> game_bot \<Rightarrow> ((bytes \<times> nat) \<times> game_bot) option" where
  "bot_receive chunks b = receive_all bot_on_frame bot_bad_crc chunks (([], 0), b)"

section \<open>The other clients\<close>

text \<open>\<open>simple_client\<close> prints what it receives, and drops a damaged frame silently.\<close>

definition simple_receive :: "bytes list \<Rightarrow> ((bytes \<times> nat) \<times> (u16 \<times> bytes) list) option" where
  "simple_receive chunks = receive_all (\<lambda>cmd payload log. log @ [(cmd, payload)]) (\<lambda>cmd log. log) chunks (([], 0), [])"

definition simple_frame :: "u16 \<Rightarrow> bytes \<Rightarrow> bytes" where
  "simple_frame cmd payload = pack cmd 0 k_proto_ver 0 payload"

definition simple_login :: bytes where
  "simple_login = str ''TestPlayer''"

definition simple_move :: bytes where
  "simple_move = write_float_le 0x41200000 @ write_float_le 0 @ write_float_le 0x40A00000"

text \<open>\<open>create_frame\<close> of \<open>game_client\<close>: a zero checksum, the message id, the length, the payload.\<close>

definition create_frame :: "u16 \<Rightarrow> bytes \<Rightarrow> bytes" where
  "create_frame msg_id data =
    (let frame = replicate (8 + length data) 0;
         frame = copy_to frame 0 (write_le32 0);
         frame = copy_to frame 4 (write_le16 msg_id);
         frame = copy_to frame 6 (write_le16 (of_nat (length data)))
     in copy_to frame 8 data)"

section \<open>Every frame arrives\<close>

definition run_frames :: "(u16 \<Rightarrow> bytes \<Rightarrow> 'a \<Rightarrow> 'a) \<Rightarrow> packet list \<Rightarrow> 'a \<Rightarrow> 'a" where
  "run_frames h fs st = foldl (\<lambda>st f. h (pk_cmd f) (pk_payload f) st) st fs"

lemma run_frames_simps [simp]:
  "run_frames h [] st = st" "run_frames h (f # fs) st = run_frames h fs (h (pk_cmd f) (pk_payload f) st)"
  "run_frames h (fs1 @ fs2) st = run_frames h fs2 (run_frames h fs1 st)"
  by (simp_all add: run_frames_def)

text \<open>The bytes that are not yet parsed, and those still to come, are the frames still to come.\<close>

definition pending_frames :: "bytes \<Rightarrow> nat \<Rightarrow> bytes \<Rightarrow> packet list \<Rightarrow> bool" where
  "pending_frames acc off q fs \<longleftrightarrow> off \<le> length acc \<and> drop off acc @ q = stream fs"

definition none_complete :: "bytes \<Rightarrow> nat \<Rightarrow> packet list \<Rightarrow> bool" where
  "none_complete acc off fs \<longleftrightarrow> fs \<noteq> [] \<longrightarrow> length (drop off acc) < length (encode_packet (hd fs))"

lemma frame_loop_stream:
  assumes "pending_frames acc off q fs" "list_all packet_ok fs"
  shows "\<exists>fs1 fs2 off'. fs = fs1 @ fs2 \<and> frame_loop h bad acc off st = Some (run_frames h fs1 st, off')
    \<and> pending_frames acc off' q fs2 \<and> none_complete acc off' fs2"
  using assms
proof (induction fs arbitrary: off st)
  case Nil
  then have "length acc - off = 0" by (auto simp: pending_frames_def)
  then have "try_parse_one acc off = NoFrame off"
    using Nil by (simp add: try_parse_one_def pending_frames_def)
  then show ?case
    using Nil by (intro exI [of _ "[]"] exI [of _ off]) (simp add: frame_loop.simps none_complete_def)
next
  case (Cons f fs)
  let ?unread = "drop off acc"
  have le: "off \<le> length acc" and st: "?unread @ q = encode_packet f @ stream fs"
    using Cons.prems by (simp_all add: pending_frames_def)
  show ?case
  proof (cases "length ?unread < length (encode_packet f)")
    case True
    then have "try_parse_one acc off = NoFrame off"
      using Cons.prems(2) by (intro try_parse_partial [OF le st]) simp_all
    then show ?thesis
      using Cons.prems True by (intro exI [of _ "[]"] exI [of _ "f # fs"] exI [of _ off])
        (simp add: frame_loop.simps none_complete_def)
  next
    case False
    then have "length (encode_packet f) \<le> length ?unread" by simp
    with st obtain rest where rest: "?unread = encode_packet f @ rest" "rest @ q = stream fs"
      by (rule append_longer)
    let ?off = "off + length (encode_packet f)"
    obtain hdr where hdr: "hdr_cmd hdr = pk_cmd f"
      "try_parse_one acc off = Frame hdr (pk_payload f) True ?off"
      using try_parse_complete [OF le rest(1)] Cons.prems(2) by auto
    have "drop ?off acc = rest" using rest(1) by (metis append_eq_conv_conj drop_drop add.commute)
    moreover have "?off \<le> length acc" using False le by simp
    ultimately have "pending_frames acc ?off q fs"
      using rest(2) by (simp add: pending_frames_def)
    from Cons.IH [OF this, of "h (pk_cmd f) (pk_payload f) st"] Cons.prems(2)
    obtain fs1 fs2 off' where IH: "fs = fs1 @ fs2"
      "frame_loop h bad acc ?off (h (pk_cmd f) (pk_payload f) st)
        = Some (run_frames h fs1 (h (pk_cmd f) (pk_payload f) st), off')"
      "pending_frames acc off' q fs2" "none_complete acc off' fs2"
      by auto
    have "frame_loop h bad acc off st = Some (run_frames h (f # fs1) st, off')"
      by (subst frame_loop.simps) (use IH(2) hdr in simp)
    with IH show ?thesis by (intro exI [of _ "f # fs1"] exI [of _ fs2] exI [of _ off']) simp
  qed
qed

lemma compact_pending:
  "pending_frames acc off q fs \<Longrightarrow> compact acc off = (acc', off') \<Longrightarrow>
   pending_frames acc' off' q fs \<and> (none_complete acc off fs \<longrightarrow> none_complete acc' off' fs)"
  by (auto simp: compact_def pending_frames_def none_complete_def split: if_splits)

lemma receive_all_stream:
  assumes "pending_frames acc off (concat chunks) fs" "none_complete acc off fs" "list_all packet_ok fs"
  shows "\<exists>buf. receive_all h bad chunks ((acc, off), st) = Some (buf, run_frames h fs st)
    \<and> drop (snd buf) (fst buf) = []"
  using assms
proof (induction chunks arbitrary: acc off fs st)
  case Nil
  then have "fs = []" by (cases fs) (auto simp: pending_frames_def none_complete_def)
  with Nil show ?case by (auto simp: pending_frames_def)
next
  case (Cons chunk chunks)
  have "pending_frames (acc @ chunk) off (concat chunks) fs"
    using Cons.prems(1) by (auto simp: pending_frames_def)
  from frame_loop_stream [OF this Cons.prems(3), of h bad st] obtain fs1 fs2 off1 where
    loop: "fs = fs1 @ fs2" "frame_loop h bad (acc @ chunk) off st = Some (run_frames h fs1 st, off1)"
    "pending_frames (acc @ chunk) off1 (concat chunks) fs2" "none_complete (acc @ chunk) off1 fs2"
    by (elim exE conjE) (rule that, assumption+)
  obtain acc' off' where c: "compact (acc @ chunk) off1 = (acc', off')" by fastforce
  from compact_pending [OF loop(3) c] loop(4)
  have p: "pending_frames acc' off' (concat chunks) fs2" "none_complete acc' off' fs2" by simp_all
  have "list_all packet_ok fs2" using Cons.prems(3) loop(1) by simp
  from Cons.IH [OF p this, of "run_frames h fs1 st"] loop(1,2) c show ?case by (simp add: receive_def)
qed

lemma receive_frames:
  "concat chunks = stream fs \<Longrightarrow> list_all packet_ok fs \<Longrightarrow>
   \<exists>buf. receive_all h bad chunks (([], 0), st) = Some (buf, run_frames h fs st) \<and> drop (snd buf) (fst buf) = []"
  by (rule receive_all_stream) (simp_all add: pending_frames_def none_complete_def)

text \<open>
  However TCP cuts the server's frames into reads, a client handles exactly these frames, in order,
  never reads outside its buffer, drops no frame and keeps no byte back; this holds for the bot and for
  the simple client, which prints each frame.
\<close>

lemma clients_receive_frames:
  assumes "concat chunks = concat (map encode_packet fs)" "list_all packet_ok fs"
  shows "(\<exists>buf. bot_receive chunks b = Some (buf, foldl (\<lambda>b f. bot_on_frame (pk_cmd f) (pk_payload f) b) b fs)
      \<and> drop (snd buf) (fst buf) = [])
    \<and> (\<exists>buf. simple_receive chunks = Some (buf, map (\<lambda>f. (pk_cmd f, pk_payload f)) fs)
      \<and> drop (snd buf) (fst buf) = [])"
proof -
  have s: "concat chunks = stream fs" using assms(1) by (simp add: stream_def)
  have "run_frames (\<lambda>cmd payload log. log @ [(cmd, payload)]) fs log = log @ map (\<lambda>f. (pk_cmd f, pk_payload f)) fs"
    for log by (induction fs arbitrary: log) simp_all
  with receive_frames [OF s assms(2), of bot_on_frame bot_bad_crc b]
    receive_frames [OF s assms(2), of "\<lambda>cmd payload log. log @ [(cmd, payload)]" "\<lambda>cmd log. log" "[]"]
  show ?thesis by (simp add: bot_receive_def simple_receive_def run_frames_def)
qed

lemma clients_receive_frames_witness:
  "\<exists>buf. bot_receive [take 7 (encode_packet demo_packet), drop 7 (encode_packet demo_packet)] (GameBot [] [] 0)
     = Some (buf, bot_print (GotOther 3 2) (GameBot [] [] 0))"
proof -
  have ok: "list_all packet_ok [demo_packet]"
    by (simp add: packet_ok_def demo_packet_def k_max_frame_bytes_def k_header_after_len_def)
  have c: "concat [take 7 (encode_packet demo_packet), drop 7 (encode_packet demo_packet)]
    = concat (map encode_packet [demo_packet])" by simp
  have "bot_on_frame (pk_cmd demo_packet) (pk_payload demo_packet) b = bot_print (GotOther 3 2) b" for b
    by (simp add: bot_on_frame_def demo_packet_def) (simp add: numeral_2_eq_2)
  with clients_receive_frames [OF c ok, of "GameBot [] [] 0"] show ?thesis by auto
qed

section \<open>A bot logs in\<close>

lemma bot_connected:
  "bot_connect True True (GameBot name host port) =
    ((GameBot name host port)\<lparr>gb_running := True, gb_open := True,
        gb_sent := encode_packet \<lparr>pk_cmd = 1001, pk_flags = 0, pk_ver = k_proto_ver, pk_seq = 0,
          pk_payload = login_req_serialize \<lparr>login_req_player_name = name, login_req_session_token = []\<rparr>\<rparr>,
        gb_log := [Connected, SentLogin name]\<rparr>, True)"
  by (simp add: bot_connect_def send_login_def bot_send_frame_def bot_print_def GameBot_def authenticate_def
      bot_login_def encode_packet_def Let_def)

lemma bot_gets_login:
  assumes "concat chunks = pack 1001 0 1 0 (login_answer ok msg pid mid)" "length msg \<le> 20"
  shows "\<exists>buf. bot_receive chunks b = Some (buf, bot_print (GotLogin ok pid mid) b)"
proof -
  let ?res = "\<lparr>login_res_success = ok, login_res_message = msg, login_res_player_id = pid, login_res_map_id = mid\<rparr>"
  let ?f = "\<lparr>pk_cmd = 1001, pk_flags = 0, pk_ver = 1, pk_seq = 0, pk_payload = login_res_serialize ?res\<rparr>"
  have ok: "list_all packet_ok [?f]"
    using assms(2) by (simp add: packet_ok_def login_res_serialize_def len_simps write_bool_def
        k_max_frame_bytes_def k_header_after_len_def)
  have "concat chunks = stream [?f]" using assms(1) by (simp add: encode_packet_def)
  from receive_frames [OF this ok, of bot_on_frame bot_bad_crc b] obtain buf where
    "bot_receive chunks b = Some (buf, bot_on_frame 1001 (login_res_serialize ?res) b)"
    by (auto simp: bot_receive_def)
  moreover have "login_res_wf ?res" using assms(2) by (simp add: login_res_wf_def lp_ok_def)
  note login_res_codec.parse_serialize [OF this]
  ultimately show ?thesis by (simp add: bot_on_frame_def)
qed

text \<open>
  C5: A login from end to end. When a bot connects to a running server without a database, over a
  connection with nothing unread and nothing queued and with a name that fits one read, the server takes the
  bytes the bot sends as a login:
  it creates a player entity with the bot's name at the origin of map 1 and stays in a reachable state.
  The bytes it queues in reply, however they are cut on the way back, make the bot report a successful
  login with exactly the id of that entity and that map, and nothing else.
\<close>

theorem bot_login_end_to_end:
  assumes "server_reach tok rnd k sv" "map_of (sv_channels sv) ch = Some c"
    and "drop (frame_acc_offset c) (frame_acc c) = []" "pending_bytes c = []"
    and "sv_use_ecs sv" "\<not> sv_dao sv" "length name \<le> 1000"
    and "bot_connect True True (GameBot name host port) = (b, ok)"
  shows "\<exists>sv' e c'. channel_input tok ch (IRead False (gb_sent b)) sv = Done sv'
    \<and> server_reach tok rnd (k + 2) sv'
    \<and> player_spawned ch e (Position 0 0 0) (Player name e ch 1) (Health 100 50) sv sv'
    \<and> map_of (sv_channels sv') ch = Some c'
    \<and> (\<forall>chunks. concat chunks = pending_bytes c' \<longrightarrow>
         (\<exists>buf. bot_receive chunks b = Some (buf, bot_print (GotLogin True e 1) b)))"
proof -
  let ?r = "\<lparr>login_req_player_name = name, login_req_session_token = []\<rparr>"
  let ?f = "\<lparr>pk_cmd = 1001, pk_flags = 0, pk_ver = k_proto_ver, pk_seq = 0, pk_payload = login_req_serialize ?r\<rparr>"
  have sent: "gb_sent b = encode_packet ?f" using assms(8) by (auto simp: bot_connected)
  have wf: "login_req_wf ?r" using assms(7) by (simp add: login_req_wf_def lp_ok_def)
  have fok: "packet_ok ?f"
    using assms(7) by (simp add: packet_ok_def login_req_serialize_def len_simps k_max_frame_bytes_def
        k_header_after_len_def)
  have inv: "service_ok sv" by (rule running.reach_inv [OF assms(1)])
  from read_one_packet [OF inv assms(2,3) fok, of tok] obtain c1 where
    c1: "chan_live ch c1" "pending_bytes c1 = pending_bytes c"
    "snd (read_handler c False (encode_packet ?f)) = [OnFrame ch 1001 (login_req_serialize ?r), AsyncRead]"
    "channel_input tok ch (IRead False (encode_packet ?f)) sv =
      and_then (on_frame tok ch 1001 (login_req_serialize ?r) (sv\<lparr>sv_channels := AList.update ch c1 (sv_channels sv)\<rparr>))
        (\<lambda>sv. Done (sv_emit (ChannelEvent ch AsyncRead) sv))"
    by auto
  define sv1 where "sv1 = sv\<lparr>sv_channels := AList.update ch c1 (sv_channels sv)\<rparr>"
  have sv1: "map_of (sv_channels sv1) ch = Some c1" "\<not> token_refused tok ?r sv1" "\<not> sv_dao sv1" "sv_use_ecs sv1"
    "sv_service_up sv1" "length (pending_bytes c1) + 64 \<le> 256 * 1024"
    using assms(4-6) c1(2) inv by (simp_all add: sv1_def token_refused_def service_ok_def update_conv')
  from login_spawned [OF c1(1) sv1(1,6) wf sv1(2-5)] obtain sv2 e where
    sv2: "handle_login tok ch (login_req_serialize ?r) sv1 = Done sv2"
    "player_spawned ch e (Position 0 0 0) (Player name e ch 1) (Health 100 50) sv1 sv2"
    "replied ch 1001 (login_answer True (str ''ok'') e 1) sv1 sv2" by auto
  define sv' where "sv' = sv_emit (ChannelEvent ch AsyncRead) sv2"
  have input: "channel_input tok ch (IRead False (gb_sent b)) sv = Done sv'"
    using c1(4) sv2(1) by (simp add: sent on_frame_login sv1_def sv'_def)
  from sv2(3) sv1(1) c1(2) assms(4) obtain c' where c': "map_of (sv_channels sv2) ch = Some c'"
    "pending_bytes c' = pack 1001 0 1 0 (login_answer True (str ''ok'') e 1)"
    by (auto simp: replied_def)
  have "player_spawned ch e (Position 0 0 0) (Player name e ch 1) (Health 100 50) sv sv'"
    using sv2(2) by (simp add: player_spawned_def sv1_def sv'_def emit_fields sv_world_def sv_emit_def)
  moreover have "server_reach tok rnd (k + 2) sv'"
    using server_reach.step [OF assms(1), of "ChannelInput ch (IRead False (encode_packet ?f))" sv'] assms(2)
      input c1(3) sent by simp
  moreover have "\<exists>buf. bot_receive chunks b = Some (buf, bot_print (GotLogin True e 1) b)"
    if "concat chunks = pending_bytes c'" for chunks
    using that c'(2) bot_gets_login [of chunks True "str ''ok''" e 1 b] by (simp add: str_def)
  moreover have "map_of (sv_channels sv') ch = Some c'" using c'(1) by (simp add: sv'_def emit_fields)
  ultimately show ?thesis using input by blast
qed

theorem bot_login_end_to_end_witness:
  "\<exists>b sv' e c' buf. bot_connect True True (GameBot (str ''bot'') (str ''127.0.0.1'') 12345) = (b, True)
    \<and> channel_input (\<lambda>_. None) 1 (IRead False (gb_sent b)) (ecs_server False) = Done sv'
    \<and> player_spawned 1 e (Position 0 0 0) (Player (str ''bot'') e 1 1) (Health 100 50) (ecs_server False) sv'
    \<and> map_of (sv_channels sv') 1 = Some c'
    \<and> bot_receive [take 3 (pending_bytes c'), drop 3 (pending_bytes c')] b = Some (buf, bot_print (GotLogin True e 1) b)"
proof -
  obtain b where b: "bot_connect True True (GameBot (str ''bot'') (str ''127.0.0.1'') 12345) = (b, True)"
    by (simp add: bot_connected)
  have c: "map_of (sv_channels (ecs_server False)) 1 = Some demo_channel1" "sv_use_ecs (ecs_server False)"
    "\<not> sv_dao (ecs_server False)" "pending_bytes demo_channel1 = []"
    by (simp_all add: ecs_server_fields demo_pending)
  have n: "length (str ''bot'') \<le> 1000" by (simp add: str_def)
  from bot_login_end_to_end [OF ecs_reach [of "\<lambda>_. None" "\<lambda>_. 0" False] c(1) demo_idle c(4,2,3) n b]
  obtain sv' e c' where *: "channel_input (\<lambda>_. None) 1 (IRead False (gb_sent b)) (ecs_server False) = Done sv'"
    "player_spawned 1 e (Position 0 0 0) (Player (str ''bot'') e 1 1) (Health 100 50) (ecs_server False) sv'"
    "map_of (sv_channels sv') 1 = Some c'"
    "\<forall>chunks. concat chunks = pending_bytes c' \<longrightarrow>
         (\<exists>buf. bot_receive chunks b = Some (buf, bot_print (GotLogin True e 1) b))"
    by (elim exE conjE) (rule that, assumption+)
  from *(4) [rule_format, of "[take 3 (pending_bytes c'), drop 3 (pending_bytes c')]"] obtain buf where
    "bot_receive [take 3 (pending_bytes c'), drop 3 (pending_bytes c')] b = Some (buf, bot_print (GotLogin True e 1) b)"
    by auto
  with b *(1-3) show ?thesis
    by (intro exI [of _ b] exI [of _ sv'] exI [of _ e] exI [of _ c'] exI [of _ buf] conjI)
qed

section \<open>A whole session\<close>

abbreviation bot_packet :: "u16 \<Rightarrow> bytes \<Rightarrow> packet" where
  "bot_packet cmd data \<equiv> \<lparr>pk_cmd = cmd, pk_flags = 0, pk_ver = k_proto_ver, pk_seq = 0, pk_payload = data\<rparr>"

definition step_packets :: "bytes \<Rightarrow> int \<Rightarrow> packet list" where
  "step_packets name i =
    bot_packet 1002 (player_move_req_serialize (bot_move (f_of_int (i * 5)) 0 (f_of_int (i * 3))))
    # (if i mod 3 = 0 then [bot_packet 1003 (str ''step='' @ fmt_d i @ str '' from '' @ name)] else [])"

definition session_packets :: "bytes \<Rightarrow> nat \<Rightarrow> packet list" where
  "session_packets name n =
    bot_packet 1001 (login_req_serialize \<lparr>login_req_player_name = name, login_req_session_token = []\<rparr>)
    # concat (map (\<lambda>i. step_packets name (int i)) [0..<n]) @ [bot_packet 1 []]"

lemma bot_send_open:
  "gb_open b \<Longrightarrow> bot_send_frame cmd data b = b\<lparr>gb_sent := gb_sent b @ encode_packet (bot_packet cmd data)\<rparr>"
  by (simp add: bot_send_frame_def encode_packet_def)

lemma bot_print_fields [simp]:
  "gb_sent (bot_print ev b) = gb_sent b" "gb_open (bot_print ev b) = gb_open b"
  "gb_running (bot_print ev b) = gb_running b" "gb_player_name (bot_print ev b) = gb_player_name b"
  by (simp_all add: bot_print_def)

lemma stream_append [simp]: "stream (fs @ gs) = stream fs @ stream gs"
  by (simp add: stream_def)

lemma bot_rounds_sent:
  assumes "gb_open b" "gb_running b"
  shows "gb_sent (bot_rounds n (int i) b) =
      gb_sent b @ stream (concat (map (\<lambda>i. step_packets (gb_player_name b) (int i)) [i..<i + n]))
    \<and> gb_open (bot_rounds n (int i) b)"
  using assms
proof (induction n arbitrary: i b)
  case (Suc n)
  define b1 where "b1 = send_move (f_of_int (int i * 5)) 0 (f_of_int (int i * 3)) b"
  define b2 where "b2 = (if int i mod 3 = 0
    then send_chat (str ''step='' @ fmt_d (int i) @ str '' from '' @ gb_player_name b1) b1 else b1)"
  have b2: "gb_open b2" "gb_running b2" "gb_player_name b2 = gb_player_name b"
    "gb_sent b2 = gb_sent b @ stream (step_packets (gb_player_name b) (int i))"
    using Suc.prems by (simp_all add: b2_def b1_def send_move_def send_chat_def bot_send_open step_packets_def Let_def)
  have "bot_rounds (Suc n) (int i) b = bot_rounds n (int (Suc i)) b2"
    using Suc.prems by (simp add: b2_def b1_def Let_def add.commute)
  moreover have "[i..<i + Suc n] = i # [Suc i..<Suc i + n]" by (simp add: upt_conv_Cons)
  ultimately show ?case using Suc.IH [OF b2(1,2), of "Suc i"] b2(3,4) by simp
qed simp

lemma session_sent:
  assumes "bot_connect True True (GameBot name host port) = (b, ok)"
  shows "gb_sent (bot_run (int n) b) = stream (session_packets name n)"
proof -
  have b: "gb_open b" "gb_running b" "gb_player_name b = name" "gb_sent b = encode_packet
      (bot_packet 1001 (login_req_serialize \<lparr>login_req_player_name = name, login_req_session_token = []\<rparr>))"
    using assms unfolding bot_connected by (auto simp: GameBot_def)
  show ?thesis
    using bot_rounds_sent [OF b(1,2), of n 0] b(3,4)
    by (simp add: bot_run_def bot_send_ping_def bot_send_open session_packets_def)
qed

lemma session_packets_ok:
  assumes "length name \<le> 1000" "5 * n \<le> 2 ^ 31"
  shows "list_all packet_ok (session_packets name n)"
proof -
  have "list_all packet_ok (step_packets name (int i))" if "i < n" for i
    using assms length_fmt_int32 [of "int i"] that
    by (auto simp: step_packets_def packet_ok_def player_move_req_serialize_def len_simps
        k_max_frame_bytes_def k_header_after_len_def str_def)
  then have "list_all packet_ok (concat (map (\<lambda>i. step_packets name (int i)) [0..<n]))"
    by (auto simp: list_all_iff)
  with assms(1) show ?thesis
    by (simp add: session_packets_def packet_ok_def login_req_serialize_def len_simps
        k_max_frame_bytes_def k_header_after_len_def)
qed



section \<open>The demo clients\<close>

text \<open>
  The frames of \<open>game_client\<close> begin with a zero checksum where the server expects a length: the server
  discards them with everything it has received.  The login of \<open>simple_client\<close> is not a length-prefixed
  string and its move lacks rotation and time: the server rejects both.
\<close>

lemma game_client_frames_discarded:
  "try_parse_one (create_frame msg_id data @ rest) 0 = NoFrame (length (create_frame msg_id data @ rest))"
proof -
  have keep: "take 4 (copy_to out i d) = take 4 out" if "4 \<le> i" "i \<le> length out" for out d :: bytes and i
    using that by (simp add: copy_to_def min_def)
  have len: "length (copy_to out i d) = length out" if "i + length d \<le> length out" for out d :: bytes and i
    using that by (simp add: copy_to_def)
  have "take 4 (copy_to out 0 (write_le32 0)) = [0, 0, 0, 0]" for out
    by (simp add: copy_to_def write_le32_def)
  then have "take 4 (create_frame msg_id data) = [0, 0, 0, 0]"
    by (simp add: create_frame_def Let_def keep len len_simps)
  then have "create_frame msg_id data = [0, 0, 0, 0] @ drop 4 (create_frame msg_id data)"
    by (metis append_take_drop_id)
  then obtain r where r: "create_frame msg_id data @ rest = [0, 0, 0, 0] @ r" by (metis append.assoc)
  show ?thesis unfolding r
    by (simp add: try_parse_one_def get_le32_def k_max_frame_bytes_def k_header_after_len_def Let_def)
qed

lemma simple_client_requests_rejected:
  "login_req_parse simple_login = Reject" "player_move_req_parse simple_move = Reject"
proof -
  have "read_lp_string simple_login = Reject"
    by (simp add: simple_login_def str_def read_lp_string_def read_le32_def Let_def)
  then show "login_req_parse simple_login = Reject" by (simp add: login_req_parse_def rbind_def)
  have "length simple_move = 12" by (simp add: simple_move_def len_simps)
  then show "player_move_req_parse simple_move = Reject" by (simp add: player_move_req_parse_def rbind_def need_def)
qed

end
