(* ===== verification/Spec2Isabelle.thy ===== *)
theory Spec2Isabelle
  imports Protocol Frame_Codec Message_Dispatcher Channel Thread_Managers Packet_Buffer Spin_Lock Server_Guilds Server_Start Game_Bot
begin

text \<open>
  This development models the game server of the repository, an asynchronous TCP server around an
  entity-component system with one logical thread per map, together with its persistence layer and its
  clients, and proves what makes the parts and their composition correct.

  \<^bold>\<open>How the program works.\<close> \<open>server/main.cpp\<close> loads the configuration and starts a \<open>game_server\<close>. The listener
  (\<open>server/network/asio_server.cpp\<close>) accepts connections; each is an \<open>asio_channel\<close>, which cuts the incoming bytes
  into frames, queues outgoing bytes and runs timers. A frame goes through the message dispatcher to a handler
  (\<open>server/game/handlers\<close>), which changes the entities, the guild tables or a map thread, replies or
  broadcasts, and hands database work to strands. The main loop (\<open>main_thread_manager.cpp\<close>) runs global tasks,
  moves players between maps, updates the systems and the map threads. Clients speak the same frames.

  \<^bold>\<open>Conventions.\<close> Fixed-width integers are words, \<open>int\<close> is \<open>int\<close> with casts written out, \<open>float\<close> is the bit
  pattern with exact IEEE rounding (\<open>F32\<close>), strings are byte lists, \<open>unordered_map\<close> is an association list,
  \<open>unordered_set\<close> a list without repetitions. An operation takes and returns its state; a null dereference, a read out
  of bounds, a self-deadlock and an exception are values. A critical section or a completion handler is one
  definition, so that interleavings are sequences of operations, and the step relations below range over all of them.

  \<^bold>\<open>Theories and sources.\<close>
    \<^item> \<open>Prelude\<close>, \<open>F32\<close>, \<open>Wire\<close>: shared lemmas, floats, byte readers and writers with the codec locales.
    \<^item> \<open>Protocol_Base\<close>, \<open>_Player\<close>, \<open>_Chat\<close>, \<open>_Guild\<close>, \<open>_Map\<close>, \<open>_Combat\<close>, \<open>Protocol\<close>: every message of
      \<open>common/protocol\<close>; each interprets \<open>message_codec\<close> (round trip) and, where its checks suffice, \<open>safe_codec\<close> (no
      read out of bounds).
    \<^item> \<open>Frame_Codec\<close>, \<open>Message_Dispatcher\<close>: \<open>common/network/frame_codec.hpp\<close>, \<open>message_dispatcher.hpp\<close>. The table-driven
      checksum is the bit-serial one; frames parse back; bursts of damage are detected; no input makes the parser
      leave the buffer.
    \<^item> \<open>Channel\<close>, \<open>Spin_Lock\<close>, \<open>Asio_Server\<close>: \<open>server/network\<close>, \<open>common/core/spin_lock.hpp\<close>. Reassembly of any
      fragmentation, accounting of the send queue, order of writes, time-outs; mutual exclusion; the accept loop.
    \<^item> \<open>Packet_Buffer\<close>: \<open>common/core/packet_buffer.cpp\<close>, every operation on internal and external memory.
    \<^item> \<open>Components\<close>, \<open>Ecs\<close>, \<open>Component_Manager\<close>, \<open>Movement_System\<close>, \<open>AI_System\<close> (with the combat system),
      \<open>Map_System\<close>, \<open>Game_Service\<close>: \<open>server/game/components\<close>, \<open>ecs\<close>, \<open>systems\<close>. Stores refine finite maps (locales
      \<open>keyed_store\<close>, \<open>component_slot\<close>), ids are fresh, each system does what its operations promise.
    \<^item> \<open>Task_Queue\<close>, \<open>Map_Thread\<close>, \<open>Thread_Managers\<close>: \<open>server/game/threading\<close>. Priority order (locales
      \<open>priority_queue\<close>, \<open>task_loop\<close>), spawning, bounds, and that threads of different maps do not interfere (locale
      \<open>thread_operation\<close>).
    \<^item> \<open>Player_Dao\<close>, \<open>Db_Manager\<close>, \<open>Redis_Client\<close>, \<open>Server_Config\<close>: \<open>server/db\<close>, \<open>server/core/server_config.cpp\<close>.
      Exclusive connections, retries, query texts, pools by role, the cache as a pair of maps, which documents load
      and what they set.
    \<^item> \<open>Game_Server\<close>, \<open>Server_Invariants\<close>, \<open>Server_Behaviour\<close>, \<open>Server_Guilds\<close>, \<open>Server_Players\<close>, \<open>Server_Start\<close>:
      \<open>server/game/game_server.cpp\<close>, \<open>handlers\<close>, \<open>server/main.cpp\<close>. \<open>srv_step\<close> is one step of the server on any input and
      \<open>server_reach\<close> its reachable states. The locale \<open>server_invariant\<close> derives from a few laws that a predicate
      survives every step; its interpretations give that no input crashes the server and that the guild tables agree.
      On top of it are the behaviour of login, attack, move, chat and guild commands, saving on disconnect, and start-up.
    \<^item> \<open>Game_Bot\<close>: \<open>client\<close>. The bot's session reaches the server's parsers, and a login is followed from the bot
      through the server and back.

  \<^bold>\<open>Loops and bounds.\<close> Parsing and retry loops terminate by a measure. The task loops of the map threads and of the
  main thread run closures that may add tasks, and are partial functions whose result \<open>None\<close> means that they do not
  return; that an iteration of the main loop returns is proved. No definition uses fuel. Bounds in
  the statements are those of the code: 1 MiB for a frame, 256 KiB for a send queue, 1024 bytes for a read, 64 messages
  and 64 KiB for a batch.

  \<^bold>\<open>Parameters.\<close> Code outside the program's own sources is a parameter: the answers of MySQL for each attempt, the
  hiredis library, the acceptor and sockets, the contents of the configuration file as a JSON value, random draws,
  clocks. What is assumed of Redis is the predicate \<open>redis_serves\<close>.

  \<^bold>\<open>Not modelled.\<close> The asio, spdlog, hiredis and nlohmann libraries; logging and timing headers; the read-only range
  query of the map system, which computes in double precision; move operations of the database connection handle and the
  build without MySQL; \<open>thread_group\<close> (declared, never started) and \<open>objects/player\<close> (included nowhere); headers that only
  declare (\<open>threaded_map_system.hpp\<close>, \<open>entity_manager.hpp\<close>, \<open>connection_interface.hpp\<close>); data races, in particular the
  unlocked reads of components by the network thread while the main loop updates them; tests, build and deployment files.
\<close>

end
